(* ===== verification/Prelude.thy ===== *)
theory Prelude
  imports Main "HOL-Library.Word" "HOL-Library.List_Lexorder" "HOL-Library.Char_ord"
begin

unbundle bit_operations_syntax

text \<open>
  What every component of the xray-mesh development shares: the result type of a Go
  function that may return an error or panic, checked slice accesses, the wall-clock type,
  and generic facts about maps, lists and sorting.
\<close>

section \<open>Named collections\<close>

named_theorems go_simps \<open>characteristic equations of the Go runtime model\<close>
named_theorems inv_intros \<open>an operation keeps the invariant of its component\<close>

section \<open>Results, errors and panics\<close>

text \<open>
  A Go function of type \<open>(T, error)\<close> returns \<open>Ok v\<close> or \<open>Fail e\<close>. \<open>Panic\<close> is a run-time
  panic: an index or slice bound out of range, or a library call that panics.
\<close>

datatype ('e, 'a) result = Ok 'a | Fail 'e | Panic

fun rbind :: "('e, 'a) result \<Rightarrow> ('a \<Rightarrow> ('e, 'b) result) \<Rightarrow> ('e, 'b) result" where
  "rbind (Ok v) k = k v"
| "rbind (Fail e) k = Fail e"
| "rbind Panic k = Panic"

lemma rbind_Ok_iff: "rbind m k = Ok v \<longleftrightarrow> (\<exists>u. m = Ok u \<and> k u = Ok v)"
  by (cases m) auto

lemma rbind_Fail_iff: "rbind r k = Fail e \<longleftrightarrow> r = Fail e \<or> (\<exists>v. r = Ok v \<and> k v = Fail e)"
  by (cases r) auto

lemma rbind_Panic_iff: "rbind m k = Panic \<longleftrightarrow> m = Panic \<or> (\<exists>u. m = Ok u \<and> k u = Panic)"
  by (cases m) auto

lemma rbind_not_Panic: "m \<noteq> Panic \<Longrightarrow> (\<And>v. m = Ok v \<Longrightarrow> k v \<noteq> Panic) \<Longrightarrow> rbind m k \<noteq> Panic"
  by (cases m) auto

text \<open>Reading \<open>b[i]\<close> and \<open>b[i:j]\<close>, with the bounds Go checks against the slice's length.\<close>

definition idx :: "'a list \<Rightarrow> nat \<Rightarrow> ('e, 'a) result" where
  "idx b i = (if i < length b then Ok (b ! i) else Panic)"

definition subslice :: "'a list \<Rightarrow> nat \<Rightarrow> nat \<Rightarrow> ('e, 'a list) result" where
  "subslice b i j = (if i \<le> j \<and> j \<le> length b then Ok (take (j - i) (drop i b)) else Panic)"

lemma idx_in [simp]: "i < length b \<Longrightarrow> idx b i = Ok (b ! i)"
  by (simp add: idx_def)

lemma subslice_in [simp]: "i \<le> j \<Longrightarrow> j \<le> length b \<Longrightarrow> subslice b i j = Ok (take (j - i) (drop i b))"
  by (simp add: subslice_def)

lemma subslice_length: "subslice b i j = Ok c \<Longrightarrow> length c = j - i"
  by (auto simp: subslice_def split: if_splits)

section \<open>Machine integers and bytes\<close>

type_synonym u8 = "8 word"
type_synonym u16 = "16 word"
type_synonym u32 = "32 word"
type_synonym bytes = "u8 list"

lemma unat_Suc_below: "i < j \<Longrightarrow> unat (i + 1) = Suc (unat i)" for i j :: "'a::len word"
proof -
  assume "i < j"
  then have "Suc (unat i) \<le> unat j" by (simp add: word_less_nat_alt)
  also have "unat j < 2 ^ LENGTH('a)" by (rule unsigned_less)
  finally have "Suc (unat i) < 2 ^ LENGTH('a)" .
  then show ?thesis by (simp add: unat_word_ariths)
qed

lemma unat_of_nat_eq: "k < 2 ^ LENGTH('a) \<Longrightarrow> unat (of_nat k :: 'a::len word) = k"
  by (simp add: unat_of_nat take_bit_nat_eq_self)

text \<open>\<open>binary.BigEndian.Uint16\<close> and \<open>PutUint16\<close>, \<open>Uint32\<close> and \<open>PutUint32\<close>.\<close>

definition be16 :: "u8 \<Rightarrow> u8 \<Rightarrow> u16" where
  "be16 a b = push_bit 8 (ucast a) OR ucast b"

definition put16 :: "u16 \<Rightarrow> bytes" where
  "put16 v = [ucast (drop_bit 8 v), ucast v]"

definition be32 :: "u8 \<Rightarrow> u8 \<Rightarrow> u8 \<Rightarrow> u8 \<Rightarrow> u32" where
  "be32 a b c d =
     push_bit 24 (ucast a) OR push_bit 16 (ucast b) OR push_bit 8 (ucast c) OR ucast d"

definition put32 :: "u32 \<Rightarrow> bytes" where
  "put32 v = [ucast (drop_bit 24 v), ucast (drop_bit 16 v), ucast (drop_bit 8 v), ucast v]"

lemma unat_u8_less: "unat (b :: u8) < 256"
  using unsigned_less [of b] by simp

lemma unat_u16_less: "unat (b :: u16) < 65536"
  using unsigned_less [of b] by simp

lemma unat_u32_less: "unat (b :: u32) < 2 ^ 32"
  using unsigned_less [of b] by simp

lemma bit_u8_beyond [simp]: "8 \<le> n \<Longrightarrow> \<not> bit (b :: u8) n"
  using bit_imp_le_length [of b n] by auto

lemma be16_put: "be16 (ucast (drop_bit 8 v)) (ucast v) = v"
  unfolding be16_def
  by (rule bit_word_eqI) (auto simp: bit_simps)

lemma put16_be: "put16 (be16 a b) = [a, b]"
  unfolding be16_def put16_def
  by (auto intro!: bit_word_eqI simp: bit_simps)

lemma be32_put:
  "be32 (ucast (drop_bit 24 v)) (ucast (drop_bit 16 v)) (ucast (drop_bit 8 v)) (ucast v) = v"
proof (rule bit_word_eqI)
  fix n assume "n < LENGTH(32)"
  then consider "n < 8" | "8 \<le> n" "n < 16" | "16 \<le> n" "n < 24" | "24 \<le> n" "n < 32" by fastforce
  then show "bit (be32 (ucast (drop_bit 24 v)) (ucast (drop_bit 16 v)) (ucast (drop_bit 8 v)) (ucast v)) n
      = bit v n"
    unfolding be32_def by cases (auto simp: bit_simps)
qed

lemma put32_be: "put32 (be32 a b c d) = [a, b, c, d]"
  unfolding be32_def put32_def
  by (auto intro!: bit_word_eqI simp: bit_simps)

lemma length_put16 [simp]: "length (put16 v) = 2"
  by (simp add: put16_def)

lemma length_put32 [simp]: "length (put32 v) = 4"
  by (simp add: put32_def)

section \<open>Time\<close>

text \<open>
  A \<open>time.Time\<close> is its instant, in nanoseconds since the zero \<open>Time\<close> (1 January of year 1,
  UTC), so \<open>IsZero\<close> is equality with \<open>0\<close> and \<open>UTC()\<close> changes nothing. A \<open>time.Duration\<close> is
  a number of nanoseconds; \<open>Sub\<close> saturates at the bounds of \<open>int64\<close>, as in the library.
\<close>

type_synonym time = int
type_synonym duration = int

definition int64_max :: int where "int64_max = 2 ^ 63 - 1"
definition int64_min :: int where "int64_min = - (2 ^ 63)"

definition time_Sub :: "time \<Rightarrow> time \<Rightarrow> duration" where
  "time_Sub t u = max int64_min (min int64_max (t - u))"

abbreviation (input) time_Before :: "time \<Rightarrow> time \<Rightarrow> bool" where "time_Before t u \<equiv> t < u"
abbreviation (input) time_After :: "time \<Rightarrow> time \<Rightarrow> bool" where "time_After t u \<equiv> u < t"
abbreviation (input) time_Add :: "time \<Rightarrow> duration \<Rightarrow> time" where "time_Add t d \<equiv> t + d"
abbreviation (input) time_IsZero :: "time \<Rightarrow> bool" where "time_IsZero t \<equiv> t = 0"

definition Millisecond :: duration where "Millisecond = 1000000"
definition Second :: duration where "Second = 1000000000"
definition Minute :: duration where "Minute = 60000000000"

lemma time_Sub_exact:
  "int64_min \<le> t - u \<Longrightarrow> t - u \<le> int64_max \<Longrightarrow> time_Sub t u = t - u"
  by (simp add: time_Sub_def)

lemma time_Sub_less_iff: "0 < w \<Longrightarrow> w \<le> int64_max \<Longrightarrow> time_Sub t u < w \<longleftrightarrow> t - u < w"
  by (auto simp: time_Sub_def int64_max_def int64_min_def)

lemma time_Sub_ge_iff: "0 < w \<Longrightarrow> w \<le> int64_max \<Longrightarrow> w \<le> time_Sub t u \<longleftrightarrow> w \<le> t - u"
  by (auto simp: time_Sub_def int64_max_def int64_min_def)

section \<open>Go maps\<close>

text \<open>
  A Go map is a finite partial function. \<open>for k, v := range m\<close> visits every key once in an
  order the language leaves open: an operation whose result could depend on it takes the
  order as an argument, a list \<open>ord\<close> with \<open>range_of m ord\<close>.
\<close>

definition range_of :: "('k \<rightharpoonup> 'v) \<Rightarrow> 'k list \<Rightarrow> bool" where
  "range_of m ord \<longleftrightarrow> distinct ord \<and> set ord = dom m"

text \<open>Deleting, inside a \<open>range\<close> loop, every entry whose value satisfies a condition.\<close>

definition delete_where :: "('v \<Rightarrow> bool) \<Rightarrow> ('k \<rightharpoonup> 'v) \<Rightarrow> ('k \<rightharpoonup> 'v)" where
  "delete_where P m = (\<lambda>k. case m k of None \<Rightarrow> None | Some v \<Rightarrow> if P v then None else Some v)"

lemma delete_where_Some [simp]: "delete_where P m k = Some v \<longleftrightarrow> m k = Some v \<and> \<not> P v"
  by (auto simp: delete_where_def split: option.splits)

lemma delete_where_None: "delete_where P m k = None \<longleftrightarrow> (\<forall>v. m k = Some v \<longrightarrow> P v)"
  by (auto simp: delete_where_def split: option.splits)

lemma delete_where_idem [simp]: "delete_where P (delete_where P m) = delete_where P m"
  by (rule ext) (auto simp: delete_where_def split: option.splits)

lemma dom_delete_where: "dom (delete_where P m) \<subseteq> dom m"
  by auto

lemma finite_delete_where [simp]: "finite (dom m) \<Longrightarrow> finite (dom (delete_where P m))"
  by (rule finite_subset [OF dom_delete_where])

text \<open>The values of a map, in the order a \<open>range\<close> loop visits them.\<close>

definition range_values :: "('k \<rightharpoonup> 'v) \<Rightarrow> 'k list \<Rightarrow> 'v list" where
  "range_values m ord = concat (map (\<lambda>k. case m k of None \<Rightarrow> [] | Some v \<Rightarrow> [v]) ord)"

lemma range_values_from: "v \<in> set (range_values m ord) \<Longrightarrow> \<exists>k\<in>set ord. m k = Some v"
  by (induction ord) (auto simp: range_values_def split: option.splits)

lemma set_range_values: "range_of m ord \<Longrightarrow> set (range_values m ord) = ran m"
  by (fastforce simp: range_values_def range_of_def ran_def dom_def split: option.splits)

text \<open>Values that carry their own key are visited once each.\<close>

lemma distinct_range_keys:
  assumes "distinct ord" "\<And>k v. m k = Some v \<Longrightarrow> f v = k"
  shows "distinct (map f (range_values m ord))"
  using assms(1)
proof (induction ord)
  case (Cons k ord)
  have "f v \<in> set ord" if "v \<in> set (range_values m ord)" for v
    using that assms(2) by (force simp: range_values_def split: option.splits)
  with Cons assms(2) [of k] show ?case
    by (force simp: range_values_def split: option.splits)
qed (simp add: range_values_def)

section \<open>Sorting\<close>

text \<open>
  \<open>sort.Slice\<close> with a comparison on a key that is unique in the slice has one possible
  result, the sorted list, which \<open>sort_key\<close> computes.
\<close>

lemma sort_key_unique:
  assumes "set xs = set ys" "distinct xs" "distinct ys" "inj_on f (set xs)"
  shows "sort_key f xs = sort_key f ys"
proof (rule map_sorted_distinct_set_unique [where f = f])
  show "inj_on f (set (sort_key f xs) \<union> set (sort_key f ys))" using assms by simp
  show "sorted (map f (sort_key f xs))" "sorted (map f (sort_key f ys))" by simp_all
  show "distinct (map f (sort_key f xs))" "distinct (map f (sort_key f ys))"
    using assms by (simp_all add: distinct_map)
  show "set (sort_key f xs) = set (sort_key f ys)" using assms by simp
qed

lemma map_sort_key_id: "map f (sort_key f xs) = sort (map f xs)"
proof (induction xs)
  case (Cons x xs)
  have "map f (insort_key f x ys) = insort (f x) (map f ys)" for ys
    by (induction ys) auto
  with Cons show ?case by simp
qed simp

text \<open>Fields that end at a separator they do not contain.\<close>

lemma split_at_sep:
  "c \<notin> set a \<Longrightarrow> c \<notin> set b \<Longrightarrow> a @ c # x = b @ c # y \<longleftrightarrow> a = b \<and> x = y"
  by (induction a arbitrary: b; case_tac b) auto

section \<open>Secondary indexes\<close>

text \<open>
  A map \<open>g\<close> from a unique attribute \<open>key\<close> of the values of \<open>m\<close> back to their keys, as the
  registry keeps for addresses and for tokens.
\<close>

definition index_of :: "('k \<rightharpoonup> 'v) \<Rightarrow> ('v \<Rightarrow> 'i) \<Rightarrow> ('i \<rightharpoonup> 'k) \<Rightarrow> bool" where
  "index_of m key g \<longleftrightarrow> (\<forall>i k. g i = Some k \<longleftrightarrow> (\<exists>v. m k = Some v \<and> key v = i))"

lemma index_of_inj:
  assumes "index_of m key g" "m k = Some v" "m l = Some w" "key v = key w"
  shows "k = l"
proof -
  have "g (key v) = Some k" "g (key v) = Some l"
    using assms by (auto simp: index_of_def)
  then show ?thesis by simp
qed

lemma index_of_empty [simp]: "index_of Map.empty key Map.empty"
  by (simp add: index_of_def)

lemma index_of_delete:
  assumes idx: "index_of m key g" and v: "m k = Some v"
  shows "index_of (m(k := None)) key (g(key v := None))"
  unfolding index_of_def
proof (intro allI)
  fix i l
  show "(g(key v := None)) i = Some l \<longleftrightarrow> (\<exists>w. (m(k := None)) l = Some w \<and> key w = i)"
  proof (cases "i = key v")
    case True
    then show ?thesis using index_of_inj [OF idx v] by auto
  next
    case False
    then have "(g(key v := None)) i = Some l \<longleftrightarrow> (\<exists>w. m l = Some w \<and> key w = i)"
      using idx by (simp add: index_of_def)
    then show ?thesis using False v by auto
  qed
qed

lemma index_of_insert:
  assumes idx: "index_of m key g" and new: "m k = None" "g (key v) = None"
  shows "index_of (m(k \<mapsto> v)) key (g(key v \<mapsto> k))"
  unfolding index_of_def
proof (intro allI)
  fix i l
  have free: "m l = Some w \<Longrightarrow> key w \<noteq> key v" for l w
    using idx new(2) by (metis index_of_def option.distinct(1))
  show "(g(key v \<mapsto> k)) i = Some l \<longleftrightarrow> (\<exists>w. (m(k \<mapsto> v)) l = Some w \<and> key w = i)"
  proof (cases "i = key v")
    case True
    then show ?thesis using free by auto
  next
    case False
    then have "(g(key v \<mapsto> k)) i = Some l \<longleftrightarrow> (\<exists>w. m l = Some w \<and> key w = i)"
      using idx by (simp add: index_of_def)
    then show ?thesis using False new(1) by auto
  qed
qed

lemma index_of_update:
  assumes idx: "index_of m key g" and v: "m k = Some v" and key: "key w = key v"
  shows "index_of (m(k \<mapsto> w)) key g"
  unfolding index_of_def
proof (intro allI)
  fix i l
  have "g i = Some l \<longleftrightarrow> (\<exists>w. m l = Some w \<and> key w = i)" using idx by (simp add: index_of_def)
  then show "g i = Some l \<longleftrightarrow> (\<exists>x. (m(k \<mapsto> w)) l = Some x \<and> key x = i)"
    using v key by auto
qed

section \<open>Wrapped errors\<close>

fun map_err :: "('e \<Rightarrow> 'f) \<Rightarrow> ('e, 'a) result \<Rightarrow> ('f, 'a) result" where
  "map_err f (Ok v) = Ok v"
| "map_err f (Fail e) = Fail (f e)"
| "map_err f Panic = Panic"

lemma map_err_simps [simp]:
  "map_err f r = Ok v \<longleftrightarrow> r = Ok v"
  "map_err f r = Panic \<longleftrightarrow> r = Panic"
  by (cases r; simp)+

end
