(* ===== verification/GoStrings.thy ===== *)
theory GoStrings
  imports Prelude
begin

text \<open>
  The part of the Go \<open>strings\<close>, \<open>bytes\<close> and \<open>encoding/hex\<close> packages that the code uses. A Go
  string is a sequence of bytes, a \<open>string\<close> here, one \<open>char\<close> for one byte; a \<open>[]byte\<close> is a
  list of 8-bit words.
\<close>

section \<open>Strings and byte slices\<close>

definition bytes_of :: "string \<Rightarrow> bytes" where
  "bytes_of s = map (\<lambda>c. of_nat (of_char c)) s"

definition string_of :: "bytes \<Rightarrow> string" where
  "string_of b = map (\<lambda>w. char_of (unat w)) b"

lemma string_of_bytes_of [simp]: "string_of (bytes_of s) = s"
proof -
  have "char_of (unat (of_nat (of_char c) :: u8)) = c" for c :: char
    by (simp add: unat_of_nat)
  then show ?thesis
    by (simp add: string_of_def bytes_of_def comp_def map_idI)
qed

lemma bytes_of_string_of [simp]: "bytes_of (string_of b) = b"
proof -
  have "of_nat (of_char (char_of (unat w))) = w" for w :: u8
    using unat_u8_less [of w] by (simp add: of_char_of take_bit_nat_eq_self)
  then show ?thesis
    by (simp add: string_of_def bytes_of_def comp_def map_idI)
qed

lemma length_bytes_of [simp]: "length (bytes_of s) = length s"
  by (simp add: bytes_of_def)

lemma length_string_of [simp]: "length (string_of b) = length b"
  by (simp add: string_of_def)

lemma bytes_of_inj [simp]: "bytes_of s = bytes_of t \<longleftrightarrow> s = t"
  using string_of_bytes_of by metis

lemma string_of_inj [simp]: "string_of a = string_of b \<longleftrightarrow> a = b"
  using bytes_of_string_of by metis

lemma bytes_of_append [simp]: "bytes_of (s @ t) = bytes_of s @ bytes_of t"
  by (simp add: bytes_of_def)

lemma bytes_of_Nil [simp]: "bytes_of [] = []"
  by (simp add: bytes_of_def)

lemma bytes_of_eq_Nil [simp]: "bytes_of s = [] \<longleftrightarrow> s = []"
  by (simp add: bytes_of_def)

text \<open>\<open>strings.HasPrefix\<close> and \<open>bytes.HasPrefix\<close>.\<close>

definition HasPrefix :: "'a list \<Rightarrow> 'a list \<Rightarrow> bool" where
  "HasPrefix s p \<longleftrightarrow> take (length p) s = p"

lemma HasPrefix_append [simp]: "HasPrefix (p @ s) p"
  by (simp add: HasPrefix_def)

lemma HasPrefix_iff: "HasPrefix s p \<longleftrightarrow> (\<exists>t. s = p @ t)"
proof
  assume "HasPrefix s p"
  then have "s = p @ drop (length p) s"
    by (metis HasPrefix_def append_take_drop_id)
  then show "\<exists>t. s = p @ t" ..
qed auto

section \<open>TrimSpace\<close>

text \<open>
  \<open>strings.TrimSpace\<close> removes the white space of \<open>unicode.IsSpace\<close> at both ends. The runes
  are listed by their UTF-8 encodings; a space at the end of the string is found from its last
  byte backwards, as the library decodes the last rune.
\<close>

definition space_runes :: "string list" where
  "space_runes =
     [[CHR 0x09], [CHR 0x0A], [CHR 0x0B], [CHR 0x0C], [CHR 0x0D], [CHR 0x20],
      [CHR 0xC2, CHR 0x85], [CHR 0xC2, CHR 0xA0], [CHR 0xE1, CHR 0x9A, CHR 0x80],
      [CHR 0xE2, CHR 0x80, CHR 0x80], [CHR 0xE2, CHR 0x80, CHR 0x81],
      [CHR 0xE2, CHR 0x80, CHR 0x82], [CHR 0xE2, CHR 0x80, CHR 0x83],
      [CHR 0xE2, CHR 0x80, CHR 0x84], [CHR 0xE2, CHR 0x80, CHR 0x85],
      [CHR 0xE2, CHR 0x80, CHR 0x86], [CHR 0xE2, CHR 0x80, CHR 0x87],
      [CHR 0xE2, CHR 0x80, CHR 0x88], [CHR 0xE2, CHR 0x80, CHR 0x89],
      [CHR 0xE2, CHR 0x80, CHR 0x8A], [CHR 0xE2, CHR 0x80, CHR 0xA8],
      [CHR 0xE2, CHR 0x80, CHR 0xA9], [CHR 0xE2, CHR 0x80, CHR 0xAF],
      [CHR 0xE2, CHR 0x81, CHR 0x9F], [CHR 0xE3, CHR 0x80, CHR 0x80]]"

fun lead_rune :: "string list \<Rightarrow> string \<Rightarrow> string option" where
  "lead_rune [] s = None"
| "lead_rune (r # rs) s =
     (if r \<noteq> [] \<and> HasPrefix s r then Some (drop (length r) s) else lead_rune rs s)"

lemma lead_rune_suffix: "lead_rune rs s = Some t \<Longrightarrow> \<exists>r \<in> set rs. r \<noteq> [] \<and> s = r @ t"
  by (induction rs) (auto simp: HasPrefix_iff split: if_splits)

lemma lead_rune_None: "lead_rune rs s = None \<longleftrightarrow> (\<forall>r \<in> set rs. r = [] \<or> \<not> HasPrefix s r)"
  by (induction rs) auto

function trim_runes :: "string list \<Rightarrow> string \<Rightarrow> string" where
  "trim_runes rs s = (case lead_rune rs s of None \<Rightarrow> s | Some t \<Rightarrow> trim_runes rs t)"
  by pat_completeness auto
termination
  by (relation "measure (\<lambda>(rs, s). length s)") (auto dest: lead_rune_suffix)

declare trim_runes.simps [simp del]

definition TrimSpace :: "string \<Rightarrow> string" where
  "TrimSpace s = rev (trim_runes (map rev space_runes) (rev (trim_runes space_runes s)))"

lemma trim_runes_fix: "lead_rune rs s = None \<Longrightarrow> trim_runes rs s = s"
  by (simp add: trim_runes.simps)

lemma trim_runes_done: "lead_rune rs (trim_runes rs s) = None"
  by (induction rs s rule: trim_runes.induct)
     (subst trim_runes.simps, auto split: option.splits)

lemma trim_runes_suffix: "\<exists>p. s = p @ trim_runes rs s"
proof (induction rs s rule: trim_runes.induct)
  case (1 rs s)
  show ?case
  proof (cases "lead_rune rs s")
    case None
    then show ?thesis by (simp add: trim_runes_fix)
  next
    case (Some t)
    then obtain r p where "s = r @ t" "t = p @ trim_runes rs t"
      using lead_rune_suffix 1 by blast
    then have "s = (r @ p) @ trim_runes rs t" by simp
    then show ?thesis using Some by (subst trim_runes.simps) auto
  qed
qed

lemma lead_rune_None_prefix: "lead_rune rs (s @ t) = None \<Longrightarrow> lead_rune rs s = None"
  by (auto simp: lead_rune_None HasPrefix_iff)

lemma TrimSpace_idem [simp]: "TrimSpace (TrimSpace s) = TrimSpace s"
proof -
  let ?l = "trim_runes space_runes s" and ?rr = "map rev space_runes"
  obtain p where p: "rev ?l = p @ trim_runes ?rr (rev ?l)" using trim_runes_suffix by blast
  then have "?l = rev (trim_runes ?rr (rev ?l)) @ rev p"
    by (metis rev_append rev_rev_ident)
  then have "lead_rune space_runes (rev (trim_runes ?rr (rev ?l))) = None"
    using trim_runes_done lead_rune_None_prefix by metis
  then show ?thesis
    by (simp add: TrimSpace_def trim_runes_fix trim_runes_done)
qed

text \<open>A string that starts and ends with a graphic ASCII character has nothing to trim.\<close>

definition graphic :: "char \<Rightarrow> bool" where
  "graphic c \<longleftrightarrow> (of_char c :: nat) \<in> {33..126}"

lemma space_runes_ends:
  "\<forall>r \<in> set space_runes. r \<noteq> [] \<and> \<not> graphic (hd r) \<and> \<not> graphic (last r)"
  by (simp add: space_runes_def graphic_def)

lemma TrimSpace_graphic:
  assumes "s \<noteq> []" "graphic (hd s)" "graphic (last s)"
  shows "TrimSpace s = s"
proof -
  have "lead_rune space_runes s = None"
    using assms(2) space_runes_ends by (force simp: lead_rune_None HasPrefix_iff)
  moreover have "lead_rune (map rev space_runes) (rev s) = None"
  proof -
    have "\<not> HasPrefix (rev s) (rev r)" if "r \<in> set space_runes" for r
    proof
      assume "HasPrefix (rev s) (rev r)"
      then obtain t where "rev s = rev r @ t" by (auto simp: HasPrefix_iff)
      then have "s = rev t @ r" by (metis rev_append rev_rev_ident)
      then show False using that assms(3) space_runes_ends by auto
    qed
    then show ?thesis by (auto simp: lead_rune_None)
  qed
  ultimately show ?thesis by (simp add: TrimSpace_def trim_runes_fix)
qed

lemma TrimSpace_Nil [simp]: "TrimSpace [] = []"
  by (simp add: TrimSpace_def trim_runes_fix lead_rune_None HasPrefix_def space_runes_def)

text \<open>\<open>strings.TrimRight(s, cutset)\<close> and \<open>strings.Trim(s, cutset)\<close> for an ASCII cutset.\<close>

definition TrimRight :: "string \<Rightarrow> string \<Rightarrow> string" where
  "TrimRight s cutset = rev (dropWhile (\<lambda>c. c \<in> set cutset) (rev s))"

definition TrimCut :: "string \<Rightarrow> string \<Rightarrow> string" where
  "TrimCut s cutset = TrimRight (dropWhile (\<lambda>c. c \<in> set cutset) s) cutset"

section \<open>Hexadecimal\<close>

text \<open>\<open>hex.EncodeToString\<close> writes lower case; \<open>hex.DecodeString\<close> reads both cases and fails
  (\<open>None\<close>) on an odd length or on any other byte.\<close>

definition hex_digit :: "nat \<Rightarrow> char" where
  "hex_digit n = (if n < 10 then char_of (48 + n) else char_of (87 + n))"

fun hex_encode :: "bytes \<Rightarrow> string" where
  "hex_encode [] = []"
| "hex_encode (b # bs) = hex_digit (unat b div 16) # hex_digit (unat b mod 16) # hex_encode bs"

definition hex_value :: "char \<Rightarrow> nat option" where
  "hex_value c = (let n = of_char c :: nat in
     if 48 \<le> n \<and> n \<le> 57 then Some (n - 48)
     else if 97 \<le> n \<and> n \<le> 102 then Some (n - 87)
     else if 65 \<le> n \<and> n \<le> 70 then Some (n - 55) else None)"

fun hex_decode :: "string \<Rightarrow> bytes option" where
  "hex_decode [] = Some []"
| "hex_decode [c] = None"
| "hex_decode (c # d # s) =
     (case (hex_value c, hex_value d, hex_decode s) of
        (Some h, Some l, Some bs) \<Rightarrow> Some (of_nat (16 * h + l) # bs)
      | _ \<Rightarrow> None)"

lemma hex_value_digit: "n < 16 \<Longrightarrow> hex_value (hex_digit n) = Some n"
  by (auto simp: hex_value_def hex_digit_def Let_def of_char_of take_bit_nat_eq_self)

lemma hex_decode_encode [simp]: "hex_decode (hex_encode bs) = Some bs"
proof (induction bs)
  case (Cons b bs)
  have "unat b < 256" by (rule unat_u8_less)
  then have "unat b div 16 < 16" "unat b mod 16 < 16" by auto
  moreover have "of_nat (16 * (unat b div 16) + unat b mod 16) = b"
    by (simp add: mult_div_mod_eq)
  ultimately show ?case using Cons by (simp add: hex_value_digit)
qed simp

lemma length_hex_encode [simp]: "length (hex_encode bs) = 2 * length bs"
  by (induction bs) auto

lemma hex_encode_inj [simp]: "hex_encode a = hex_encode b \<longleftrightarrow> a = b"
  by (metis hex_decode_encode option.inject)

lemma graphic_hex_digit: "n < 16 \<Longrightarrow> graphic (hex_digit n)"
  by (auto simp: graphic_def hex_digit_def of_char_of take_bit_nat_eq_self)

lemma hex_encode_graphic: "c \<in> set (hex_encode bs) \<Longrightarrow> graphic c"
proof (induction bs)
  case (Cons b bs)
  have "unat b < 256" by (rule unat_u8_less)
  then have "unat b div 16 < 16" "unat b mod 16 < 16" by auto
  then show ?case using Cons by (auto intro: graphic_hex_digit)
qed simp

lemma hex_encode_eq_Nil [simp]: "hex_encode bs = [] \<longleftrightarrow> bs = []"
  by (cases bs) auto

lemma TrimSpace_hex_encode [simp]: "TrimSpace (hex_encode bs) = hex_encode bs"
proof (cases "bs = []")
  case False
  then show ?thesis
    by (intro TrimSpace_graphic hex_encode_graphic [of _ bs]) simp_all
qed simp

lemma hex_encode_Nil [simp]: "hex_encode b = [] \<longleftrightarrow> b = []" "[] = hex_encode b \<longleftrightarrow> b = []"
  using length_hex_encode [of b] by (cases "hex_encode b"; auto)+

lemma hex_value_graphic: "hex_value c = Some n \<Longrightarrow> graphic c"
  by (auto simp: hex_value_def graphic_def Let_def split: if_splits)

lemma hex_decode_graphic: "hex_decode s = Some b \<Longrightarrow> c \<in> set s \<Longrightarrow> graphic c"
  by (induction s arbitrary: b rule: hex_decode.induct)
     (auto dest: hex_value_graphic split: option.splits)

lemma length_hex_decode: "hex_decode s = Some b \<Longrightarrow> length s = 2 * length b"
  by (induction s arbitrary: b rule: hex_decode.induct) (auto split: option.splits)

lemma TrimSpace_hex_decode: "hex_decode s = Some b \<Longrightarrow> TrimSpace s = s"
  by (cases "s = []") (auto intro!: TrimSpace_graphic intro: hex_decode_graphic [of s b])

lemma hex_encode_append: "hex_encode (a @ b) = hex_encode a @ hex_encode b"
  by (induction a) simp_all

end
