(* ===== verification/GoNetip.thy ===== *)
theory GoNetip
  imports GoStrings
begin

text \<open>
  The \<open>net/netip\<close> package as the code uses it: addresses, prefixes, \<open>Masked\<close>, \<open>Contains\<close>
  and \<open>Overlaps\<close>. An IPv4 address is a 32-bit word, an IPv6 address a 128-bit word and a zone.
\<close>

section \<open>Addresses\<close>

datatype addr = NoAddr | Addr4 u32 | Addr6 "128 word" string

fun addr_IsValid :: "addr \<Rightarrow> bool" where
  "addr_IsValid NoAddr = False"
| "addr_IsValid _ = True"

fun addr_Is4 :: "addr \<Rightarrow> bool" where
  "addr_Is4 (Addr4 _) = True"
| "addr_Is4 _ = False"

fun addr_BitLen :: "addr \<Rightarrow> int" where
  "addr_BitLen NoAddr = 0"
| "addr_BitLen (Addr4 _) = 32"
| "addr_BitLen (Addr6 _ _) = 128"

fun addr_hasZone :: "addr \<Rightarrow> bool" where
  "addr_hasZone (Addr6 _ z) = (z \<noteq> [])"
| "addr_hasZone _ = False"

fun addr_withoutZone :: "addr \<Rightarrow> addr" where
  "addr_withoutZone (Addr6 w _) = Addr6 w []"
| "addr_withoutZone a = a"

text \<open>\<open>AddrFrom4\<close> and \<open>As4\<close>; \<open>As4\<close> panics on an address that is not IPv4 (an IPv4-mapped
  IPv6 address gives its last four bytes).\<close>

definition AddrFrom4 :: "u8 \<Rightarrow> u8 \<Rightarrow> u8 \<Rightarrow> u8 \<Rightarrow> addr" where
  "AddrFrom4 a b c d = Addr4 (be32 a b c d)"

fun addr_As4 :: "addr \<Rightarrow> ('e, u8 \<times> u8 \<times> u8 \<times> u8) result" where
  "addr_As4 (Addr4 v) =
     Ok (ucast (drop_bit 24 v), ucast (drop_bit 16 v), ucast (drop_bit 8 v), ucast v)"
| "addr_As4 (Addr6 w _) =
     (if drop_bit 32 w = 0xFFFF
      then Ok (ucast (drop_bit 24 w), ucast (drop_bit 16 w), ucast (drop_bit 8 w), ucast w)
      else Panic)"
| "addr_As4 NoAddr = Panic"

lemma addr_Is4_iff: "addr_Is4 a \<longleftrightarrow> (\<exists>v. a = Addr4 v)"
  by (cases a) auto

section \<open>Prefixes\<close>

text \<open>\<open>Bits()\<close> is \<open>-1\<close> for an invalid prefix, the zero \<open>Prefix\<close> included.\<close>

datatype ip_prefix = Prefix (prefix_Addr: addr) (prefix_Bits: int)

definition prefix_IsValid :: "ip_prefix \<Rightarrow> bool" where
  "prefix_IsValid p \<longleftrightarrow> 0 \<le> prefix_Bits p"

definition PrefixFrom :: "addr \<Rightarrow> int \<Rightarrow> ip_prefix" where
  "PrefixFrom ip b =
     Prefix (addr_withoutZone ip)
       (if addr_IsValid ip \<and> 0 \<le> b \<and> b \<le> addr_BitLen ip then b else -1)"

text \<open>The host bits below a prefix of \<open>b\<close> bits in a word of the address's length.\<close>

definition host_mask :: "int \<Rightarrow> 'a::len word" where
  "host_mask b = mask (LENGTH('a) - nat b)"

text \<open>\<open>Addr.Prefix(b)\<close>: \<open>None\<close> is its error.\<close>

fun addr_Prefix :: "addr \<Rightarrow> int \<Rightarrow> ip_prefix option" where
  "addr_Prefix NoAddr b = (if b < 0 then None else Some (Prefix NoAddr (-1)))"
| "addr_Prefix (Addr4 v) b =
     (if b < 0 \<or> 32 < b then None else Some (PrefixFrom (Addr4 (v AND NOT (host_mask b))) b))"
| "addr_Prefix (Addr6 w z) b =
     (if b < 0 \<or> 128 < b then None else Some (PrefixFrom (Addr6 (w AND NOT (host_mask b)) []) b))"

definition prefix_Masked :: "ip_prefix \<Rightarrow> ip_prefix" where
  "prefix_Masked p =
     (case addr_Prefix (prefix_Addr p) (prefix_Bits p) of
        None \<Rightarrow> Prefix NoAddr (-1) | Some m \<Rightarrow> m)"

definition prefix_Contains :: "ip_prefix \<Rightarrow> addr \<Rightarrow> bool" where
  "prefix_Contains p ip \<longleftrightarrow>
     (if \<not> prefix_IsValid p \<or> addr_hasZone ip then False
      else case (prefix_Addr p, ip) of
        (Addr4 v, Addr4 w) \<Rightarrow> drop_bit (32 - nat (prefix_Bits p)) (w XOR v) = 0
      | (Addr6 v _, Addr6 w _) \<Rightarrow> (w XOR v) AND NOT (host_mask (prefix_Bits p)) = 0
      | _ \<Rightarrow> False)"

definition prefix_Overlaps :: "ip_prefix \<Rightarrow> ip_prefix \<Rightarrow> bool" where
  "prefix_Overlaps p q \<longleftrightarrow>
     (if \<not> prefix_IsValid p \<or> \<not> prefix_IsValid q then False
      else if p = q then True
      else if addr_Is4 (prefix_Addr p) \<noteq> addr_Is4 (prefix_Addr q) then False
      else let minBits = (if prefix_Bits p < prefix_Bits q then prefix_Bits p else prefix_Bits q)
      in if minBits = 0 then True
      else case (addr_Prefix (prefix_Addr p) minBits, addr_Prefix (prefix_Addr q) minBits) of
        (Some p', Some q') \<Rightarrow> prefix_Addr p' = prefix_Addr q'
      | _ \<Rightarrow> False)"

text \<open>A valid IPv4 prefix as \<open>netip\<close> builds it, and the set of addresses it covers.\<close>

definition prefix4 :: "ip_prefix \<Rightarrow> bool" where
  "prefix4 p \<longleftrightarrow> addr_Is4 (prefix_Addr p) \<and> 0 \<le> prefix_Bits p \<and> prefix_Bits p \<le> 32"

definition prefix_set :: "ip_prefix \<Rightarrow> u32 set" where
  "prefix_set p = {w. prefix_Contains p (Addr4 w)}"

lemma prefix4_cases:
  assumes "prefix4 p"
  obtains v n where "p = Prefix (Addr4 v) (int n)" "n \<le> 32"
proof -
  obtain a b where "p = Prefix a b" by (cases p)
  with assms that [of _ "nat b"] show thesis
    by (auto simp: prefix4_def addr_Is4_iff)
qed

lemma prefix_Masked4:
  "n \<le> 32 \<Longrightarrow> prefix_Masked (Prefix (Addr4 v) (int n)) =
     Prefix (Addr4 (v AND NOT (mask (32 - n)))) (int n)"
  by (simp add: prefix_Masked_def PrefixFrom_def host_mask_def)

lemma prefix4_Masked [simp]: "prefix4 p \<Longrightarrow> prefix4 (prefix_Masked p)"
  by (erule prefix4_cases) (simp add: prefix_Masked4 prefix4_def)

lemma prefix_Bits_Masked [simp]: "prefix4 p \<Longrightarrow> prefix_Bits (prefix_Masked p) = prefix_Bits p"
  by (erule prefix4_cases) (simp add: prefix_Masked4)

lemma prefix_Masked_idem [simp]: "prefix4 p \<Longrightarrow> prefix_Masked (prefix_Masked p) = prefix_Masked p"
  by (erule prefix4_cases) (simp add: prefix_Masked4 and.assoc)

lemma xor_eq_0_word: "a XOR b = 0 \<longleftrightarrow> a = b" for a b :: "'a::len word"
  by (auto simp: bit_eq_iff bit_simps)

lemma unat_drop_bit: "unat (drop_bit k w) = unat w div 2 ^ k"
proof -
  have "unat (drop_bit k w) = drop_bit k (unat w)"
    using unsigned_less [of w] by (simp add: unsigned_drop_bit_eq take_bit_nat_eq_self)
  then show ?thesis by (simp only: drop_bit_eq_div)
qed

lemma prefix_Contains4:
  "n \<le> 32 \<Longrightarrow> prefix_Contains (Prefix (Addr4 v) (int n)) (Addr4 w) \<longleftrightarrow>
     unat w div 2 ^ (32 - n) = unat v div 2 ^ (32 - n)"
  by (simp add: prefix_Contains_def prefix_IsValid_def drop_bit_xor xor_eq_0_word
      flip: unat_drop_bit word_unat_eq_iff)

text \<open>Masking clears the host bits; a masked IPv4 prefix covers the addresses from its base
  on, as many as its capacity.\<close>

lemma unat_and_not_mask: "unat (v AND NOT (mask k)) = unat v div 2 ^ k * 2 ^ k" for v :: u32
proof -
  have "v AND NOT (mask k) = push_bit k (drop_bit k v)"
    by (rule bit_word_eqI) (auto simp: bit_simps)
  then have "unat (v AND NOT (mask k)) = take_bit 32 (push_bit k (unat v div 2 ^ k))"
    by (simp only: unsigned_push_bit_eq unat_drop_bit len_of_numeral_defs) simp
  then have "unat (v AND NOT (mask k)) = take_bit 32 (unat v div 2 ^ k * 2 ^ k)"
    by (simp only: push_bit_eq_mult)
  moreover have "unat v div 2 ^ k * 2 ^ k < 2 ^ 32"
  proof (rule le_less_trans)
    show "unat v div 2 ^ k * 2 ^ k \<le> unat v" by simp
    show "unat v < 2 ^ 32" using unsigned_less [of v] by simp
  qed
  ultimately show ?thesis by (simp add: take_bit_nat_eq_self)
qed

definition capacity :: "ip_prefix \<Rightarrow> nat" where
  "capacity p = 2 ^ (32 - nat (prefix_Bits p))"

lemma prefix_set_Masked:
  assumes "n \<le> 32"
  shows "prefix_set (prefix_Masked (Prefix (Addr4 v) (int n))) = prefix_set (Prefix (Addr4 v) (int n))"
  using assms by (auto simp: prefix_set_def prefix_Masked4 prefix_Contains4 unat_and_not_mask)

lemma prefix_set_base:
  assumes "n \<le> 32" "unat v mod 2 ^ (32 - n) = 0"
  shows "w \<in> prefix_set (Prefix (Addr4 v) (int n)) \<longleftrightarrow>
    unat v \<le> unat w \<and> unat w < unat v + 2 ^ (32 - n)"
proof -
  have "unat w div 2 ^ k = unat v div 2 ^ k \<longleftrightarrow> unat v \<le> unat w \<and> unat w < unat v + 2 ^ k"
    if "unat v mod 2 ^ k = 0" for k
  proof -
    from that obtain m where m: "unat v = m * 2 ^ k" by (metis dvd_def mod_0_imp_dvd mult.commute)
    have "unat w div 2 ^ k = m \<longleftrightarrow> m * 2 ^ k \<le> unat w \<and> unat w < m * 2 ^ k + 2 ^ k"
      by (metis add.commute div_nat_eqI dividend_less_div_times le_add1 m mult.commute mult_Suc nat_less_le times_div_less_eq_dividend zero_less_numeral zero_less_power)
    then show ?thesis using m by simp
  qed
  with assms show ?thesis by (simp add: prefix_set_def prefix_Contains4)
qed

end
