(* ===== verification/Interfaces.thy ===== *)
theory Interfaces
  imports GoNetip
begin

text \<open>
  The contracts between components. Each locale lists the operations a client calls and the
  laws their provider promises; the provider's theory interprets it on the model of the code.
\<close>

section \<open>A pool of addresses leased to nodes\<close>

text \<open>
  What \<open>mesh.Registry\<close> needs of its allocator: \<open>lease\<close> says which node holds which address,
  \<open>pool\<close> which addresses may be leased.
\<close>

locale address_pool =
  fixes pool_inv :: "'s \<Rightarrow> bool"
    and lease :: "'s \<Rightarrow> string \<rightharpoonup> addr"
    and pool :: "'s \<Rightarrow> addr set"
    and acquire :: "'s \<Rightarrow> string \<Rightarrow> ('e, addr) result \<times> 's"
    and release :: "'s \<Rightarrow> string \<Rightarrow> addr option \<times> 's"
    and exhausted :: 'e
  assumes finite_pool: "pool_inv s \<Longrightarrow> finite (pool s)"
    and lease_in_pool: "pool_inv s \<Longrightarrow> lease s n = Some ip \<Longrightarrow> ip \<in> pool s"
    and lease_inj: "pool_inv s \<Longrightarrow> lease s n = Some ip \<Longrightarrow> lease s m = Some ip \<Longrightarrow> n = m"
    and acquire_Ok: "pool_inv s \<Longrightarrow> acquire s n = (Ok ip, t) \<Longrightarrow>
      pool_inv t \<and> pool t = pool s \<and> lease t = (lease s)(n \<mapsto> ip) \<and>
      (lease s n = Some ip \<or> lease s n = None \<and> ip \<notin> ran (lease s))"
    and acquire_Fail: "pool_inv s \<Longrightarrow> acquire s n = (Fail e, t) \<Longrightarrow>
      t = s \<and> e = exhausted \<and> lease s n = None \<and> pool s = ran (lease s)"
    and acquire_no_Panic: "pool_inv s \<Longrightarrow> fst (acquire s n) \<noteq> Panic"
    and release_law: "pool_inv s \<Longrightarrow> release s n = (r, t) \<Longrightarrow>
      pool_inv t \<and> pool t = pool s \<and> lease t = (lease s)(n := None) \<and> r = lease s n"
begin

lemma ran_lease_subset: "pool_inv s \<Longrightarrow> ran (lease s) \<subseteq> pool s"
  by (auto simp: ran_def dest: lease_in_pool)

lemma finite_leases: "pool_inv s \<Longrightarrow> finite (dom (lease s))"
proof -
  assume inv: "pool_inv s"
  have "inj_on (lease s) (dom (lease s))"
    by (rule inj_onI) (auto dest: lease_inj [OF inv])
  moreover have "lease s ` dom (lease s) \<subseteq> Some ` pool s"
    using lease_in_pool [OF inv] by auto
  ultimately show ?thesis
    by (metis finite_imageI finite_pool [OF inv] inj_on_finite)
qed

lemma leases_bounded: "pool_inv s \<Longrightarrow> card (dom (lease s)) \<le> card (pool s)"
proof -
  assume inv: "pool_inv s"
  have "inj_on (\<lambda>n. the (lease s n)) (dom (lease s))"
    by (rule inj_onI) (auto dest: lease_inj [OF inv])
  moreover have "(\<lambda>n. the (lease s n)) ` dom (lease s) \<subseteq> pool s"
    using lease_in_pool [OF inv] by auto
  ultimately show ?thesis
    by (rule card_inj_on_le) (rule finite_pool [OF inv])
qed

lemma acquire_again:
  assumes "pool_inv s" "lease s n = Some ip"
  shows "acquire s n = (Ok ip, snd (acquire s n))"
proof (cases "acquire s n")
  case (Pair r t)
  then show ?thesis
    using assms acquire_Ok [of s n _ t] acquire_Fail [of s n _ t] acquire_no_Panic [of s n]
    by (cases r) (auto simp: ran_def)
qed

lemma acquire_succeeds:
  assumes inv: "pool_inv s" and free: "\<not> pool s \<subseteq> ran (lease s)"
  obtains ip t where "acquire s n = (Ok ip, t)"
proof (cases "acquire s n")
  case (Pair r t)
  then show thesis
    using acquire_Fail [OF inv, of n _ t] acquire_no_Panic [OF inv, of n] free that
    by (cases r) auto
qed

text \<open>An address given back can be leased again, whoever asks.\<close>

lemma release_acquire:
  assumes inv: "pool_inv s" and held: "lease s n = Some ip" and rel: "release s n = (r, t)"
  obtains ip' u where "acquire t m = (Ok ip', u)"
proof -
  from release_law [OF inv rel] have t: "pool_inv t" "pool t = pool s" "lease t = (lease s)(n := None)"
    by auto
  have "ip \<notin> ran (lease t)"
    using lease_inj [OF inv held] t(3) by (auto simp: ran_def)
  moreover have "ip \<in> pool t" using lease_in_pool [OF inv held] t(2) by simp
  ultimately have "\<not> pool t \<subseteq> ran (lease t)" by blast
  then show thesis by (rule acquire_succeeds [OF t(1)]) (rule that)
qed

end


section \<open>A store whose entries expire\<close>

text \<open>
  The probe tickets of the coordinator and the replay cache of a client drop their expired
  entries at the start of every operation: \<open>sweep now\<close> keeps what expires after \<open>now\<close>.
\<close>

locale expiring_store =
  fixes entries :: "'s \<Rightarrow> 'k \<rightharpoonup> 'v"
    and expires :: "'v \<Rightarrow> time"
    and sweep :: "time \<Rightarrow> 's \<Rightarrow> 's"
  assumes sweep_entries: "entries (sweep now s) = delete_where (\<lambda>v. \<not> now < expires v) (entries s)"
begin

lemma sweep_live: "entries (sweep now s) k = Some v \<longleftrightarrow> entries s k = Some v \<and> now < expires v"
  by (simp add: sweep_entries)

lemma sweep_later: "entries (sweep now (sweep earlier s)) k = Some v \<longleftrightarrow>
    entries s k = Some v \<and> max now earlier < expires v"
  by (auto simp: sweep_live)

text \<open>However often the store was swept before an entry's expiry, the entry is still there.\<close>

lemma sweeps_keep:
  "entries s k = Some v \<Longrightarrow> (\<And>t. t \<in> set ts \<Longrightarrow> t < expires v) \<Longrightarrow>
     entries (foldl (\<lambda>s t. sweep t s) s ts) k = Some v"
  by (induction ts arbitrary: s) (auto simp: sweep_live)

lemma sweeps_only_delete:
  "entries (foldl (\<lambda>s t. sweep t s) s ts) k = Some v \<Longrightarrow> entries s k = Some v"
proof (induction ts arbitrary: s)
  case (Cons t ts)
  then have "entries (sweep t s) k = Some v" by simp
  then show ?case by (simp add: sweep_live)
qed simp

end

section \<open>Authenticated encryption\<close>

text \<open>
  What a \<open>cipher.AEAD\<close> with a 16-byte tag promises by its computation alone: what was sealed
  opens, and what opens is exactly what sealing the result gives.
\<close>

locale aead =
  fixes seal :: "bytes \<Rightarrow> bytes \<Rightarrow> bytes \<Rightarrow> bytes \<Rightarrow> bytes"
    and unseal :: "bytes \<Rightarrow> bytes \<Rightarrow> bytes \<Rightarrow> bytes \<Rightarrow> bytes option"
  assumes unseal_seal: "unseal key nonce (seal key nonce p aad) aad = Some p"
    and seal_unseal: "unseal key nonce c aad = Some p \<Longrightarrow> c = seal key nonce p aad"
    and length_seal: "length (seal key nonce p aad) = length p + 16"
begin

lemma unseal_iff: "unseal key nonce c aad = Some p \<longleftrightarrow> c = seal key nonce p aad"
  using unseal_seal seal_unseal by auto

lemma seal_inj: "seal key nonce p aad = seal key nonce q aad \<longleftrightarrow> p = q"
  by (metis option.inject unseal_seal)

lemma unseal_length: "unseal key nonce c aad = Some p \<Longrightarrow> length c = length p + 16"
  by (simp add: unseal_iff length_seal)

end

end
