(* ===== verification/MeshAllocator.thy ===== *)
theory MeshAllocator
  imports Interfaces
begin

text \<open>
  The virtual IPv4 allocator, \<open>internal/mesh/allocator.go\<close>: its state, \<open>Allocate\<close> with its
  two scans, \<open>Release\<close>, the invariant they keep and the contract of an address pool.
\<close>

section \<open>State and operations\<close>

datatype mesh_error =
    ErrPoolExhausted
  | ErrInvalidNodeID
  | ErrAllocatorPrefix \<comment> \<open>allocator requires a valid IPv4 prefix\<close>
  | ErrPrefixTooSmall \<comment> \<open>prefix is too small for peer allocation\<close>
  | ErrRandRead \<comment> \<open>the system's random source failed\<close>

record allocator =
  al_prefix :: ip_prefix
  al_next :: u32
  al_byNode :: "string \<rightharpoonup> addr"
  al_used :: "addr \<rightharpoonup> string"

definition NewAllocator :: "ip_prefix \<Rightarrow> (mesh_error, allocator) result" where
  "NewAllocator prefix =
     (if \<not> prefix_IsValid prefix \<or> \<not> addr_Is4 (prefix_Addr prefix) then Fail ErrAllocatorPrefix
      else if prefix_Bits prefix > 30 then Fail ErrPrefixTooSmall
      else Ok \<lparr>al_prefix = prefix_Masked prefix, al_next = 2,
               al_byNode = Map.empty, al_used = Map.empty\<rparr>)"

type_synonym base4 = "u8 \<times> u8 \<times> u8 \<times> u8"

fun addIPv4 :: "base4 \<Rightarrow> u32 \<Rightarrow> addr" where
  "addIPv4 (b0, b1, b2, b3) offset =
     (let v = be32 b0 b1 b2 b3 + offset
      in AddrFrom4 (ucast (drop_bit 24 v)) (ucast (drop_bit 16 v)) (ucast (drop_bit 8 v)) (ucast v))"

text \<open>The first loop of \<open>Allocate\<close>, from the cursor up; its result is the offset of the first
  free address.\<close>

function scan_up :: "(addr \<rightharpoonup> string) \<Rightarrow> base4 \<Rightarrow> u32 \<Rightarrow> u32 \<Rightarrow> u32 option" where
  "scan_up used base limit offset =
     (if offset < limit
      then (case used (addIPv4 base offset) of
              Some _ \<Rightarrow> scan_up used base limit (offset + 1)
            | None \<Rightarrow> Some offset)
      else None)"
  by pat_completeness auto
termination
  by (relation "measure (\<lambda>(_, _, limit, offset). unat limit - unat offset)")
     (auto simp: unat_Suc_below word_less_nat_alt [symmetric] intro!: diff_less_mono2)

text \<open>The second loop, over the addresses below the cursor.\<close>

function scan_reuse :: "(addr \<rightharpoonup> string) \<Rightarrow> base4 \<Rightarrow> u32 \<Rightarrow> u32 \<Rightarrow> u32 \<Rightarrow> u32 option" where
  "scan_reuse used base next limit offset =
     (if offset < next \<and> offset < limit
      then (case used (addIPv4 base offset) of
              Some _ \<Rightarrow> scan_reuse used base next limit (offset + 1)
            | None \<Rightarrow> Some offset)
      else None)"
  by pat_completeness auto
termination
  by (relation "measure (\<lambda>(_, _, _, limit, offset). unat limit - unat offset)")
     (auto simp: unat_Suc_below word_less_nat_alt [symmetric] intro!: diff_less_mono2)

declare scan_up.simps [simp del] scan_reuse.simps [simp del]

definition Allocate :: "allocator \<Rightarrow> string \<Rightarrow> (mesh_error, addr) result \<times> allocator" where
  "Allocate a nodeID =
     (case al_byNode a nodeID of
        Some ip \<Rightarrow> (Ok ip, a)
      | None \<Rightarrow>
        (case addr_As4 (prefix_Addr (al_prefix a)) of
           Fail e \<Rightarrow> (Fail e, a)
         | Panic \<Rightarrow> (Panic, a)
         | Ok base \<Rightarrow>
           (let hostBits = 32 - prefix_Bits (al_prefix a);
                capacity = push_bit (nat hostBits) (1 :: u32)
            in case scan_up (al_used a) base (capacity - 1) (al_next a) of
                 Some offset \<Rightarrow>
                   (let candidate = addIPv4 base offset
                    in (Ok candidate,
                        a\<lparr>al_byNode := (al_byNode a)(nodeID \<mapsto> candidate),
                          al_used := (al_used a)(candidate \<mapsto> nodeID),
                          al_next := offset + 1\<rparr>))
               | None \<Rightarrow>
                 (case scan_reuse (al_used a) base (al_next a) (capacity - 1) 2 of
                    Some offset \<Rightarrow>
                      (let candidate = addIPv4 base offset
                       in (Ok candidate,
                           a\<lparr>al_byNode := (al_byNode a)(nodeID \<mapsto> candidate),
                             al_used := (al_used a)(candidate \<mapsto> nodeID)\<rparr>))
                  | None \<Rightarrow> (Fail ErrPoolExhausted, a)))))"

definition Release :: "allocator \<Rightarrow> string \<Rightarrow> addr option \<times> allocator" where
  "Release a nodeID =
     (case al_byNode a nodeID of
        None \<Rightarrow> (None, a)
      | Some ip \<Rightarrow>
        (Some ip, a\<lparr>al_byNode := (al_byNode a)(nodeID := None), al_used := (al_used a)(ip := None)\<rparr>))"

section \<open>The scans find the first free offset\<close>

lemma addIPv4_As4: "addr_As4 (Addr4 v) = Ok b \<Longrightarrow> addIPv4 b off = Addr4 (v + off)"
  by (auto simp: AddrFrom4_def be32_put Let_def)

lemma scan_up_Some:
  "scan_up used base limit off = Some k \<Longrightarrow> off \<le> k \<and> k < limit \<and> used (addIPv4 base k) = None"
proof (induction used base limit off rule: scan_up.induct)
  case (1 used base limit off)
  show ?case
  proof (cases "off < limit \<and> used (addIPv4 base off) \<noteq> None")
    case True
    then have "scan_up used base limit (off + 1) = Some k"
      using 1(2) by (subst (asm) scan_up.simps) auto
    with True 1(1) have "off + 1 \<le> k \<and> k < limit \<and> used (addIPv4 base k) = None" by auto
    then show ?thesis
      using True unat_Suc_below [of off limit] by (auto simp: word_le_nat_alt)
  next
    case False
    then show ?thesis
      using 1(2) by (subst (asm) scan_up.simps) (auto split: if_splits option.splits)
  qed
qed

lemma scan_up_None:
  "scan_up used base limit off = None \<Longrightarrow> off \<le> k \<Longrightarrow> k < limit \<Longrightarrow> used (addIPv4 base k) \<noteq> None"
proof (induction used base limit off rule: scan_up.induct)
  case (1 used base limit off)
  then have lt: "off < limit" by simp
  then have used: "used (addIPv4 base off) \<noteq> None"
    using 1(2) by (subst (asm) scan_up.simps) (auto split: option.splits)
  then have "scan_up used base limit (off + 1) = None"
    using 1(2) lt by (subst (asm) scan_up.simps) auto
  moreover have "off = k \<or> off + 1 \<le> k"
    using 1(3) unat_Suc_below [OF lt] by (auto simp: word_le_nat_alt le_less word_unat_eq_iff)
  ultimately show ?case using 1(1,4) lt used by auto
qed

lemma scan_reuse_eq: "scan_reuse used base next limit off = scan_up used base (min next limit) off"
proof (induction used base "next" limit off rule: scan_reuse.induct)
  case (1 used base "next" limit off)
  then show ?case
    by (subst scan_reuse.simps, subst scan_up.simps) (auto split: option.splits)
qed

section \<open>Invariant\<close>

text \<open>
  The addresses that may be leased: all of the prefix but the network address, the gateway
  (offset 1) and the broadcast address.
\<close>

definition host_pool :: "ip_prefix \<Rightarrow> addr set" where
  "host_pool p = {Addr4 w | w. \<exists>v. prefix_Addr p = Addr4 v \<and>
     unat v + 2 \<le> unat w \<and> unat w < unat v + (capacity p - 1)}"

definition alloc_inv :: "allocator \<Rightarrow> bool" where
  "alloc_inv a \<longleftrightarrow>
     (\<exists>v n. al_prefix a = Prefix (Addr4 v) (int n) \<and> n \<le> 30 \<and> unat v mod 2 ^ (32 - n) = 0) \<and>
     2 \<le> unat (al_next a) \<and> unat (al_next a) \<le> capacity (al_prefix a) - 1 \<and>
     (\<forall>n ip. al_byNode a n = Some ip \<longleftrightarrow> al_used a ip = Some n) \<and>
     ran (al_byNode a) \<subseteq> host_pool (al_prefix a)"

text \<open>\<open>uint32(1) << hostBits\<close> is \<open>0\<close> for the prefix length 0, and its predecessor wraps
  around to the last address: the limit of the scans is right for every prefix length.\<close>

lemma scan_limit: "n \<le> 32 \<Longrightarrow> unat (push_bit (nat (32 - int n)) 1 - 1 :: u32) = 2 ^ (32 - n) - 1"
proof -
  assume "n \<le> 32"
  have "push_bit k 1 - 1 = (mask k :: u32)" for k
    by (simp add: mask_eq_decr_exp push_bit_eq_mult)
  moreover have "unat (mask k :: u32) = 2 ^ min k 32 - 1" for k
  proof -
    have "unat (mask k :: u32) = unat (take_bit k (- 1 :: u32))" by simp
    also have "\<dots> = take_bit k (mask 32)"
      by (simp only: unsigned_take_bit_eq unsigned_minus_1_eq_mask) simp
    finally show ?thesis by (simp add: take_bit_of_mask) (simp add: mask_eq_exp_minus_1)
  qed
  ultimately show ?thesis using \<open>n \<le> 32\<close> by (simp add: nat_diff_distrib min_absorb1)
qed

text \<open>A masked prefix leaves room for every offset below its capacity.\<close>

lemma base_offset:
  fixes v off :: u32
  assumes "unat v mod 2 ^ k = 0" "k \<le> 32" "unat off < 2 ^ k"
  shows "unat (v + off) = unat v + unat off"
proof -
  obtain m where m: "unat v = m * 2 ^ k"
    using assms(1) by (metis dvd_def mod_0_imp_dvd mult.commute)
  have "unat v < 2 ^ (32 - k) * 2 ^ k"
    using assms(2) unsigned_less [of v] by (simp flip: power_add)
  then have "m < 2 ^ (32 - k)" using m by simp
  then have "(m + 1) * 2 ^ k \<le> 2 ^ (32 - k) * 2 ^ k" by (intro mult_le_mono1) simp
  also have "\<dots> = 2 ^ 32" using assms(2) by (simp flip: power_add)
  finally have "unat v + unat off < 2 ^ 32" using m assms(3) by simp
  then show ?thesis by (simp add: unat_word_ariths)
qed

lemma host_pool_offset:
  assumes "al_prefix a = Prefix (Addr4 v) (int n)" "n \<le> 30" "unat v mod 2 ^ (32 - n) = 0"
  shows "ip \<in> host_pool (al_prefix a) \<longleftrightarrow>
    (\<exists>k. 2 \<le> k \<and> unat k < 2 ^ (32 - n) - 1 \<and> ip = Addr4 (v + k))"
proof
  assume "ip \<in> host_pool (al_prefix a)"
  then obtain w where w: "ip = Addr4 w" "unat v + 2 \<le> unat w" "unat w < unat v + (2 ^ (32 - n) - 1)"
    using assms(1,2) by (auto simp: host_pool_def capacity_def)
  then have "unat (w - v) = unat w - unat v" by (simp add: unat_sub_if')
  with w show "\<exists>k. 2 \<le> k \<and> unat k < 2 ^ (32 - n) - 1 \<and> ip = Addr4 (v + k)"
    by (intro exI [of _ "w - v"]) (auto simp: word_le_nat_alt)
next
  assume "\<exists>k. 2 \<le> k \<and> unat k < 2 ^ (32 - n) - 1 \<and> ip = Addr4 (v + k)"
  then obtain k where k: "2 \<le> k" "unat k < 2 ^ (32 - n) - 1" "ip = Addr4 (v + k)" by auto
  have "unat (v + k) = unat v + unat k"
    using assms k(2) by (intro base_offset) auto
  with k assms show "ip \<in> host_pool (al_prefix a)"
    by (auto simp: host_pool_def capacity_def word_le_nat_alt)
qed

lemma alloc_inv_next:
  "alloc_inv a \<Longrightarrow> 2 \<le> unat m \<Longrightarrow> unat m \<le> capacity (al_prefix a) - 1 \<Longrightarrow>
     alloc_inv (a\<lparr>al_next := m\<rparr>)"
  by (simp add: alloc_inv_def)

lemma alloc_inv_assign:
  assumes "alloc_inv a" "al_byNode a n = None" "al_used a ip = None" "ip \<in> host_pool (al_prefix a)"
  shows "alloc_inv (a\<lparr>al_byNode := (al_byNode a)(n \<mapsto> ip), al_used := (al_used a)(ip \<mapsto> n)\<rparr>)"
proof -
  have eq: "al_byNode a m = Some i \<longleftrightarrow> al_used a i = Some m" for m i
    using assms(1) by (simp add: alloc_inv_def)
  have "ran ((al_byNode a)(n \<mapsto> ip)) \<subseteq> host_pool (al_prefix a)"
    using assms by (auto simp: alloc_inv_def ran_def split: if_splits)
  moreover have "((al_byNode a)(n \<mapsto> ip)) m = Some i \<longleftrightarrow> ((al_used a)(ip \<mapsto> n)) i = Some m" for m i
    using assms(2,3) eq [of m i] eq [of n i] eq [of m ip] by auto
  ultimately show ?thesis using assms(1) unfolding alloc_inv_def by simp
qed

text \<open>Every branch of \<open>Allocate\<close>, for an allocator in its invariant.\<close>

lemma Allocate_known: "al_byNode a n = Some ip \<Longrightarrow> Allocate a n = (Ok ip, a)"
  by (simp add: Allocate_def)

lemma Allocate_new:
  assumes inv: "alloc_inv a" and new: "al_byNode a n = None"
    and alloc: "Allocate a n = (r, a')"
  shows "(\<exists>ip. r = Ok ip \<and> ip \<in> host_pool (al_prefix a) \<and> al_used a ip = None \<and>
            al_byNode a' = (al_byNode a)(n \<mapsto> ip) \<and> al_used a' = (al_used a)(ip \<mapsto> n) \<and>
            al_prefix a' = al_prefix a \<and> alloc_inv a')
       \<or> (r = Fail ErrPoolExhausted \<and> a' = a \<and> host_pool (al_prefix a) \<subseteq> dom (al_used a))"
proof -
  obtain v m where p: "al_prefix a = Prefix (Addr4 v) (int m)" "m \<le> 30" "unat v mod 2 ^ (32 - m) = 0"
    using inv by (auto simp: alloc_inv_def)
  have nxt: "2 \<le> unat (al_next a)" "unat (al_next a) \<le> 2 ^ (32 - m) - 1"
    using inv p by (auto simp: alloc_inv_def capacity_def)
  obtain base where base: "addr_As4 (Addr4 v) = (Ok base :: (mesh_error, base4) result)" by simp
  define lim where "lim = (push_bit (nat (32 - int m)) 1 - 1 :: u32)"
  have lim: "unat lim = 2 ^ (32 - m) - 1" unfolding lim_def using p(2) by (intro scan_limit) simp
  have add: "addIPv4 base k = Addr4 (v + k)" for k by (rule addIPv4_As4) (rule base)
  have pool: "ip \<in> host_pool (al_prefix a) \<longleftrightarrow> (\<exists>k. 2 \<le> k \<and> k < lim \<and> ip = Addr4 (v + k))" for ip
    unfolding host_pool_offset [OF p] word_less_nat_alt lim ..
  let ?put = "\<lambda>k. a\<lparr>al_byNode := (al_byNode a)(n \<mapsto> Addr4 (v + k)), al_used := (al_used a)(Addr4 (v + k) \<mapsto> n)\<rparr>"
  have unf: "Allocate a n =
      (case scan_up (al_used a) base lim (al_next a) of
         Some k \<Rightarrow> (Ok (Addr4 (v + k)), ?put k\<lparr>al_next := k + 1\<rparr>)
       | None \<Rightarrow> (case scan_up (al_used a) base (min (al_next a) lim) 2 of
           Some k \<Rightarrow> (Ok (Addr4 (v + k)), ?put k)
         | None \<Rightarrow> (Fail ErrPoolExhausted, a)))"
    using new p(1) base
    by (simp add: Allocate_def lim_def add scan_reuse_eq Let_def del: addr_As4.simps split: option.split)
  show ?thesis
  proof (cases "scan_up (al_used a) base lim (al_next a)")
    case (Some k)
    then have k: "al_next a \<le> k" "k < lim" "al_used a (Addr4 (v + k)) = None"
      using scan_up_Some add by fastforce+
    then have "2 \<le> k" using nxt(1) by (simp add: word_le_nat_alt)
    then have "Addr4 (v + k) \<in> host_pool (al_prefix a)" using k(2) pool by blast
    then have "Addr4 (v + k) \<in> host_pool (al_prefix a)" "alloc_inv (?put k)"
      by (simp_all add: alloc_inv_assign [OF inv new k(3)])
    moreover have "unat (k + 1) \<le> capacity (al_prefix a) - 1" "2 \<le> unat (k + 1)"
      using unat_Suc_below [OF k(2)] k(2) lim p \<open>2 \<le> k\<close>
      by (auto simp: word_less_nat_alt word_le_nat_alt capacity_def)
    ultimately show ?thesis
      using unf alloc k(3) by (auto simp: Some alloc_inv_next)
  next
    case None
    note none1 = None
    show ?thesis
    proof (cases "scan_up (al_used a) base (min (al_next a) lim) 2")
      case (Some k)
      then have k: "2 \<le> k" "k < lim" "al_used a (Addr4 (v + k)) = None"
        using scan_up_Some add by fastforce+
      then have "Addr4 (v + k) \<in> host_pool (al_prefix a)" using pool by blast
      with alloc_inv_assign [OF inv new k(3) this] show ?thesis
        using unf alloc k(3) by (auto simp: none1 Some)
    next
      case None
      have "al_used a (Addr4 (v + k)) \<noteq> None" if "2 \<le> k" "k < lim" for k
      proof (cases "al_next a \<le> k")
        case True
        then show ?thesis using scan_up_None [OF none1] that add by metis
      next
        case False
        then show ?thesis using scan_up_None [OF None] that add by (metis min_less_iff_conj not_le)
      qed
      then have "host_pool (al_prefix a) \<subseteq> dom (al_used a)" using pool by fastforce
      then show ?thesis using unf alloc by (auto simp: none1 None)
    qed
  qed
qed

lemma NewAllocator_inv:
  assumes "prefix4 p" "NewAllocator p = Ok a"
  shows "alloc_inv a" "al_byNode a = Map.empty" "al_prefix a = prefix_Masked p"
proof -
  obtain v n where p: "p = Prefix (Addr4 v) (int n)" "n \<le> 32" using assms(1) by (rule prefix4_cases)
  then have n: "n \<le> 30" using assms(2) by (auto simp: NewAllocator_def split: if_splits)
  then have "(2::nat) ^ 2 \<le> 2 ^ (32 - n)" by (intro power_increasing) auto
  moreover have "a = \<lparr>al_prefix = Prefix (Addr4 (v AND NOT (mask (32 - n)))) (int n),
      al_next = 2, al_byNode = Map.empty, al_used = Map.empty\<rparr>"
    using assms(2) p n by (simp add: NewAllocator_def prefix_Masked4 prefix_IsValid_def)
  ultimately show "alloc_inv a" "al_byNode a = Map.empty" "al_prefix a = prefix_Masked p"
    using p n by (auto simp: alloc_inv_def capacity_def prefix_Masked4 unat_and_not_mask)
qed

lemma NewAllocator_fails:
  "NewAllocator p \<noteq> Panic \<and>
   (NewAllocator p = Fail ErrAllocatorPrefix \<longleftrightarrow> \<not> prefix_IsValid p \<or> \<not> addr_Is4 (prefix_Addr p))"
  by (simp add: NewAllocator_def)

lemma Release_inv:
  assumes inv: "alloc_inv a"
  shows "alloc_inv (snd (Release a n))"
proof (cases "al_byNode a n")
  case None
  then show ?thesis using inv by (simp add: Release_def)
next
  case (Some ip)
  then have rel: "snd (Release a n) =
      a\<lparr>al_byNode := (al_byNode a)(n := None), al_used := (al_used a)(ip := None)\<rparr>"
    by (simp add: Release_def)
  have eq: "al_byNode a m = Some i \<longleftrightarrow> al_used a i = Some m" for m i
    using inv by (simp add: alloc_inv_def)
  have "((al_byNode a)(n := None)) m = Some i \<longleftrightarrow> ((al_used a)(ip := None)) i = Some m" for m i
    using Some eq [of m i] eq [of n i] eq [of m ip] by auto
  moreover have "ran ((al_byNode a)(n := None)) \<subseteq> host_pool (al_prefix a)"
    using inv by (auto simp: alloc_inv_def ran_def split: if_splits)
  ultimately show ?thesis
    using inv rel unfolding alloc_inv_def by simp
qed

lemma used_iff_ran: "alloc_inv a \<Longrightarrow> dom (al_used a) = ran (al_byNode a)"
  by (auto simp: alloc_inv_def ran_def)

lemma finite_host_pool: "finite (host_pool p)"
proof (rule finite_subset)
  show "host_pool p \<subseteq> Addr4 ` UNIV" by (auto simp: host_pool_def)
qed simp

section \<open>The allocator is an address pool\<close>

interpretation mesh_pool: address_pool alloc_inv al_byNode "\<lambda>a. host_pool (al_prefix a)"
  Allocate Release ErrPoolExhausted
proof (unfold_locales, goal_cases)
  case (1 s)
  show ?case by (rule finite_host_pool)
next
  case (2 s n ip)
  then show ?case by (auto simp: alloc_inv_def ran_def)
next
  case (3 s n ip m)
  then show ?case by (auto simp: alloc_inv_def)
next
  case (4 s n ip t)
  show ?case
  proof (cases "al_byNode s n")
    case None
    then show ?thesis
      using Allocate_new [OF 4(1) None 4(2)] used_iff_ran [OF 4(1)] by auto
  next
    case (Some i)
    then show ?thesis using 4 by (auto simp: Allocate_known)
  qed
next
  case (5 s n e t)
  then have None: "al_byNode s n = None" by (cases "al_byNode s n") (auto simp: Allocate_known)
  have "ran (al_byNode s) \<subseteq> host_pool (al_prefix s)" using 5(1) by (auto simp: alloc_inv_def)
  then show ?case
    using Allocate_new [OF 5(1) None 5(2)] used_iff_ran [OF 5(1)] None by auto
next
  case (6 s n)
  show ?case
  proof (cases "al_byNode s n")
    case None
    then show ?thesis using Allocate_new [OF 6 None surjective_pairing] by auto
  qed (simp add: Allocate_known)
next
  case (7 s n r t)
  then show ?case using Release_inv [of s n]
    by (auto simp: Release_def split: option.splits)
qed


section \<open>Runs of the allocator\<close>

datatype pool_op = OpAllocate string | OpRelease string

fun pool_step :: "allocator \<Rightarrow> pool_op \<Rightarrow> allocator" where
  "pool_step a (OpAllocate n) = snd (Allocate a n)"
| "pool_step a (OpRelease n) = snd (Release a n)"

abbreviation pool_run :: "allocator \<Rightarrow> pool_op list \<Rightarrow> allocator" where
  "pool_run \<equiv> foldl pool_step"

lemma Allocate_cases:
  assumes "alloc_inv a"
  obtains (lease) ip t where "Allocate a n = (Ok ip, t)" "alloc_inv t" "al_prefix t = al_prefix a"
      "al_byNode t = (al_byNode a)(n \<mapsto> ip)" "al_byNode a n = Some ip \<or> al_byNode a n = None \<and> ip \<notin> ran (al_byNode a)"
  | (full) "Allocate a n = (Fail ErrPoolExhausted, a)" "al_byNode a n = None"
      "host_pool (al_prefix a) = ran (al_byNode a)"
proof (cases "al_byNode a n")
  case None
  obtain r t where alloc: "Allocate a n = (r, t)" by (cases "Allocate a n")
  from Allocate_new [OF assms None alloc] show thesis
    using None alloc mesh_pool.acquire_Ok [OF assms, of n _ t] mesh_pool.acquire_Fail [OF assms, of n _ t]
      lease full by blast
next
  case (Some ip)
  then show thesis using assms lease [of ip a] by (simp add: Allocate_known map_upd_triv)
qed

lemma pool_step_inv [inv_intros]:
  "alloc_inv a \<Longrightarrow> alloc_inv (pool_step a x) \<and> al_prefix (pool_step a x) = al_prefix a"
proof (cases x)
  case (OpAllocate n)
  assume inv: "alloc_inv a"
  then show ?thesis by (cases rule: Allocate_cases [where n = n]) (simp_all add: OpAllocate inv)
next
  case (OpRelease n)
  assume "alloc_inv a"
  then show ?thesis by (auto simp: OpRelease Release_inv) (simp add: Release_def split: option.split)
qed

lemma pool_run_inv: "alloc_inv a \<Longrightarrow> alloc_inv (pool_run a ops) \<and> al_prefix (pool_run a ops) = al_prefix a"
  by (induction ops arbitrary: a) (use pool_step_inv in auto)

lemma pool_step_keeps:
  assumes "alloc_inv a" "al_byNode a n = Some ip" "x \<noteq> OpRelease n"
  shows "al_byNode (pool_step a x) n = Some ip"
proof (cases x)
  case (OpAllocate m)
  show ?thesis using assms(1) by (cases rule: Allocate_cases [where n = m]) (use assms(2) in \<open>auto simp: OpAllocate\<close>)
next
  case (OpRelease m)
  then show ?thesis using assms by (auto simp: Release_def split: option.split)
qed

lemma pool_run_keeps:
  "alloc_inv a \<Longrightarrow> al_byNode a n = Some ip \<Longrightarrow> OpRelease n \<notin> set ops \<Longrightarrow>
     al_byNode (pool_run a ops) n = Some ip"
  by (induction ops arbitrary: a) (auto simp: pool_step_keeps pool_step_inv)

lemma NewAllocator_Ok:
  assumes "NewAllocator p = Ok a"
  obtains v n where "p = Prefix (Addr4 v) (int n)" "n \<le> 30" "alloc_inv a" "al_byNode a = Map.empty"
    "al_prefix a = Prefix (Addr4 (v AND NOT (mask (32 - n)))) (int n)"
proof -
  obtain b k where p: "p = Prefix b k" by (cases p)
  then obtain v where "b = Addr4 v" "0 \<le> k" "k \<le> 30"
    using assms by (auto simp: NewAllocator_def addr_Is4_iff prefix_IsValid_def split: if_splits)
  then have "prefix4 p" "p = Prefix (Addr4 v) (int (nat k))" "nat k \<le> 30"
    using p by (auto simp: prefix4_def)
  then show thesis
    using that [of v "nat k"] NewAllocator_inv [OF _ assms] prefix_Masked4 [of "nat k" v] by simp
qed

lemma card_host_pool:
  assumes "alloc_inv a"
  shows "card (host_pool (al_prefix a)) = capacity (al_prefix a) - 3"
proof -
  obtain v n where p: "al_prefix a = Prefix (Addr4 v) (int n)" "n \<le> 30" "unat v mod 2 ^ (32 - n) = 0"
    using assms by (auto simp: alloc_inv_def)
  have "host_pool (al_prefix a) = (\<lambda>k. Addr4 (v + of_nat k)) ` {2..<2 ^ (32 - n) - 1}"
  proof (intro set_eqI iffI)
    fix ip assume "ip \<in> host_pool (al_prefix a)"
    then obtain k where "2 \<le> k" "unat k < 2 ^ (32 - n) - 1" "ip = Addr4 (v + k)"
      using host_pool_offset [OF p] by blast
    then show "ip \<in> (\<lambda>k. Addr4 (v + of_nat k)) ` {2..<2 ^ (32 - n) - 1}"
      by (intro image_eqI [of _ _ "unat k"]) (auto simp: word_le_nat_alt)
  next
    fix ip assume "ip \<in> (\<lambda>k. Addr4 (v + of_nat k)) ` {2..<2 ^ (32 - n) - 1}"
    then obtain k where k: "2 \<le> k" "k < 2 ^ (32 - n) - 1" "ip = Addr4 (v + of_nat k)" by auto
    have "(2 :: nat) ^ (32 - n) \<le> 2 ^ 32" by (rule power_increasing) auto
    then have "k < 2 ^ LENGTH(32)" using k(2) by simp
    then have u: "unat (of_nat k :: u32) = k" by (rule unat_of_nat_eq)
    have "unat (2 :: u32) \<le> unat (of_nat k :: u32)" using k(1) unfolding u by simp
    then have "2 \<le> (of_nat k :: u32)" by (simp only: word_le_nat_alt)
    moreover have "unat (of_nat k :: u32) < 2 ^ (32 - n) - 1" unfolding u by (rule k(2))
    ultimately show "ip \<in> host_pool (al_prefix a)" using k(3) host_pool_offset [OF p] by blast
  qed
  moreover have "inj_on (\<lambda>k. Addr4 (v + of_nat k)) {2..<2 ^ (32 - n) - 1 :: nat}"
  proof (rule inj_onI)
    fix j k :: nat
    assume a: "j \<in> {2..<2 ^ (32 - n) - 1}" "k \<in> {2..<2 ^ (32 - n) - 1}"
      and eq: "Addr4 (v + of_nat j) = Addr4 (v + of_nat k)"
    have "(2 :: nat) ^ (32 - n) \<le> 2 ^ 32" by (rule power_increasing) auto
    then have "j < 2 ^ LENGTH(32)" "k < 2 ^ LENGTH(32)" using a by auto
    then have "unat (of_nat j :: u32) = j" "unat (of_nat k :: u32) = k" by (auto intro: unat_of_nat_eq)
    moreover have "(of_nat j :: u32) = of_nat k" using eq by simp
    ultimately show "j = k" by metis
  qed
  ultimately show ?thesis by (simp add: card_image p(1) capacity_def)
qed

text \<open>Allocating for a list of nodes, in order.\<close>

fun allocate_all :: "allocator \<Rightarrow> string list \<Rightarrow> (mesh_error, addr) result list" where
  "allocate_all a [] = []"
| "allocate_all a (n # ns) = fst (Allocate a n) # allocate_all (snd (Allocate a n)) ns"

lemma allocate_all_counts:
  assumes "alloc_inv a" "distinct ns" "set ns \<inter> dom (al_byNode a) = {}" "i < length ns"
  shows "allocate_all a ns ! i = Fail ErrPoolExhausted \<longleftrightarrow>
      card (host_pool (al_prefix a)) \<le> card (dom (al_byNode a)) + i"
    "allocate_all a ns ! i \<noteq> Panic"
    "allocate_all a ns ! i = Fail e \<Longrightarrow> e = ErrPoolExhausted"
proof -
  have "(allocate_all a ns ! i = Fail ErrPoolExhausted \<longleftrightarrow>
      card (host_pool (al_prefix a)) \<le> card (dom (al_byNode a)) + i) \<and>
    allocate_all a ns ! i \<noteq> Panic \<and> (\<forall>e. allocate_all a ns ! i = Fail e \<longrightarrow> e = ErrPoolExhausted)"
    using assms
  proof (induction ns arbitrary: a i)
    case (Cons n ns)
    have new: "al_byNode a n = None" using Cons.prems(3) by auto
    note fin = mesh_pool.finite_leases [OF Cons.prems(1)]
    from Cons.prems(1) show ?case
    proof (cases rule: Allocate_cases [where n = n])
      case (lease ip t)
      have "inj_on (\<lambda>m. the (al_byNode t m)) (dom (al_byNode t))"
        by (rule inj_onI) (auto dest: mesh_pool.lease_inj [OF lease(2)])
      then have "card (dom (al_byNode t)) \<le> card (host_pool (al_prefix a))"
        using mesh_pool.leases_bounded [OF lease(2)] lease(3) by simp
      moreover have dom: "card (dom (al_byNode t)) = Suc (card (dom (al_byNode a)))"
        using lease(4) new fin by (simp add: domIff)
      ultimately have le: "card (dom (al_byNode a)) < card (host_pool (al_prefix a))" by simp
      have disj: "set ns \<inter> dom (al_byNode t) = {}"
        using Cons.prems(2,3) lease(4) by auto
      show ?thesis
        using Cons.IH [OF lease(2) _ disj, of "i - 1"] Cons.prems(2,4) le dom lease(1,3)
        by (cases i) auto
    next
      case full
      have "card (host_pool (al_prefix a)) = card (dom (al_byNode a))"
      proof -
        have "inj_on (\<lambda>m. the (al_byNode a m)) (dom (al_byNode a))"
          by (rule inj_onI) (auto dest: mesh_pool.lease_inj [OF Cons.prems(1)])
        moreover have "(\<lambda>m. the (al_byNode a m)) ` dom (al_byNode a) = ran (al_byNode a)"
          by (force simp: ran_def)
        ultimately show ?thesis using full(3) by (metis card_image)
      qed
      moreover have "set ns \<inter> dom (al_byNode a) = {}" using Cons.prems(3) by auto
      ultimately show ?thesis
        using Cons.IH [OF Cons.prems(1), of "i - 1"] Cons.prems(2,4) full(1) by (cases i) auto
    qed
  qed simp
  then show "allocate_all a ns ! i = Fail ErrPoolExhausted \<longleftrightarrow>
      card (host_pool (al_prefix a)) \<le> card (dom (al_byNode a)) + i"
    "allocate_all a ns ! i \<noteq> Panic"
    "allocate_all a ns ! i = Fail e \<Longrightarrow> e = ErrPoolExhausted" by auto
qed


section \<open>Properties\<close>

text \<open>C10: However nodes allocate and release, a lease is an address of the prefix other than its
  network address, its gateway (offset 1) and its broadcast address, and no two nodes hold the
  same address.\<close>

theorem allocator_leases:
  assumes new: "NewAllocator (Prefix (Addr4 v) (int n)) = Ok a"
    and run: "b = pool_run a ops" and held: "al_byNode b node = Some ip"
  shows "\<exists>w. ip = Addr4 w \<and> w \<in> prefix_set (Prefix (Addr4 v) (int n)) \<and>
    (let base = unat (v AND NOT (mask (32 - n)))
     in base + 2 \<le> unat w \<and> unat w + 2 \<le> base + 2 ^ (32 - n)) \<and>
    (\<forall>other. al_byNode b other = Some ip \<longrightarrow> other = node)"
proof -
  obtain v' n' where "Prefix (Addr4 v) (int n) = Prefix (Addr4 v') (int n')" "n' \<le> 30"
    and a: "alloc_inv a" "al_prefix a = Prefix (Addr4 (v' AND NOT (mask (32 - n')))) (int n')"
    by (rule NewAllocator_Ok [OF new])
  then have n: "n \<le> 30" and pre: "al_prefix a = Prefix (Addr4 (v AND NOT (mask (32 - n)))) (int n)" by auto
  have b: "alloc_inv b" "al_prefix b = Prefix (Addr4 (v AND NOT (mask (32 - n)))) (int n)"
    using pool_run_inv [OF a(1)] pre by (simp_all add: run)
  let ?base = "unat (v AND NOT (mask (32 - n)))"
  obtain w where w: "ip = Addr4 w" "?base + 2 \<le> unat w" "unat w < ?base + (2 ^ (32 - n) - 1)"
    using mesh_pool.lease_in_pool [OF b(1) held] by (auto simp: b(2) host_pool_def capacity_def)
  have mod0: "?base mod 2 ^ (32 - n) = 0" by (simp add: unat_and_not_mask)
  have le: "n \<le> 32" using n by simp
  have "w \<in> prefix_set (Prefix (Addr4 (v AND NOT (mask (32 - n)))) (int n))"
    using w(2,3) prefix_set_base [OF le mod0] by simp
  then have "w \<in> prefix_set (Prefix (Addr4 v) (int n))"
    using prefix_set_Masked [OF le, of v] by (simp add: prefix_Masked4 le)
  then show ?thesis using w mesh_pool.lease_inj [OF b(1) held] by (auto simp: Let_def)
qed

text \<open>A new allocator after some operations, for concrete runs.\<close>

definition pool_after :: "ip_prefix \<Rightarrow> pool_op list \<Rightarrow> (mesh_error, allocator) result" where
  "pool_after p ops = rbind (NewAllocator p) (\<lambda>a. Ok (pool_run a ops))"

definition leased :: "(mesh_error, allocator) result \<Rightarrow> string \<Rightarrow> addr option" where
  "leased r n = (case r of Ok b \<Rightarrow> al_byNode b n | _ \<Rightarrow> None)"

lemma leasedE:
  assumes "leased (pool_after p ops) n = Some ip"
  obtains a where "NewAllocator p = Ok a" "al_byNode (pool_run a ops) n = Some ip"
  using assms by (auto simp: leased_def pool_after_def rbind_Ok_iff split: result.splits)

theorem allocator_leases_witness:
  "\<exists>w. Addr4 0x0A580002 = Addr4 w \<and> w \<in> prefix_set (Prefix (Addr4 0x0A580001) (int 29)) \<and> w = 0x0A580002"
proof -
  have "leased (pool_after (Prefix (Addr4 0x0A580001) (int 29)) [OpAllocate ''b'']) ''b''
      = Some (Addr4 0x0A580002)" by code_simp
  then obtain a where a: "NewAllocator (Prefix (Addr4 0x0A580001) (int 29)) = Ok a"
    and held: "al_byNode (pool_run a [OpAllocate ''b'']) ''b'' = Some (Addr4 0x0A580002)"
    by (rule leasedE)
  from allocator_leases [OF a refl held] show ?thesis by auto
qed

text \<open>A node keeps its address, whatever the other nodes do, until it is released: asking
  again returns the same address and changes nothing.\<close>

theorem allocator_lease_stable:
  assumes new: "NewAllocator p = Ok a" and got: "Allocate (pool_run a before) node = (Ok ip, b)"
    and kept: "OpRelease node \<notin> set after"
  shows "Allocate (pool_run b after) node = (Ok ip, pool_run b after)"
proof -
  have a: "alloc_inv (pool_run a before)"
    using pool_run_inv NewAllocator_Ok [OF new] by metis
  have b: "alloc_inv b" "al_byNode b node = Some ip"
    using mesh_pool.acquire_Ok [OF a got] by auto
  show ?thesis using pool_run_keeps [OF b kept] by (rule Allocate_known)
qed

theorem allocator_lease_stable_witness:
  "\<exists>a b. NewAllocator (Prefix (Addr4 0x0A580000) 24) = Ok a \<and> Allocate a ''n'' = (Ok (Addr4 0x0A580002), b) \<and>
     Allocate (pool_run b [OpAllocate ''x'']) ''n'' = (Ok (Addr4 0x0A580002), pool_run b [OpAllocate ''x''])"
proof -
  have "rbind (NewAllocator (Prefix (Addr4 0x0A580000) 24)) (\<lambda>a. fst (Allocate a ''n'')) = Ok (Addr4 0x0A580002)"
    by code_simp
  then obtain a b where a: "NewAllocator (Prefix (Addr4 0x0A580000) 24) = Ok a"
    and b: "Allocate (pool_run a []) ''n'' = (Ok (Addr4 0x0A580002), b)"
    by (auto simp: rbind_Ok_iff) (metis prod.collapse)
  from allocator_lease_stable [OF a b, of "[OpAllocate ''x'']"] a b show ?thesis by auto
qed

text \<open>C11: A prefix of \<open>n\<close> bits serves exactly the first \<open>2 ^ (32 - n) - 3\<close> nodes: every one of
  them gets an address, every later one the error of an exhausted pool, and never a panic. This
  includes the prefix length 0, where the size of the prefix wraps around to \<open>0\<close> in the code.\<close>

theorem allocator_capacity:
  assumes new: "NewAllocator p = Ok a" and ns: "distinct nodes" "i < length nodes"
  shows "if i < 2 ^ (32 - nat (prefix_Bits p)) - 3 then \<exists>ip. allocate_all a nodes ! i = Ok ip
    else allocate_all a nodes ! i = Fail ErrPoolExhausted"
proof (rule NewAllocator_Ok [OF new])
  fix v n
  assume p: "p = Prefix (Addr4 v) (int n)" and a: "alloc_inv a" "al_byNode a = Map.empty"
    "al_prefix a = Prefix (Addr4 (v AND NOT (mask (32 - n)))) (int n)"
  have disj: "set nodes \<inter> dom (al_byNode a) = {}" by (simp add: a(2))
  note c = allocate_all_counts [OF a(1) ns(1) disj ns(2)]
  have "card (host_pool (al_prefix a)) = 2 ^ (32 - n) - 3"
    unfolding card_host_pool [OF a(1)] by (simp add: capacity_def a(3))
  then show ?thesis using c by (cases "allocate_all a nodes ! i") (auto simp: a(2) p)
qed

theorem allocator_capacity_witness:
  "\<exists>a. NewAllocator (Prefix (Addr4 0x0A580000) 30) = Ok a \<and>
     allocate_all a [''a'', ''b''] ! 1 = Fail ErrPoolExhausted"
proof -
  obtain a where a: "NewAllocator (Prefix (Addr4 0x0A580000) 30) = (Ok a :: (mesh_error, allocator) result)"
    by (simp add: NewAllocator_def prefix_IsValid_def)
  from allocator_capacity [OF a, of "[''a'', ''b'']" 1] a show ?thesis by auto
qed

text \<open>Releasing a lease returns its address and makes room: after it, any node that asks
  gets an address, even if the pool was exhausted.\<close>

theorem allocator_reuse:
  assumes new: "NewAllocator p = Ok a" and held: "al_byNode (pool_run a ops) node = Some ip"
  shows "\<exists>b ip' c. Release (pool_run a ops) node = (Some ip, b) \<and> Allocate b other = (Ok ip', c) \<and>
    al_byNode c other = Some ip'"
proof -
  have inv: "alloc_inv (pool_run a ops)" using pool_run_inv NewAllocator_Ok [OF new] by metis
  obtain r b where rel: "Release (pool_run a ops) node = (r, b)" by (cases "Release (pool_run a ops) node")
  obtain ip' c where c: "Allocate b other = (Ok ip', c)"
    by (rule mesh_pool.release_acquire [OF inv held rel])
  have "alloc_inv b" "r = Some ip" using mesh_pool.release_law [OF inv rel] held by auto
  then show ?thesis using rel c mesh_pool.acquire_Ok [OF _ c] by auto
qed

theorem allocator_reuse_witness:
  "\<exists>a b ip c. NewAllocator (Prefix (Addr4 0x0A580000) 30) = Ok a \<and>
     Release (pool_run a [OpAllocate ''a'']) ''a'' = (Some (Addr4 0x0A580002), b) \<and>
     Allocate b ''b'' = (Ok ip, c)"
proof -
  have "leased (pool_after (Prefix (Addr4 0x0A580000) 30) [OpAllocate ''a'']) ''a''
      = Some (Addr4 0x0A580002)" by code_simp
  then obtain a where a: "NewAllocator (Prefix (Addr4 0x0A580000) 30) = Ok a"
    and held: "al_byNode (pool_run a [OpAllocate ''a'']) ''a'' = Some (Addr4 0x0A580002)"
    by (rule leasedE)
  from allocator_reuse [OF a held, of "''b''"] a show ?thesis by auto
qed

end
