(* ===== verification/GoAddrText.thy ===== *)
theory GoAddrText
  imports GoNetip
begin

text \<open>
  The text forms of addresses: \<open>netip.Addr.String\<close>, \<open>netip.Prefix.String\<close>, \<open>net.UDPAddr.String\<close>,
  and the \<open>net.UDPAddr\<close> type with the comparison of \<open>cmd/client/udp_socket.go\<close>.
\<close>

section \<open>Numbers\<close>

definition dec_digit :: "nat \<Rightarrow> char" where
  "dec_digit n = char_of (48 + n)"

fun dec_string :: "nat \<Rightarrow> string" where
  "dec_string n = (if n < 10 then [dec_digit n] else dec_string (n div 10) @ [dec_digit (n mod 10)])"

declare dec_string.simps [simp del]

definition int_string :: "int \<Rightarrow> string" where
  "int_string i = (if i < 0 then CHR ''-'' # dec_string (nat (- i)) else dec_string (nat i))"

fun hex_string :: "nat \<Rightarrow> string" where
  "hex_string n = (if n < 16 then [hex_digit n] else hex_string (n div 16) @ [hex_digit (n mod 16)])"

declare hex_string.simps [simp del]

section \<open>Addresses\<close>

definition string4 :: "u32 \<Rightarrow> string" where
  "string4 v =
     dec_string (unat (drop_bit 24 v AND 0xff)) @ ''.'' @ dec_string (unat (drop_bit 16 v AND 0xff)) @
     ''.'' @ dec_string (unat (drop_bit 8 v AND 0xff)) @ ''.'' @ dec_string (unat (v AND 0xff))"

text \<open>IPv6: eight groups; the first of the longest runs of at least two zero groups is \<open>::\<close>.\<close>

definition v6_groups :: "128 word \<Rightarrow> nat list" where
  "v6_groups w = map (\<lambda>i. unat (drop_bit (112 - 16 * i) w AND 0xffff)) [0..<8]"

definition zero_run :: "nat list \<Rightarrow> nat" where
  "zero_run gs = length (takeWhile (\<lambda>g. g = 0) gs)"

fun best_run :: "nat \<Rightarrow> nat list \<Rightarrow> nat \<times> nat \<Rightarrow> nat \<times> nat" where
  "best_run i [] best = best"
| "best_run i (g # gs) (start, len) =
     (let l = zero_run (g # gs)
      in best_run (Suc i) gs (if 2 \<le> l \<and> len < l then (i, l) else (start, len)))"

fun join_colon :: "string list \<Rightarrow> string" where
  "join_colon [] = ''''"
| "join_colon [s] = s"
| "join_colon (s # ss) = s @ '':'' @ join_colon ss"

definition string6 :: "128 word \<Rightarrow> string" where
  "string6 w =
     (let gs = v6_groups w; (start, len) = best_run 0 gs (0, 0); hx = map hex_string gs
      in if len = 0 then join_colon hx
      else join_colon (take start hx) @ ''::'' @ join_colon (drop (start + len) hx))"

fun addr_String :: "addr \<Rightarrow> string" where
  "addr_String NoAddr = ''invalid IP''"
| "addr_String (Addr4 v) = string4 v"
| "addr_String (Addr6 w z) =
     (if drop_bit 32 w = 0xFFFF then ''::ffff:'' @ string4 (ucast w) else string6 w) @
     (if z = '''' then '''' else ''%'' @ z)"

definition prefix_String :: "ip_prefix \<Rightarrow> string" where
  "prefix_String p =
     (if prefix_IsValid p then addr_String (prefix_Addr p) @ ''/'' @ int_string (prefix_Bits p)
      else ''invalid Prefix'')"

section \<open>UDP addresses\<close>

text \<open>\<open>net.IP\<close> identifies an IPv4 address with its IPv4-mapped IPv6 form, as \<open>IP.Equal\<close> and
  \<open>IP.To4\<close> do: such an address is an \<open>Addr4\<close> here, and an absent IP is \<open>NoAddr\<close>.\<close>

record udp_addr =
  ua_IP :: addr
  ua_Port :: int
  ua_Zone :: string

definition JoinHostPort :: "string \<Rightarrow> string \<Rightarrow> string" where
  "JoinHostPort host port =
     (if CHR '':'' \<in> set host then ''['' @ host @ '']:'' @ port else host @ '':'' @ port)"

definition udp_String :: "udp_addr \<Rightarrow> string" where
  "udp_String a =
     (let ip = (if ua_IP a = NoAddr then '''' else addr_String (ua_IP a))
      in JoinHostPort (if ua_Zone a = '''' then ip else ip @ ''%'' @ ua_Zone a) (int_string (ua_Port a)))"

definition sameUDPAddr :: "udp_addr option \<Rightarrow> udp_addr option \<Rightarrow> bool" where
  "sameUDPAddr a b =
     (case (a, b) of
        (Some a, Some b) \<Rightarrow>
          if ua_Port a \<noteq> ua_Port b \<or> ua_Zone a \<noteq> ua_Zone b then False else ua_IP a = ua_IP b
      | _ \<Rightarrow> False)"

lemma sameUDPAddr_iff: "sameUDPAddr (Some a) (Some b) \<longleftrightarrow> a = b"
  by (cases a; cases b) (auto simp: sameUDPAddr_def)

section \<open>The decimal form is injective\<close>

lemma dec_digit_inj: "m < 10 \<Longrightarrow> n < 10 \<Longrightarrow> dec_digit m = dec_digit n \<longleftrightarrow> m = n"
proof
  assume "m < 10" "n < 10" "dec_digit m = dec_digit n"
  then have "of_char (dec_digit m) = (of_char (dec_digit n) :: nat)" by simp
  then show "m = n" using \<open>m < 10\<close> \<open>n < 10\<close>
    by (simp add: dec_digit_def of_char_of take_bit_nat_eq_self)
qed simp

lemma dec_string_nonempty [simp]: "dec_string n \<noteq> []"
  by (subst dec_string.simps) simp

lemma dec_string_inj: "dec_string m = dec_string n \<Longrightarrow> m = n"
proof (induction m arbitrary: n rule: dec_string.induct)
  case (1 m)
  show ?case
  proof (cases "m < 10 \<or> n < 10")
    case True
    then show ?thesis
      using 1(2) by (subst (asm) (1 2) dec_string.simps) (auto simp: dec_digit_inj dec_string_nonempty [symmetric] split: if_splits)
  next
    case False
    then have "dec_string (m div 10) = dec_string (n div 10)" "m mod 10 = n mod 10"
      using 1(2) by (subst (asm) (1 2) dec_string.simps, auto simp: dec_digit_inj)+
    then show ?thesis using 1(1) False by (metis div_mult_mod_eq)
  qed
qed

lemma dec_string_digits: "c \<in> set (dec_string n) \<Longrightarrow> c \<noteq> CHR ''.'' \<and> c \<noteq> CHR ''/'' \<and> c \<noteq> CHR '':''"
proof (induction n rule: dec_string.induct)
  case (1 n)
  have "dec_digit k \<notin> {CHR ''.'', CHR ''/'', CHR '':''}" if "k < 10" for k
  proof -
    have "(of_char (dec_digit k) :: nat) = 48 + k"
      using that by (simp add: dec_digit_def of_char_of take_bit_nat_eq_self)
    then show ?thesis using that by auto
  qed
  from this [of n] this [of "n mod 10"] 1 show ?case
    by (subst (asm) (2) dec_string.simps) (auto split: if_splits)
qed

lemma octet: "(ucast (u AND 0xff) :: u8) = ucast u" for u :: u32
proof -
  have "(ucast (u AND mask 8) :: u8) = ucast u" by (auto intro!: bit_word_eqI simp: bit_simps)
  then show ?thesis by (simp add: mask_eq_exp_minus_1)
qed

lemma dec_string_no_dot: "CHR ''.'' \<notin> set (dec_string n)"
  using dec_string_digits by blast

lemma string4_inj: "string4 v = string4 w \<Longrightarrow> v = w"
proof -
  assume "string4 v = string4 w"
  then have "dec_string (unat (drop_bit 24 v AND 0xff)) = dec_string (unat (drop_bit 24 w AND 0xff))"
    "dec_string (unat (drop_bit 16 v AND 0xff)) = dec_string (unat (drop_bit 16 w AND 0xff))"
    "dec_string (unat (drop_bit 8 v AND 0xff)) = dec_string (unat (drop_bit 8 w AND 0xff))"
    "dec_string (unat (v AND 0xff)) = dec_string (unat (w AND 0xff))"
    by (simp_all add: string4_def split_at_sep [OF dec_string_no_dot dec_string_no_dot])
  then have "drop_bit 24 v AND 0xff = drop_bit 24 w AND 0xff" "drop_bit 16 v AND 0xff = drop_bit 16 w AND 0xff"
    "drop_bit 8 v AND 0xff = drop_bit 8 w AND 0xff" "v AND 0xff = w AND 0xff"
    by (auto dest!: dec_string_inj simp: word_unat_eq_iff)
  then have "(ucast (drop_bit 24 v) :: u8) = ucast (drop_bit 24 w)" "(ucast (drop_bit 16 v) :: u8) = ucast (drop_bit 16 w)"
    "(ucast (drop_bit 8 v) :: u8) = ucast (drop_bit 8 w)" "(ucast v :: u8) = ucast w"
    by (metis octet)+
  then show ?thesis by (metis be32_put)
qed

end
