(* ===== verification/MeshPeer.thy ===== *)
theory MeshPeer
  imports GoAddrText
begin

text \<open>
  The peer type and its public views, \<open>internal/mesh/peer.go\<close>, and the registry interface the
  relay is written against (\<open>peerRegistry\<close> of \<open>internal/transport/relay.go\<close>), as a locale.
\<close>

record peer =
  pr_NodeID :: string
  pr_VirtualIP :: addr
  pr_SessionToken :: string
  pr_LastSeen :: time

record peer_view =
  pv_NodeID :: string
  pv_VirtualIP :: string
  pv_LastSeen :: time

record registration_view =
  rv_NodeID :: string
  rv_VirtualIP :: string
  rv_NetworkPrefix :: string
  rv_SessionToken :: string
  rv_HeartbeatIntervalSeconds :: int
  rv_LeaseTTLSeconds :: int

definition View :: "peer \<Rightarrow> peer_view" where
  "View p = \<lparr>pv_NodeID = pr_NodeID p, pv_VirtualIP = addr_String (pr_VirtualIP p), pv_LastSeen = pr_LastSeen p\<rparr>"

definition Registration :: "peer \<Rightarrow> ip_prefix \<Rightarrow> registration_view" where
  "Registration p prefix =
     \<lparr>rv_NodeID = pr_NodeID p, rv_VirtualIP = addr_String (pr_VirtualIP p),
      rv_NetworkPrefix = prefix_String prefix, rv_SessionToken = pr_SessionToken p,
      rv_HeartbeatIntervalSeconds = 0, rv_LeaseTTLSeconds = 0\<rparr>"

section \<open>The registry as the relay sees it\<close>

text \<open>The three methods of the interface, at one moment.\<close>

record peer_registry =
  pg_GetByToken :: "string \<Rightarrow> peer option"
  pg_GetByVirtualIP :: "addr \<Rightarrow> peer option"
  pg_List :: "peer list"

locale peer_directory =
  fixes dir_ok :: "'s \<Rightarrow> bool"
    and view :: "'s \<Rightarrow> peer_registry"
  assumes token_listed: "dir_ok s \<Longrightarrow> pg_GetByToken (view s) t = Some p \<Longrightarrow>
      p \<in> set (pg_List (view s)) \<and> pr_SessionToken p = t"
    and vip_listed: "dir_ok s \<Longrightarrow> pg_GetByVirtualIP (view s) ip = Some p \<Longrightarrow>
      p \<in> set (pg_List (view s)) \<and> pr_VirtualIP p = ip"
    and listed_vip: "dir_ok s \<Longrightarrow> p \<in> set (pg_List (view s)) \<Longrightarrow>
      pg_GetByVirtualIP (view s) (pr_VirtualIP p) = Some p"
    and listed_token: "dir_ok s \<Longrightarrow> p \<in> set (pg_List (view s)) \<Longrightarrow>
      pg_GetByToken (view s) (pr_SessionToken p) = Some p"
    and list_distinct: "dir_ok s \<Longrightarrow> distinct (map pr_NodeID (pg_List (view s)))"
begin

text \<open>A token names one peer, and an address one peer.\<close>

lemma token_unique:
  "dir_ok s \<Longrightarrow> p \<in> set (pg_List (view s)) \<Longrightarrow> q \<in> set (pg_List (view s)) \<Longrightarrow>
     pr_SessionToken p = pr_SessionToken q \<Longrightarrow> p = q"
  by (metis listed_token option.inject)

lemma vip_unique:
  "dir_ok s \<Longrightarrow> p \<in> set (pg_List (view s)) \<Longrightarrow> q \<in> set (pg_List (view s)) \<Longrightarrow>
     pr_VirtualIP p = pr_VirtualIP q \<Longrightarrow> p = q"
  by (metis listed_vip option.inject)

lemma node_unique:
  "dir_ok s \<Longrightarrow> p \<in> set (pg_List (view s)) \<Longrightarrow> q \<in> set (pg_List (view s)) \<Longrightarrow>
     pr_NodeID p = pr_NodeID q \<Longrightarrow> p = q"
  using list_distinct by (metis distinct_map inj_onD)

end

end
