(* ===== verification/MeshRegistry.thy ===== *)
theory MeshRegistry
  imports MeshAllocator MeshPeer
begin

text \<open>
  The peer registry of the coordinator, \<open>internal/mesh/registry.go\<close>: registration, lookups by node, virtual address and session token,
  heartbeats and lease expiry. The random source and the clock are arguments: \<open>rnd\<close> is the
  outcome of \<open>rand.Read\<close> into a buffer of 32 bytes (\<open>None\<close> for its error).
\<close>

section \<open>State and operations\<close>

record registry =
  rg_allocator :: allocator
  rg_prefix :: ip_prefix
  rg_peers :: "string \<rightharpoonup> peer"
  rg_byIP :: "addr \<rightharpoonup> string"
  rg_byToken :: "string \<rightharpoonup> string"

definition NewRegistry :: "ip_prefix \<Rightarrow> (mesh_error, registry) result" where
  "NewRegistry prefix =
     rbind (NewAllocator prefix) (\<lambda>allocator.
       Ok \<lparr>rg_allocator = allocator, rg_prefix = prefix_Masked prefix,
           rg_peers = Map.empty, rg_byIP = Map.empty, rg_byToken = Map.empty\<rparr>)"

definition newSessionToken :: "bytes option \<Rightarrow> (mesh_error, string) result" where
  "newSessionToken rnd = (case rnd of None \<Rightarrow> Fail ErrRandRead | Some b \<Rightarrow> Ok (hex_encode b))"

definition registerAt ::
    "registry \<Rightarrow> string \<Rightarrow> time \<Rightarrow> bytes option \<Rightarrow> (mesh_error, peer) result \<times> registry" where
  "registerAt r nodeID0 seenAt rnd =
     (let nodeID = TrimSpace nodeID0
      in if nodeID = '''' then (Fail ErrInvalidNodeID, r)
      else case rg_peers r nodeID of
        Some existing \<Rightarrow>
          (let existing = existing\<lparr>pr_LastSeen := seenAt\<rparr>
           in (Ok existing, r\<lparr>rg_peers := (rg_peers r)(nodeID \<mapsto> existing)\<rparr>))
      | None \<Rightarrow>
        (case Allocate (rg_allocator r) nodeID of
           (Panic, a) \<Rightarrow> (Panic, r\<lparr>rg_allocator := a\<rparr>)
         | (Fail e, a) \<Rightarrow> (Fail e, r\<lparr>rg_allocator := a\<rparr>)
         | (Ok ip, a) \<Rightarrow>
           (case newSessionToken rnd of
              Panic \<Rightarrow> (Panic, r\<lparr>rg_allocator := a\<rparr>)
            | Fail e \<Rightarrow> (Fail e, r\<lparr>rg_allocator := snd (Release a nodeID)\<rparr>)
            | Ok token \<Rightarrow>
              (let peer = \<lparr>pr_NodeID = nodeID, pr_VirtualIP = ip,
                           pr_SessionToken = token, pr_LastSeen = seenAt\<rparr>
               in (Ok peer,
                   r\<lparr>rg_allocator := a,
                     rg_peers := (rg_peers r)(nodeID \<mapsto> peer),
                     rg_byIP := (rg_byIP r)(ip \<mapsto> nodeID),
                     rg_byToken := (rg_byToken r)(token \<mapsto> nodeID)\<rparr>)))))"

definition Get :: "registry \<Rightarrow> string \<Rightarrow> peer option" where
  "Get r nodeID = rg_peers r nodeID"

definition GetByVirtualIP :: "registry \<Rightarrow> addr \<Rightarrow> peer option" where
  "GetByVirtualIP r ip = (case rg_byIP r ip of None \<Rightarrow> None | Some nodeID \<Rightarrow> rg_peers r nodeID)"

definition GetByToken :: "registry \<Rightarrow> string \<Rightarrow> peer option" where
  "GetByToken r token = (case rg_byToken r token of None \<Rightarrow> None | Some nodeID \<Rightarrow> rg_peers r nodeID)"

definition TouchByToken :: "registry \<Rightarrow> string \<Rightarrow> time \<Rightarrow> peer option \<times> registry" where
  "TouchByToken r token seenAt =
     (case rg_byToken r token of
        None \<Rightarrow> (None, r)
      | Some nodeID \<Rightarrow>
        (case rg_peers r nodeID of
           None \<Rightarrow> (None, r)
         | Some peer \<Rightarrow>
           (let peer = peer\<lparr>pr_LastSeen := seenAt\<rparr>
            in (Some peer, r\<lparr>rg_peers := (rg_peers r)(nodeID \<mapsto> peer)\<rparr>))))"

text \<open>\<open>ExpireBefore\<close>: one iteration of the \<open>range\<close> loop, the loop over the order in which
  the map is visited, and the final sort.\<close>

definition drop_peer :: "registry \<Rightarrow> string \<Rightarrow> peer \<Rightarrow> registry" where
  "drop_peer r nodeID peer =
     r\<lparr>rg_peers := (rg_peers r)(nodeID := None),
       rg_byIP := (rg_byIP r)(pr_VirtualIP peer := None),
       rg_byToken := (rg_byToken r)(pr_SessionToken peer := None),
       rg_allocator := snd (Release (rg_allocator r) nodeID)\<rparr>"

fun expire_loop :: "time \<Rightarrow> string list \<Rightarrow> peer list \<times> registry \<Rightarrow> peer list \<times> registry" where
  "expire_loop cutoff [] st = st"
| "expire_loop cutoff (nodeID # rest) (expired, r) =
     (case rg_peers r nodeID of
        None \<Rightarrow> expire_loop cutoff rest (expired, r)
      | Some peer \<Rightarrow>
        if time_After (pr_LastSeen peer) cutoff then expire_loop cutoff rest (expired, r)
        else expire_loop cutoff rest (expired @ [peer], drop_peer r nodeID peer))"

definition ExpireBefore :: "registry \<Rightarrow> string list \<Rightarrow> time \<Rightarrow> peer list \<times> registry" where
  "ExpireBefore r ord cutoff =
     (let (expired, r') = expire_loop cutoff ord ([], r) in (sort_key pr_NodeID expired, r'))"

definition ListPeers :: "registry \<Rightarrow> string list \<Rightarrow> peer list" where
  "ListPeers r ord = sort_key pr_NodeID (range_values (rg_peers r) ord)"

section \<open>Invariant\<close>

text \<open>
  The three maps of the registry and the allocator agree on one set of peers; a peer is stored
  under its own, trimmed, nonempty node ID; tokens are the hex form of 32 bytes.
\<close>

definition peer_ok :: "string \<Rightarrow> peer \<Rightarrow> bool" where
  "peer_ok n p \<longleftrightarrow> pr_NodeID p = n \<and> n \<noteq> '''' \<and> TrimSpace n = n \<and>
     (\<exists>b. length b = 32 \<and> pr_SessionToken p = hex_encode b)"

definition registry_inv :: "registry \<Rightarrow> bool" where
  "registry_inv r \<longleftrightarrow>
     alloc_inv (rg_allocator r) \<and> rg_prefix r = al_prefix (rg_allocator r) \<and>
     (\<forall>n. al_byNode (rg_allocator r) n = map_option pr_VirtualIP (rg_peers r n)) \<and>
     (\<forall>n p. rg_peers r n = Some p \<longrightarrow> peer_ok n p) \<and>
     index_of (rg_peers r) pr_VirtualIP (rg_byIP r) \<and>
     index_of (rg_peers r) pr_SessionToken (rg_byToken r)"

lemma registry_invD:
  assumes "registry_inv r"
  shows "alloc_inv (rg_allocator r)" "rg_prefix r = al_prefix (rg_allocator r)"
    "al_byNode (rg_allocator r) n = map_option pr_VirtualIP (rg_peers r n)"
    "rg_peers r n = Some p \<Longrightarrow> peer_ok n p"
    "rg_byIP r ip = Some n \<longleftrightarrow> (\<exists>p. rg_peers r n = Some p \<and> pr_VirtualIP p = ip)"
    "rg_byToken r t = Some n \<longleftrightarrow> (\<exists>p. rg_peers r n = Some p \<and> pr_SessionToken p = t)"
  using assms by (auto simp: registry_inv_def index_of_def)

lemma NewRegistry_inv: "prefix4 p \<Longrightarrow> NewRegistry p = Ok r \<Longrightarrow> registry_inv r"
  by (auto simp: NewRegistry_def rbind_Ok_iff registry_inv_def NewAllocator_inv)

text \<open>Two entries of the registry with the same address, or the same token, are one entry.\<close>

lemma registry_ip_inj:
  assumes "registry_inv r" "rg_peers r n = Some p" "rg_peers r m = Some q" "pr_VirtualIP p = pr_VirtualIP q"
  shows "n = m"
  using assms index_of_inj by (metis registry_inv_def)

lemma registry_token_inj:
  assumes "registry_inv r" "rg_peers r n = Some p" "rg_peers r m = Some q"
    "pr_SessionToken p = pr_SessionToken q"
  shows "n = m"
  using assms index_of_inj by (metis registry_inv_def)

lemma finite_peers: "registry_inv r \<Longrightarrow> finite (dom (rg_peers r))"
proof -
  assume inv: "registry_inv r"
  have "dom (rg_peers r) = dom (al_byNode (rg_allocator r))"
    by (auto simp: registry_invD(3) [OF inv])
  then show ?thesis using mesh_pool.finite_leases registry_invD(1) [OF inv] by metis
qed

section \<open>Lookups\<close>

lemma GetByVirtualIP_iff:
  assumes "registry_inv r"
  shows "GetByVirtualIP r ip = Some p \<longleftrightarrow> rg_peers r (pr_NodeID p) = Some p \<and> pr_VirtualIP p = ip"
proof (cases "rg_byIP r ip")
  case None
  then have "rg_peers r n = Some q \<Longrightarrow> pr_VirtualIP q \<noteq> ip" for n q
    using registry_invD(5) [OF assms] by (metis option.distinct(1))
  then show ?thesis using None by (auto simp: GetByVirtualIP_def)
next
  case (Some n)
  then obtain q where q: "rg_peers r n = Some q" "pr_VirtualIP q = ip"
    using registry_invD(5) [OF assms] by auto
  have "pr_NodeID q = n" using registry_invD(4) [OF assms q(1)] by (simp add: peer_ok_def)
  moreover have "pr_NodeID p = n" if "rg_peers r (pr_NodeID p) = Some p" "pr_VirtualIP p = ip"
    using registry_ip_inj [OF assms that(1) q(1)] that(2) q(2) by simp
  ultimately show ?thesis using Some q by (auto simp: GetByVirtualIP_def)
qed

lemma GetByToken_iff:
  assumes "registry_inv r"
  shows "GetByToken r t = Some p \<longleftrightarrow> rg_peers r (pr_NodeID p) = Some p \<and> pr_SessionToken p = t"
proof (cases "rg_byToken r t")
  case None
  then have "rg_peers r n = Some q \<Longrightarrow> pr_SessionToken q \<noteq> t" for n q
    using registry_invD(6) [OF assms] by (metis option.distinct(1))
  then show ?thesis using None by (auto simp: GetByToken_def)
next
  case (Some n)
  then obtain q where q: "rg_peers r n = Some q" "pr_SessionToken q = t"
    using registry_invD(6) [OF assms] by auto
  have "pr_NodeID q = n" using registry_invD(4) [OF assms q(1)] by (simp add: peer_ok_def)
  moreover have "pr_NodeID p = n" if "rg_peers r (pr_NodeID p) = Some p" "pr_SessionToken p = t"
    using registry_token_inj [OF assms that(1) q(1)] that(2) q(2) by simp
  ultimately show ?thesis using Some q by (auto simp: GetByToken_def)
qed

lemma Get_iff:
  "registry_inv r \<Longrightarrow> Get r n = Some p \<longleftrightarrow> rg_peers r (pr_NodeID p) = Some p \<and> pr_NodeID p = n"
  using registry_invD(4) [of r n p] by (auto simp: Get_def peer_ok_def)

section \<open>Every operation keeps the invariant\<close>

lemma set_LastSeen_inv [inv_intros]:
  assumes inv: "registry_inv r" and p: "rg_peers r n = Some p"
  shows "registry_inv (r\<lparr>rg_peers := (rg_peers r)(n \<mapsto> p\<lparr>pr_LastSeen := t\<rparr>)\<rparr>)"
  using inv p registry_invD(4) [OF inv p] unfolding registry_inv_def
  by (auto simp: peer_ok_def intro: index_of_update)

lemma TouchByToken_inv [inv_intros]: "registry_inv r \<Longrightarrow> registry_inv (snd (TouchByToken r t now))"
  by (auto simp: TouchByToken_def Let_def split: option.splits intro: set_LastSeen_inv)

lemma TouchByToken_spec:
  assumes "registry_inv r"
  shows "TouchByToken r t now =
    (case GetByToken r t of
       None \<Rightarrow> (None, r)
     | Some p \<Rightarrow> (Some (p\<lparr>pr_LastSeen := now\<rparr>),
         r\<lparr>rg_peers := (rg_peers r)(pr_NodeID p \<mapsto> p\<lparr>pr_LastSeen := now\<rparr>)\<rparr>))"
  using registry_invD(4) [OF assms]
  by (fastforce simp: TouchByToken_def GetByToken_def Let_def peer_ok_def split: option.splits)

lemma add_peer_inv:
  assumes inv: "registry_inv r" and new: "rg_peers r n = None" and ok: "peer_ok n p"
    and a: "alloc_inv a" "al_prefix a = al_prefix (rg_allocator r)"
      "al_byNode a = (al_byNode (rg_allocator r))(n \<mapsto> pr_VirtualIP p)"
    and ip: "pr_VirtualIP p \<notin> ran (al_byNode (rg_allocator r))"
    and token: "rg_byToken r (pr_SessionToken p) = None"
  shows "registry_inv (r\<lparr>rg_allocator := a, rg_peers := (rg_peers r)(n \<mapsto> p),
     rg_byIP := (rg_byIP r)(pr_VirtualIP p \<mapsto> n),
     rg_byToken := (rg_byToken r)(pr_SessionToken p \<mapsto> n)\<rparr>)"
proof -
  have "rg_byIP r (pr_VirtualIP p) = None"
  proof (rule ccontr)
    assume "rg_byIP r (pr_VirtualIP p) \<noteq> None"
    then obtain m q where "rg_peers r m = Some q" "pr_VirtualIP q = pr_VirtualIP p"
      using registry_invD(5) [OF inv] by blast
    then show False using ip registry_invD(3) [OF inv, of m] by (auto simp: ran_def)
  qed
  then show ?thesis
    using inv new ok a token unfolding registry_inv_def by (simp add: index_of_insert)
qed

lemma registerAt_inv [inv_intros]:
  assumes inv: "registry_inv r"
    and rnd: "\<And>b. rnd = Some b \<Longrightarrow> length b = 32 \<and> rg_byToken r (hex_encode b) = None"
  shows "registry_inv (snd (registerAt r nodeID now rnd))"
proof -
  let ?n = "TrimSpace nodeID" and ?A = "rg_allocator r"
  have ainv: "alloc_inv ?A" by (rule registry_invD(1) [OF inv])
  show ?thesis
  proof (cases "?n = '''' \<or> rg_peers r ?n \<noteq> None")
    case True
    then show ?thesis using inv by (auto simp: registerAt_def Let_def intro: set_LastSeen_inv)
  next
    case False
    then have n: "?n \<noteq> ''''" and new: "rg_peers r ?n = None" by auto
    have anew: "al_byNode ?A ?n = None" using registry_invD(3) [OF inv, of ?n] new by simp
    obtain res a where alloc: "Allocate ?A ?n = (res, a)" by (cases "Allocate ?A ?n")
    from Allocate_new [OF ainv anew alloc] show ?thesis
    proof (elim disjE exE conjE)
      fix ip assume ip: "res = Ok ip" "ip \<in> host_pool (al_prefix ?A)" "al_used ?A ip = None"
        and a: "al_byNode a = (al_byNode ?A)(?n \<mapsto> ip)" "al_used a = (al_used ?A)(ip \<mapsto> ?n)"
          "al_prefix a = al_prefix ?A" "alloc_inv a"
      show ?thesis
      proof (cases rnd)
        case None
        have rel: "Release a ?n = (fst (Release a ?n), snd (Release a ?n))" by simp
        note r = mesh_pool.release_law [OF a(4) rel]
        have "al_prefix (snd (Release a ?n)) = al_prefix ?A"
          using a(3) by (simp add: Release_def split: option.split)
        moreover have "al_byNode (snd (Release a ?n)) = al_byNode ?A"
          using r a(1) anew by auto
        ultimately show ?thesis
          using inv r alloc ip n new None unfolding registry_inv_def
          by (simp add: registerAt_def newSessionToken_def Let_def)
      next
        case (Some b)
        let ?p = "\<lparr>pr_NodeID = ?n, pr_VirtualIP = ip, pr_SessionToken = hex_encode b, pr_LastSeen = now\<rparr>"
        have "ip \<notin> ran (al_byNode ?A)" using ip(3) used_iff_ran [OF ainv] by blast
        then have "registry_inv (r\<lparr>rg_allocator := a, rg_peers := (rg_peers r)(?n \<mapsto> ?p),
             rg_byIP := (rg_byIP r)(ip \<mapsto> ?n), rg_byToken := (rg_byToken r)(hex_encode b \<mapsto> ?n)\<rparr>)"
          using add_peer_inv [OF inv new, of ?p a] n a rnd [OF Some] by (auto simp: peer_ok_def)
        then show ?thesis
          using alloc ip n new Some by (simp add: registerAt_def newSessionToken_def Let_def)
      qed
    next
      assume "res = Fail ErrPoolExhausted" "a = ?A"
      then show ?thesis using inv alloc n new by (simp add: registerAt_def Let_def)
    qed
  qed
qed

section \<open>Lease expiry\<close>

lemma drop_peer_inv [inv_intros]:
  assumes inv: "registry_inv r" and p: "rg_peers r n = Some p"
  shows "registry_inv (drop_peer r n p)"
proof -
  let ?A = "rg_allocator r" and ?B = "snd (Release (rg_allocator r) n)"
  have rel: "Release ?A n = (fst (Release ?A n), ?B)" by simp
  note b = mesh_pool.release_law [OF registry_invD(1) [OF inv] rel]
  have pre: "al_prefix ?B = al_prefix ?A" by (simp add: Release_def split: option.split)
  have lease: "al_byNode ?B m = map_option pr_VirtualIP (((rg_peers r)(n := None)) m)" for m
    using registry_invD(3) [OF inv, of m] b by simp
  have ok: "((rg_peers r)(n := None)) m = Some q \<Longrightarrow> peer_ok m q" for m q
    using registry_invD(4) [OF inv, of m q] by (simp split: if_splits)
  have sel: "rg_peers (drop_peer r n p) = (rg_peers r)(n := None)"
    "rg_byIP (drop_peer r n p) = (rg_byIP r)(pr_VirtualIP p := None)"
    "rg_byToken (drop_peer r n p) = (rg_byToken r)(pr_SessionToken p := None)"
    "rg_allocator (drop_peer r n p) = ?B" "rg_prefix (drop_peer r n p) = rg_prefix r"
    by (simp_all add: drop_peer_def)
  have "alloc_inv ?B" using b by blast
  moreover have "rg_prefix r = al_prefix ?B" using pre registry_invD(2) [OF inv] by simp
  ultimately show ?thesis
        using inv p unfolding registry_inv_def sel
    by (intro conjI allI impI lease index_of_delete) (auto intro: ok simp: lease)
qed

lemma drop_peer_frame [simp]:
  "rg_peers (drop_peer r n p) = (rg_peers r)(n := None)"
  "rg_prefix (drop_peer r n p) = rg_prefix r"
  "al_next (rg_allocator (drop_peer r n p)) = al_next (rg_allocator r)"
  by (simp_all add: drop_peer_def Release_def split: option.split)

lemma range_values_simps [simp]:
  "range_values m [] = []"
  "range_values m (k # ks) = (case m k of None \<Rightarrow> [] | Some v \<Rightarrow> [v]) @ range_values m ks"
  by (simp_all add: range_values_def)

lemma range_values_upd [simp]: "k \<notin> set ks \<Longrightarrow> range_values (m(k := v)) ks = range_values m ks"
  by (induction ks) auto

lemma range_values_if:
  "k \<notin> set ks \<Longrightarrow> range_values (\<lambda>x. if x = k then v else m x) ks = range_values m ks"
  by (induction ks) auto

lemma expire_loop_spec:
  assumes "registry_inv r" "distinct ord" "expire_loop c ord (ex, r) = (ex', r')"
  shows "registry_inv r' \<and> rg_prefix r' = rg_prefix r \<and>
    al_next (rg_allocator r') = al_next (rg_allocator r) \<and>
    (\<forall>n. rg_peers r' n = (if n \<in> set ord then delete_where (\<lambda>p. pr_LastSeen p \<le> c) (rg_peers r) n
                          else rg_peers r n)) \<and>
    ex' = ex @ filter (\<lambda>p. pr_LastSeen p \<le> c) (range_values (rg_peers r) ord)"
  using assms
proof (induction ord arbitrary: ex r)
  case (Cons n ord)
  show ?case
  proof (cases "rg_peers r n")
    case None
    with Cons show ?thesis by (auto simp: delete_where_def)
  next
    case (Some p)
    show ?thesis
    proof (cases "c < pr_LastSeen p")
      case True
      with Some Cons show ?thesis by (auto simp: delete_where_def)
    next
      case False
      with Some Cons.prems Cons.IH [of "drop_peer r n p" "ex @ [p]"] show ?thesis
        using drop_peer_inv [OF Cons.prems(1) Some] by (auto simp: delete_where_def range_values_if)
    qed
  qed
qed auto

text \<open>The peers determine the rest of the registry.\<close>

lemma registry_eqI:
  assumes "registry_inv r" "registry_inv s" "rg_peers r = rg_peers s"
    "rg_prefix r = rg_prefix s" "al_next (rg_allocator r) = al_next (rg_allocator s)"
  shows "r = s"
proof -
  have map_eqI: "m = m'" if "\<And>k v. m k = Some v \<longleftrightarrow> m' k = Some v" for m m' :: "'k \<rightharpoonup> 'v"
    using that by (intro ext) (metis option.exhaust)
  let ?A = "rg_allocator r" and ?B = "rg_allocator s"
  have "al_byNode ?A = al_byNode ?B"
    by (rule ext) (simp add: registry_invD(3) [OF assms(1)] registry_invD(3) [OF assms(2)] assms(3))
  moreover from this have "al_used ?A = al_used ?B"
    using registry_invD(1) [OF assms(1)] registry_invD(1) [OF assms(2)]
    by (intro map_eqI) (metis alloc_inv_def)
  ultimately have "?A = ?B"
    using registry_invD(2) [OF assms(1)] registry_invD(2) [OF assms(2)] assms(4,5)
    by (intro allocator.equality) auto
  moreover have "rg_byIP r = rg_byIP s" "rg_byToken r = rg_byToken s"
    using assms(3) registry_invD(5,6) [OF assms(1)] registry_invD(5,6) [OF assms(2)]
    by (auto intro!: map_eqI)
  ultimately show ?thesis using assms(3,4) by (intro registry.equality) auto
qed

lemma NodeID_inj: "registry_inv r \<Longrightarrow> inj_on pr_NodeID (ran (rg_peers r))"
  using registry_invD(4) [of r] by (fastforce simp: inj_on_def ran_def peer_ok_def)

lemma distinct_range_values:
  assumes "registry_inv r" "distinct ord"
  shows "distinct (map pr_NodeID (range_values (rg_peers r) ord))"
  using assms(2)
proof (induction ord)
  case (Cons n ord)
  have "pr_NodeID q \<in> set ord" if "q \<in> set (range_values (rg_peers r) ord)" for q
    using that registry_invD(4) [OF assms(1)]
    by (force simp: range_values_def peer_ok_def split: option.splits)
  with Cons registry_invD(4) [OF assms(1), of n] show ?case
    by (force simp: peer_ok_def split: option.splits)
qed simp

lemma ExpireBefore_spec:
  assumes inv: "registry_inv r" and ord: "range_of (rg_peers r) ord"
    and ex: "ExpireBefore r ord c = (ex, r')"
  shows "registry_inv r'" "rg_peers r' = delete_where (\<lambda>p. pr_LastSeen p \<le> c) (rg_peers r)"
    "set ex = {p \<in> ran (rg_peers r). pr_LastSeen p \<le> c}" "sorted (map pr_NodeID ex)"
    "distinct (map pr_NodeID ex)" "rg_prefix r' = rg_prefix r"
    "al_next (rg_allocator r') = al_next (rg_allocator r)"
proof -
  obtain ex0 where loop: "expire_loop c ord ([], r) = (ex0, r')" and exs: "ex = sort_key pr_NodeID ex0"
    using ex by (auto simp: ExpireBefore_def split: prod.splits)
  have d: "distinct ord" using ord by (simp add: range_of_def)
  note spec = expire_loop_spec [OF inv d loop]
  then show "registry_inv r'" "rg_prefix r' = rg_prefix r"
    "al_next (rg_allocator r') = al_next (rg_allocator r)" by auto
  show "rg_peers r' = delete_where (\<lambda>p. pr_LastSeen p \<le> c) (rg_peers r)"
  proof
    fix n
    show "rg_peers r' n = delete_where (\<lambda>p. pr_LastSeen p \<le> c) (rg_peers r) n"
      using spec ord by (cases "rg_peers r n") (auto simp: range_of_def delete_where_def)
  qed
  have ex0: "ex0 = filter (\<lambda>p. pr_LastSeen p \<le> c) (range_values (rg_peers r) ord)" using spec by simp
  then show "set ex = {p \<in> ran (rg_peers r). pr_LastSeen p \<le> c}"
    using exs set_range_values [OF ord] by auto
  show "sorted (map pr_NodeID ex)" by (simp add: exs)
  have "distinct (map pr_NodeID ex0)"
    unfolding ex0 by (rule distinct_map_filter) (rule distinct_range_values [OF inv d])
  then show "distinct (map pr_NodeID ex)" by (simp add: exs distinct_map)
qed

lemma ListPeers_spec:
  assumes inv: "registry_inv r" and ord: "range_of (rg_peers r) ord"
  shows "set (ListPeers r ord) = ran (rg_peers r)" "sorted (map pr_NodeID (ListPeers r ord))"
    "distinct (map pr_NodeID (ListPeers r ord))"
  using set_range_values [OF ord] distinct_range_values [OF inv, of ord] ord
  by (auto simp: ListPeers_def range_of_def distinct_map)

lemma ListPeers_nodes:
  assumes inv: "registry_inv r" and ord: "range_of (rg_peers r) ord"
  shows "map pr_NodeID (ListPeers r ord) = sort ord"
proof (rule sorted_distinct_set_unique)
  show "sorted (map pr_NodeID (ListPeers r ord))" "distinct (map pr_NodeID (ListPeers r ord))"
    by (rule ListPeers_spec [OF inv ord])+
  show "sorted (sort ord)" "distinct (sort ord)" using ord by (simp_all add: range_of_def)
  have "pr_NodeID ` ran (rg_peers r) = dom (rg_peers r)"
    using registry_invD(4) [OF inv] by (force simp: ran_def peer_ok_def image_def)
  then show "set (map pr_NodeID (ListPeers r ord)) = set (sort ord)"
    using ord by (simp add: ListPeers_spec [OF inv ord] range_of_def)
qed

section \<open>The registry is a peer directory\<close>

text \<open>The state is the registry with the order in which \<open>List\<close> ranges over its map.\<close>

definition registry_view :: "registry \<times> string list \<Rightarrow> peer_registry" where
  "registry_view rs = (case rs of (r, ord) \<Rightarrow>
     \<lparr>pg_GetByToken = GetByToken r, pg_GetByVirtualIP = GetByVirtualIP r, pg_List = ListPeers r ord\<rparr>)"

definition registry_ok :: "registry \<times> string list \<Rightarrow> bool" where
  "registry_ok rs \<longleftrightarrow> registry_inv (fst rs) \<and> range_of (rg_peers (fst rs)) (snd rs)"

interpretation reg_dir: peer_directory registry_ok registry_view
proof (unfold_locales, goal_cases)
  case (1 s t p)
  then show ?case
    by (cases s) (auto simp: registry_ok_def registry_view_def GetByToken_iff ListPeers_spec ran_def)
next
  case (2 s ip p)
  then show ?case
    by (cases s) (auto simp: registry_ok_def registry_view_def GetByVirtualIP_iff ListPeers_spec ran_def)
next
  case (3 s p)
  then show ?case using registry_invD(4) [of "fst s" _ p]
    by (cases s) (auto simp: registry_ok_def registry_view_def GetByVirtualIP_iff ListPeers_spec ran_def peer_ok_def)
next
  case (4 s p)
  then show ?case using registry_invD(4) [of "fst s" _ p]
    by (cases s) (auto simp: registry_ok_def registry_view_def GetByToken_iff ListPeers_spec ran_def peer_ok_def)
next
  case (5 s)
  then show ?case by (cases s) (simp add: registry_ok_def registry_view_def ListPeers_spec)
qed


section \<open>Reachable registries\<close>

text \<open>
  One call of the registry's mutating methods. A session token is 32 random bytes; a step draws
  one that no current peer has.
\<close>

inductive registry_step :: "registry \<Rightarrow> registry \<Rightarrow> bool" where
  Register: "(\<And>b. rnd = Some b \<Longrightarrow> length b = 32 \<and> rg_byToken r (hex_encode b) = None) \<Longrightarrow>
     registry_step r (snd (registerAt r nodeID now rnd))"
| Touch: "registry_step r (snd (TouchByToken r token now))"
| Expire: "range_of (rg_peers r) ord \<Longrightarrow> registry_step r (snd (ExpireBefore r ord cutoff))"

inductive registry_reach :: "ip_prefix \<Rightarrow> registry \<Rightarrow> bool" for p where
  New: "NewRegistry p = Ok r \<Longrightarrow> registry_reach p r"
| Step: "registry_reach p r \<Longrightarrow> registry_step r r' \<Longrightarrow> registry_reach p r'"

inductive_cases registry_stepE: "registry_step r r'"

lemma NewRegistry_Ok:
  assumes "NewRegistry p = Ok r"
  shows "registry_inv r \<and> rg_prefix r = prefix_Masked p \<and> rg_peers r = Map.empty"
proof -
  obtain a where a: "NewAllocator p = Ok a"
    using assms by (auto simp: NewRegistry_def rbind_Ok_iff)
  then have "prefix4 p" by (cases rule: NewAllocator_Ok) (simp add: prefix4_def)
  then show ?thesis using NewRegistry_inv [OF _ assms] assms a by (auto simp: NewRegistry_def)
qed

lemma registerAt_prefix: "rg_prefix (snd (registerAt r n now rnd)) = rg_prefix r"
  by (simp add: registerAt_def Let_def split: option.split prod.split result.split)

lemma TouchByToken_prefix: "rg_prefix (snd (TouchByToken r t now)) = rg_prefix r"
  by (simp add: TouchByToken_def Let_def split: option.split)

lemma ExpireBefore_inv [inv_intros]:
  assumes "registry_inv r" "range_of (rg_peers r) ord"
  shows "registry_inv (snd (ExpireBefore r ord c))" "rg_prefix (snd (ExpireBefore r ord c)) = rg_prefix r"
  using ExpireBefore_spec(1,6) [OF assms prod.collapse [symmetric]] by simp_all

lemma registry_step_inv:
  "registry_step r r' \<Longrightarrow> registry_inv r \<Longrightarrow> registry_inv r' \<and> rg_prefix r' = rg_prefix r"
  by (induction rule: registry_step.induct)
     (simp_all add: registerAt_inv TouchByToken_inv ExpireBefore_inv registerAt_prefix TouchByToken_prefix)

lemma registry_reach_inv: "registry_reach p r \<Longrightarrow> registry_inv r \<and> rg_prefix r = prefix_Masked p"
  by (induction rule: registry_reach.induct) (auto simp: NewRegistry_Ok dest: registry_step_inv)

section \<open>Registration, branch by branch\<close>

lemma registerAt_known:
  "TrimSpace n \<noteq> '''' \<Longrightarrow> rg_peers r (TrimSpace n) = Some q \<Longrightarrow>
   registerAt r n now rnd =
     (Ok (q\<lparr>pr_LastSeen := now\<rparr>),
      r\<lparr>rg_peers := (rg_peers r)(TrimSpace n \<mapsto> q\<lparr>pr_LastSeen := now\<rparr>)\<rparr>)"
  by (simp add: registerAt_def Let_def)

lemma registerAt_new:
  assumes inv: "registry_inv r" and n: "TrimSpace n \<noteq> ''''" and new: "rg_peers r (TrimSpace n) = None"
    and reg: "registerAt r n now rnd = (res, r')"
  shows "(\<exists>ip b. rnd = Some b \<and> res = Ok \<lparr>pr_NodeID = TrimSpace n, pr_VirtualIP = ip,
              pr_SessionToken = hex_encode b, pr_LastSeen = now\<rparr> \<and>
            ip \<in> host_pool (rg_prefix r) \<and> (\<forall>q\<in>ran (rg_peers r). pr_VirtualIP q \<noteq> ip) \<and>
            rg_peers r' = (rg_peers r)(TrimSpace n \<mapsto> \<lparr>pr_NodeID = TrimSpace n, pr_VirtualIP = ip,
              pr_SessionToken = hex_encode b, pr_LastSeen = now\<rparr>))
       \<or> (rnd = None \<and> res = Fail ErrRandRead \<and> rg_peers r' = rg_peers r \<and>
            rg_byIP r' = rg_byIP r \<and> rg_byToken r' = rg_byToken r \<and>
            al_byNode (rg_allocator r') = al_byNode (rg_allocator r))
       \<or> (res = Fail ErrPoolExhausted \<and> r' = r \<and> pr_VirtualIP ` ran (rg_peers r) = host_pool (rg_prefix r))"
proof -
  let ?A = "rg_allocator r" and ?n = "TrimSpace n"
  have A: "alloc_inv ?A" "rg_prefix r = al_prefix ?A" by (rule registry_invD [OF inv])+
  have lease: "al_byNode ?A m = map_option pr_VirtualIP (rg_peers r m)" for m
    by (rule registry_invD(3) [OF inv])
  have ran: "ran (al_byNode ?A) = pr_VirtualIP ` ran (rg_peers r)"
    by (auto simp: ran_def lease image_def)
  have anew: "al_byNode ?A ?n = None" using lease [of ?n] new by simp
  from A(1) show ?thesis
  proof (cases rule: Allocate_cases [where n = ?n])
    case (lease ip t)
    then have free: "ip \<notin> pr_VirtualIP ` ran (rg_peers r)" using anew ran by auto
    have pool: "ip \<in> host_pool (rg_prefix r)"
      using mesh_pool.lease_in_pool [OF lease(2), of ?n ip] lease(3,4) A(2) by simp
    show ?thesis
    proof (cases rnd)
      case None
      have "al_byNode (snd (Release t ?n)) = al_byNode ?A"
        using mesh_pool.release_law [OF lease(2), of ?n] lease(4) anew
        by (metis fun_upd_upd fun_upd_triv prod.collapse)
      then show ?thesis using reg n new lease(1) None
        by (auto simp: registerAt_def newSessionToken_def Let_def)
    next
      case (Some b)
      then show ?thesis using reg n new lease(1) pool free
        by (auto simp: registerAt_def newSessionToken_def Let_def)
    qed
  next
    case full
    then show ?thesis using reg n new ran A(2) by (auto simp: registerAt_def Let_def)
  qed
qed


section \<open>Properties\<close>

lemma registry_reach_one:
  assumes "NewRegistry p = Ok r" "length b = 32"
  shows "registry_reach p (snd (registerAt r n now (Some b)))"
proof -
  have "rg_byToken r = Map.empty" using assms(1) by (auto simp: NewRegistry_def rbind_Ok_iff)
  then show ?thesis using assms by (intro registry_reach.Step [OF registry_reach.New registry_step.Register]) auto
qed

text \<open>C8: In every reachable registry the three lookups agree: a token, a virtual address and a
  node ID find the peer that has it, and every peer holds the allocator's lease of its address,
  a host address of the network.\<close>

theorem registry_lookups_agree:
  assumes "registry_reach p r"
  shows "(GetByToken r t = Some q \<longleftrightarrow> Get r (pr_NodeID q) = Some q \<and> pr_SessionToken q = t) \<and>
    (GetByVirtualIP r ip = Some q \<longleftrightarrow> Get r (pr_NodeID q) = Some q \<and> pr_VirtualIP q = ip) \<and>
    al_byNode (rg_allocator r) n = map_option pr_VirtualIP (Get r n) \<and>
    (Get r n = Some q \<longrightarrow> pr_NodeID q = n \<and> n \<noteq> '''' \<and> TrimSpace n = n \<and>
       pr_VirtualIP q \<in> host_pool (prefix_Masked p))"
proof (intro conjI impI)
  have inv: "registry_inv r" "rg_prefix r = prefix_Masked p" using registry_reach_inv [OF assms] by auto
  show "GetByToken r t = Some q \<longleftrightarrow> Get r (pr_NodeID q) = Some q \<and> pr_SessionToken q = t"
    "GetByVirtualIP r ip = Some q \<longleftrightarrow> Get r (pr_NodeID q) = Some q \<and> pr_VirtualIP q = ip"
    by (simp_all add: GetByToken_iff GetByVirtualIP_iff inv Get_def)
  show lease: "al_byNode (rg_allocator r) n = map_option pr_VirtualIP (Get r n)"
    using registry_invD(3) [OF inv(1)] by (simp add: Get_def)
  assume q: "Get r n = Some q"
  then show "pr_NodeID q = n" "n \<noteq> ''''" "TrimSpace n = n"
    using registry_invD(4) [OF inv(1), of n q] by (simp_all add: Get_def peer_ok_def)
  have "alloc_inv (rg_allocator r)" "rg_prefix r = al_prefix (rg_allocator r)"
    by (rule registry_invD [OF inv(1)])+
  then show "pr_VirtualIP q \<in> host_pool (prefix_Masked p)"
    using q lease mesh_pool.lease_in_pool [of "rg_allocator r" n] inv(2) by simp
qed

theorem registry_lookups_agree_witness:
  "\<exists>r q. registry_reach (Prefix (Addr4 0x0A580000) 16) r \<and> GetByToken r (hex_encode (replicate 32 7)) = Some q \<and>
     Get r (pr_NodeID q) = Some q \<and> pr_VirtualIP q = Addr4 0x0A580002"
proof -
  let ?reg = "\<lambda>r. snd (registerAt r '' n1 '' 5 (Some (replicate 32 7)))"
  have "rbind (NewRegistry (Prefix (Addr4 0x0A580000) 16)) (\<lambda>r.
      Ok (map_option pr_VirtualIP (GetByToken (?reg r) (hex_encode (replicate 32 7)))))
    = Ok (Some (Addr4 0x0A580002))" by code_simp
  then obtain r q where r: "NewRegistry (Prefix (Addr4 0x0A580000) 16) = Ok r"
    and q: "GetByToken (?reg r) (hex_encode (replicate 32 7)) = Some q" "pr_VirtualIP q = Addr4 0x0A580002"
    by (auto simp: rbind_Ok_iff)
  have reach: "registry_reach (Prefix (Addr4 0x0A580000) 16) (?reg r)" by (rule registry_reach_one [OF r]) simp
  with q registry_lookups_agree [OF reach, of "hex_encode (replicate 32 7)" q] show ?thesis by blast
qed

text \<open>Registering a known node (up to surrounding white space) is a renewal: it keeps its
  address and its token, only its last-seen time moves, and no other peer changes.\<close>

theorem registry_renewal:
  assumes "registry_reach p r" "Get r (TrimSpace n) = Some q"
  shows "fst (registerAt r n now rnd) = Ok (q\<lparr>pr_LastSeen := now\<rparr>) \<and>
    (\<forall>m. Get (snd (registerAt r n now rnd)) m =
       (if m = TrimSpace n then Some (q\<lparr>pr_LastSeen := now\<rparr>) else Get r m)) \<and>
    rg_allocator (snd (registerAt r n now rnd)) = rg_allocator r"
proof -
  have "TrimSpace n \<noteq> ''''"
    using registry_invD(4) [of r "TrimSpace n" q] registry_reach_inv [OF assms(1)] assms(2)
    by (simp add: Get_def peer_ok_def)
  then show ?thesis using assms registerAt_known [of n r q now rnd] by (simp add: Get_def)
qed

text \<open>Registering a new node gives it a host address no peer holds and a token of the random
  bytes, and adds exactly that peer; if the pool is exhausted nothing changes, which happens only
  when every host address is leased; if the random source fails, the lease is given back.\<close>

theorem registry_new_peer:
  assumes reach: "registry_reach p r" and n: "TrimSpace n \<noteq> ''''" and new: "Get r (TrimSpace n) = None"
    and reg: "registerAt r n now rnd = (res, r')"
  shows "case res of
      Ok q \<Rightarrow> (\<exists>b. rnd = Some b \<and> pr_SessionToken q = hex_encode b) \<and> pr_NodeID q = TrimSpace n \<and>
        pr_LastSeen q = now \<and> pr_VirtualIP q \<in> host_pool (prefix_Masked p) \<and>
        (\<forall>m other. Get r m = Some other \<longrightarrow> pr_VirtualIP other \<noteq> pr_VirtualIP q) \<and>
        Get r' = (Get r)(TrimSpace n \<mapsto> q)
    | Fail e \<Rightarrow> Get r' = Get r \<and> GetByToken r' = GetByToken r \<and> GetByVirtualIP r' = GetByVirtualIP r \<and>
        al_byNode (rg_allocator r') = al_byNode (rg_allocator r) \<and>
        (e = ErrRandRead \<and> rnd = None \<or>
         e = ErrPoolExhausted \<and> (\<forall>ip\<in>host_pool (prefix_Masked p). \<exists>other. GetByVirtualIP r ip = Some other))
    | Panic \<Rightarrow> False"
proof -
  have inv: "registry_inv r" "rg_prefix r = prefix_Masked p" using registry_reach_inv [OF reach] by auto
  have full: "\<exists>other. GetByVirtualIP r ip = Some other"
    if "pr_VirtualIP ` ran (rg_peers r) = host_pool (rg_prefix r)" "ip \<in> host_pool (prefix_Masked p)" for ip
  proof -
    have "ip \<in> pr_VirtualIP ` ran (rg_peers r)" using that inv(2) by simp
    then obtain m q where q: "rg_peers r m = Some q" "pr_VirtualIP q = ip" by (auto simp: ran_def)
    then have "pr_NodeID q = m" using registry_invD(4) [OF inv(1)] by (auto simp: peer_ok_def)
    then show ?thesis using q GetByVirtualIP_iff [OF inv(1)] by blast
  qed
  have new': "rg_peers r (TrimSpace n) = None" using new by (simp add: Get_def)
  have get: "Get s = rg_peers s" for s by (rule ext) (simp add: Get_def)
  have same: "GetByToken r' = GetByToken r" "GetByVirtualIP r' = GetByVirtualIP r"
    if "rg_peers r' = rg_peers r" "rg_byIP r' = rg_byIP r" "rg_byToken r' = rg_byToken r"
    using that by (auto simp: GetByToken_def GetByVirtualIP_def cong: option.case_cong)
  from registerAt_new [OF inv(1) n new' reg] show ?thesis
  proof (elim disjE exE conjE)
    assume "rnd = None" "res = Fail ErrRandRead" "rg_peers r' = rg_peers r" "rg_byIP r' = rg_byIP r"
      "rg_byToken r' = rg_byToken r" "al_byNode (rg_allocator r') = al_byNode (rg_allocator r)"
    then show ?thesis using same get by simp
  next
    assume "res = Fail ErrPoolExhausted" "r' = r" "pr_VirtualIP ` ran (rg_peers r) = host_pool (rg_prefix r)"
    then show ?thesis using full by simp
  qed (auto simp: get ran_def inv(2))
qed

text \<open>C9: Expiry removes exactly the peers last seen at or before the cutoff and keeps every other
  unchanged; it returns them sorted by node ID; their tokens authenticate nobody any more, their
  addresses lead to nobody, and the order in which the map is visited makes no difference.\<close>

theorem registry_expiry:
  assumes reach: "registry_reach p r" and ord: "range_of (rg_peers r) ord" "range_of (rg_peers r) ord'"
    and ex: "ExpireBefore r ord cutoff = (gone, r')"
  shows "Get r' n = (case Get r n of Some q \<Rightarrow> if pr_LastSeen q \<le> cutoff then None else Some q | None \<Rightarrow> None) \<and>
    sorted (map pr_NodeID gone) \<and> distinct gone \<and>
    (q \<in> set gone \<longleftrightarrow> Get r (pr_NodeID q) = Some q \<and> pr_LastSeen q \<le> cutoff) \<and>
    (q \<in> set gone \<longrightarrow> GetByToken r' (pr_SessionToken q) = None \<and> GetByVirtualIP r' (pr_VirtualIP q) = None \<and>
       pr_VirtualIP q \<notin> ran (al_byNode (rg_allocator r'))) \<and>
    ExpireBefore r ord' cutoff = (gone, r')"
proof -
  have inv: "registry_inv r" using registry_reach_inv [OF reach] by auto
  note s = ExpireBefore_spec [OF inv ord(1) ex]
  obtain gone' r'' where ex': "ExpireBefore r ord' cutoff = (gone', r'')" by fastforce
  note s' = ExpireBefore_spec [OF inv ord(2) ex']
  have key: "rg_peers r n = Some q \<Longrightarrow> pr_NodeID q = n" for n q
    using registry_invD(4) [OF inv] by (simp add: peer_ok_def)
  have mem: "q \<in> set gone \<longleftrightarrow> Get r (pr_NodeID q) = Some q \<and> pr_LastSeen q \<le> cutoff" for q
    using s(3) key by (auto simp: Get_def ran_def)
  have "r'' = r'" using s s' by (intro registry_eqI) auto
  moreover have "gone' = gone"
    using s(3,4,5) s'(3,4,5) by (intro map_sorted_distinct_set_unique [where f = pr_NodeID])
      (auto simp: distinct_map intro: inj_on_subset [OF NodeID_inj [OF inv]])
  moreover have "GetByToken r' (pr_SessionToken q) = None \<and> GetByVirtualIP r' (pr_VirtualIP q) = None \<and>
       pr_VirtualIP q \<notin> ran (al_byNode (rg_allocator r'))" if q: "q \<in> set gone" for q
  proof -
    have old: "rg_peers r (pr_NodeID q) = Some q" "pr_LastSeen q \<le> cutoff" using q mem by (auto simp: Get_def)
    have none: "rg_peers r' m = Some x \<Longrightarrow> pr_SessionToken x \<noteq> pr_SessionToken q \<and> pr_VirtualIP x \<noteq> pr_VirtualIP q" for m x
      using s(2) old registry_ip_inj [OF inv old(1), of m x] registry_token_inj [OF inv old(1), of m x] by force
    then have "GetByToken r' (pr_SessionToken q) \<noteq> Some x" "GetByVirtualIP r' (pr_VirtualIP q) \<noteq> Some x" for x
      by (auto simp: GetByToken_iff GetByVirtualIP_iff s(1))
    moreover have "pr_VirtualIP q \<notin> ran (al_byNode (rg_allocator r'))"
      using none by (force simp: ran_def registry_invD(3) [OF s(1)])
    ultimately show ?thesis by (metis option.exhaust)
  qed
  ultimately show ?thesis
    using s(2,4,5) ex' mem by (auto simp: Get_def delete_where_def distinct_map split: option.split)
qed

text \<open>A registry with one peer, for the concrete runs below.\<close>

lemma registry_example:
  obtains r q where "registry_reach (Prefix (Addr4 0x0A580000) 16) r" "Get r ''n1'' = Some q"
    "rg_peers r = [''n1'' \<mapsto> q]" "q = \<lparr>pr_NodeID = ''n1'', pr_VirtualIP = Addr4 0x0A580002,
       pr_SessionToken = hex_encode (replicate 32 7), pr_LastSeen = 5\<rparr>"
proof -
  let ?reg = "\<lambda>r. registerAt r '' n1 '' 5 (Some (replicate 32 7))"
  have "rbind (NewRegistry (Prefix (Addr4 0x0A580000) 16)) (\<lambda>r. fst (?reg r))
    = Ok \<lparr>pr_NodeID = ''n1'', pr_VirtualIP = Addr4 0x0A580002,
       pr_SessionToken = hex_encode (replicate 32 7), pr_LastSeen = 5\<rparr>" by code_simp
  then obtain r q where r: "NewRegistry (Prefix (Addr4 0x0A580000) 16) = Ok r"
    and q: "fst (?reg r) = Ok q" "q = \<lparr>pr_NodeID = ''n1'', pr_VirtualIP = Addr4 0x0A580002,
       pr_SessionToken = hex_encode (replicate 32 7), pr_LastSeen = 5\<rparr>"
    by (auto simp: rbind_Ok_iff)
  have trim: "TrimSpace '' n1 '' = ''n1''" by code_simp
  have reach: "registry_reach (Prefix (Addr4 0x0A580000) 16) (snd (?reg r))"
    by (rule registry_reach_one [OF r]) simp
  have new: "registry_inv r" "rg_peers r = Map.empty" using NewRegistry_Ok [OF r] by auto
  have p: "rg_peers (snd (?reg r)) = [''n1'' \<mapsto> q]"
    using registerAt_new [OF new(1) _ _ prod.collapse [symmetric], where n = "'' n1 ''" and now = 5
      and rnd = "Some (replicate 32 7)"] q(1) new(2)
    by (auto simp: trim)
  show thesis by (rule that [OF reach _ p q(2)]) (simp add: Get_def p)
qed

theorem registry_renewal_witness:
  "\<exists>r. registry_reach (Prefix (Addr4 0x0A580000) 16) r \<and>
     (\<exists>q. fst (registerAt r '' n1'' 9 None) = Ok q \<and> pr_VirtualIP q = Addr4 0x0A580002 \<and> pr_LastSeen q = 9)"
proof -
  obtain r q where r: "registry_reach (Prefix (Addr4 0x0A580000) 16) r" "Get r ''n1'' = Some q"
    "rg_peers r = [''n1'' \<mapsto> q]" "q = \<lparr>pr_NodeID = ''n1'', pr_VirtualIP = Addr4 0x0A580002,
       pr_SessionToken = hex_encode (replicate 32 7), pr_LastSeen = 5\<rparr>" by (rule registry_example)
  have "TrimSpace '' n1'' = ''n1''" by code_simp
  then have "Get r (TrimSpace '' n1'') = Some q" using r(2) by simp
  from registry_renewal [OF r(1) this, of 9 None] r show ?thesis by auto
qed

theorem registry_new_peer_witness:
  "\<exists>r q r'. registry_reach (Prefix (Addr4 0x0A580000) 16) r \<and>
     registerAt r ''n2'' 9 None = (Fail ErrRandRead, r') \<and> Get r' = Get r"
proof -
  obtain r q where r: "registry_reach (Prefix (Addr4 0x0A580000) 16) r" "Get r ''n1'' = Some q"
    "rg_peers r = [''n1'' \<mapsto> q]" "q = \<lparr>pr_NodeID = ''n1'', pr_VirtualIP = Addr4 0x0A580002,
       pr_SessionToken = hex_encode (replicate 32 7), pr_LastSeen = 5\<rparr>" by (rule registry_example)
  have t: "TrimSpace ''n2'' = ''n2''" by code_simp
  have masked: "prefix_Masked (Prefix (Addr4 0x0A580000) 16) = Prefix (Addr4 0x0A580000) 16" by code_simp
  obtain res r' where reg: "registerAt r ''n2'' 9 None = (res, r')" by fastforce
  have n: "TrimSpace ''n2'' \<noteq> ''''" and new: "Get r (TrimSpace ''n2'') = None"
    using r(3) by (simp_all add: t Get_def)
  have c: "case res of
      Ok q \<Rightarrow> (\<exists>b. (None :: bytes option) = Some b \<and> pr_SessionToken q = hex_encode b)
    | Fail e \<Rightarrow> Get r' = Get r \<and> (e = ErrRandRead \<or> (\<forall>ip\<in>host_pool (Prefix (Addr4 0x0A580000) 16). \<exists>other. GetByVirtualIP r ip = Some other))
    | Panic \<Rightarrow> False"
    using registry_new_peer [OF r(1) n new reg] unfolding masked by (auto split: result.splits)
  have "GetByVirtualIP r (Addr4 0x0A580003) \<noteq> Some x" for x
    using r(3,4) registry_reach_inv [OF r(1)] by (auto simp: GetByVirtualIP_iff)
  moreover have "Addr4 0x0A580003 \<in> host_pool (Prefix (Addr4 0x0A580000) 16)"
    by (simp add: host_pool_def capacity_def)
  ultimately have "res = Fail ErrRandRead \<and> Get r' = Get r"
    using c by (cases res) (simp_all, metis)
  then show ?thesis using r(1) reg by blast
qed

theorem registry_expiry_witness:
  "\<exists>r q r'. registry_reach (Prefix (Addr4 0x0A580000) 16) r \<and> Get r ''n1'' = Some q \<and>
     ExpireBefore r [''n1''] 5 = ([q], r') \<and> Get r' ''n1'' = None"
proof -
  obtain r q where r: "registry_reach (Prefix (Addr4 0x0A580000) 16) r" "Get r ''n1'' = Some q"
    "rg_peers r = [''n1'' \<mapsto> q]" "q = \<lparr>pr_NodeID = ''n1'', pr_VirtualIP = Addr4 0x0A580002,
       pr_SessionToken = hex_encode (replicate 32 7), pr_LastSeen = 5\<rparr>" by (rule registry_example)
  have ord: "range_of (rg_peers r) [''n1'']" by (simp add: range_of_def r(3))
  have e: "ExpireBefore r [''n1''] 5 = ([q], drop_peer r ''n1'' q)"
    using r(3,4) by (simp add: ExpireBefore_def)
  from registry_expiry [OF r(1) ord ord e, of "''n1''" q] r e show ?thesis by auto
qed

end
