(* ===== verification/PacketIPv4.thy ===== *)
theory PacketIPv4
  imports GoNetip
begin

text \<open>
  The packet inspection of the mesh data plane, \<open>internal/packet/ipv4.go\<close>. Every byte is read
  through the checked accesses of the prelude, so a read out of range would be a \<open>Panic\<close>.
\<close>

datatype packet_error =
  ErrTooShort | ErrNotIPv4 | ErrBadIHL | ErrNotUDP | ErrUDPTooShort | ErrFragmented

definition ipv4HeaderLength :: "bytes \<Rightarrow> (packet_error, nat) result" where
  "ipv4HeaderLength b =
     (if length b < 20 then Fail ErrTooShort
      else rbind (idx b 0) (\<lambda>b0.
        if drop_bit 4 b0 \<noteq> 4 then Fail ErrNotIPv4
        else let ihl = unat (b0 AND 0x0f) * 4
        in if ihl < 20 \<or> ihl > length b then Fail ErrBadIHL
        else Ok ihl))"

definition IPv4Endpoints :: "bytes \<Rightarrow> (packet_error, addr \<times> addr) result" where
  "IPv4Endpoints b =
     rbind (ipv4HeaderLength b) (\<lambda>_.
     rbind (idx b 12) (\<lambda>s0. rbind (idx b 13) (\<lambda>s1. rbind (idx b 14) (\<lambda>s2. rbind (idx b 15) (\<lambda>s3.
     rbind (idx b 16) (\<lambda>d0. rbind (idx b 17) (\<lambda>d1. rbind (idx b 18) (\<lambda>d2. rbind (idx b 19) (\<lambda>d3.
       Ok (AddrFrom4 s0 s1 s2 s3, AddrFrom4 d0 d1 d2 d3))))))))))"

text \<open>\<open>binary.BigEndian.Uint16(b[i:j])\<close>.\<close>

definition u16_at :: "bytes \<Rightarrow> nat \<Rightarrow> nat \<Rightarrow> ('e, u16) result" where
  "u16_at b i j =
     rbind (subslice b i j) (\<lambda>s. rbind (idx s 0) (\<lambda>x. rbind (idx s 1) (\<lambda>y. Ok (be16 x y))))"

definition IPv4UDPPorts :: "bytes \<Rightarrow> (packet_error, u16 \<times> u16) result" where
  "IPv4UDPPorts b =
     rbind (ipv4HeaderLength b) (\<lambda>ihl.
     rbind (idx b 9) (\<lambda>proto.
       if proto \<noteq> 17 then Fail ErrNotUDP
       else rbind (u16_at b 6 8) (\<lambda>fragment.
         if fragment AND 0x1fff \<noteq> 0 then Fail ErrFragmented
         else if length b < ihl + 8 then Fail ErrUDPTooShort
         else rbind (u16_at b ihl (ihl + 2)) (\<lambda>src.
              rbind (u16_at b (ihl + 2) (ihl + 4)) (\<lambda>dst. Ok (src, dst))))))"

section \<open>What the functions return\<close>

lemma u16_at_in [simp]: "i + 2 \<le> length b \<Longrightarrow> u16_at b i (i + 2) = Ok (be16 (b ! i) (b ! (i + 1)))"
  by (simp add: u16_at_def)

lemma u16_at_6_8 [simp]: "8 \<le> length b \<Longrightarrow> u16_at b 6 8 = Ok (be16 (b ! 6) (b ! 7))"
  using u16_at_in [of 6 b] by simp

lemma u16_at_2_4 [simp]: "4 \<le> length b \<Longrightarrow> u16_at b 2 4 = Ok (be16 (b ! 2) (b ! 3))"
  using u16_at_in [of 2 b] by simp

definition ipv4_header_ok :: "bytes \<Rightarrow> bool" where
  "ipv4_header_ok b \<longleftrightarrow> 20 \<le> length b \<and> drop_bit 4 (b ! 0) = 4 \<and>
     20 \<le> unat (b ! 0 AND 0x0f) * 4 \<and> unat (b ! 0 AND 0x0f) * 4 \<le> length b"

lemma ipv4HeaderLength_iff:
  "ipv4HeaderLength b = Ok n \<longleftrightarrow> ipv4_header_ok b \<and> n = unat (b ! 0 AND 0x0f) * 4"
  by (auto simp: ipv4HeaderLength_def ipv4_header_ok_def idx_def Let_def not_less)

lemma ipv4HeaderLength_total: "ipv4HeaderLength b \<noteq> Panic"
  by (auto simp: ipv4HeaderLength_def idx_def Let_def)

lemma ipv4HeaderLength_bounds: "ipv4HeaderLength b = Ok n \<Longrightarrow> 20 \<le> n \<and> n \<le> 60 \<and> n \<le> length b"
proof -
  assume "ipv4HeaderLength b = Ok n"
  moreover have "unat (b ! 0 AND 0x0f) \<le> unat (0x0f :: u8)"
    by (metis word_and_le1 word_le_nat_alt)
  ultimately show ?thesis by (auto simp: ipv4HeaderLength_iff ipv4_header_ok_def)
qed

lemma IPv4Endpoints_eq:
  "IPv4Endpoints b = rbind (ipv4HeaderLength b) (\<lambda>_.
     Ok (AddrFrom4 (b ! 12) (b ! 13) (b ! 14) (b ! 15), AddrFrom4 (b ! 16) (b ! 17) (b ! 18) (b ! 19)))"
proof (cases "ipv4HeaderLength b")
  case (Ok n)
  then have "20 \<le> length b" using ipv4HeaderLength_bounds by force
  then show ?thesis by (simp add: IPv4Endpoints_def Ok)
qed (simp_all add: IPv4Endpoints_def)

lemma IPv4Endpoints_total: "IPv4Endpoints b \<noteq> Panic"
  using ipv4HeaderLength_total by (cases "ipv4HeaderLength b") (auto simp: IPv4Endpoints_eq)

lemma IPv4Endpoints_Is4: "IPv4Endpoints b = Ok (s, d) \<Longrightarrow> addr_Is4 s \<and> addr_Is4 d"
  by (auto simp: IPv4Endpoints_eq rbind_Ok_iff AddrFrom4_def)

lemma IPv4UDPPorts_eq:
  assumes "ipv4HeaderLength b = Ok ihl"
  shows "IPv4UDPPorts b =
    (if b ! 9 \<noteq> 17 then Fail ErrNotUDP
     else if be16 (b ! 6) (b ! 7) AND 0x1fff \<noteq> 0 then Fail ErrFragmented
     else if length b < ihl + 8 then Fail ErrUDPTooShort
     else Ok (be16 (b ! ihl) (b ! (ihl + 1)), be16 (b ! (ihl + 2)) (b ! (ihl + 3))))"
proof -
  have len: "20 \<le> length b" using ipv4HeaderLength_bounds [OF assms] by simp
  moreover have "u16_at b ihl (ihl + 2) = (Ok (be16 (b ! ihl) (b ! (ihl + 1))) :: (packet_error, u16) result)"
    "u16_at b (ihl + 2) (ihl + 4) = (Ok (be16 (b ! (ihl + 2)) (b ! (ihl + 3))) :: (packet_error, u16) result)"
    if "ihl + 8 \<le> length b"
    using u16_at_in [of "ihl" b] u16_at_in [of "ihl + 2" b] that by (simp_all add: numeral_eq_Suc)
  ultimately show ?thesis
    by (auto simp: IPv4UDPPorts_def assms not_less simp del: add_2_eq_Suc')
qed

lemma IPv4UDPPorts_total: "IPv4UDPPorts b \<noteq> Panic"
proof (cases "ipv4HeaderLength b")
  case (Ok n)
  then show ?thesis by (simp add: IPv4UDPPorts_eq)
qed (simp_all add: IPv4UDPPorts_def ipv4HeaderLength_total)

text \<open>A UDP port pair exists only in a packet whose header parses.\<close>

lemma IPv4UDPPorts_Ok:
  "IPv4UDPPorts b = Ok (s, d) \<Longrightarrow> \<exists>ihl. ipv4HeaderLength b = Ok ihl \<and> ihl + 8 \<le> length b \<and>
     b ! 9 = 17 \<and> s = be16 (b ! ihl) (b ! (ihl + 1)) \<and> d = be16 (b ! (ihl + 2)) (b ! (ihl + 3))"
proof (cases "ipv4HeaderLength b")
  case (Ok ihl)
  then show "IPv4UDPPorts b = Ok (s, d) \<Longrightarrow> ?thesis"
    by (simp add: IPv4UDPPorts_eq split: if_splits)
qed (simp_all add: IPv4UDPPorts_def)


section \<open>Properties\<close>

text \<open>The inspection of an IPv4 packet never reads outside it. It returns the addresses exactly
  when the header is well formed, and the ports exactly when the packet is moreover an unfragmented
  (or first-fragment) UDP packet that holds a whole UDP header after the options.\<close>

theorem ipv4_inspection:
  "IPv4Endpoints b \<noteq> Panic \<and> IPv4UDPPorts b \<noteq> Panic \<and>
   (IPv4Endpoints b = Ok (s, d) \<longleftrightarrow> ipv4_header_ok b \<and>
      s = AddrFrom4 (b ! 12) (b ! 13) (b ! 14) (b ! 15) \<and> d = AddrFrom4 (b ! 16) (b ! 17) (b ! 18) (b ! 19)) \<and>
   (IPv4UDPPorts b = Ok (sp, dp) \<longleftrightarrow> ipv4_header_ok b \<and> b ! 9 = 17 \<and>
      be16 (b ! 6) (b ! 7) AND 0x1fff = 0 \<and>
      (let ihl = 4 * unat (b ! 0 AND 0x0f)
       in ihl + 8 \<le> length b \<and> sp = be16 (b ! ihl) (b ! (ihl + 1)) \<and> dp = be16 (b ! (ihl + 2)) (b ! (ihl + 3))))"
proof (cases "ipv4HeaderLength b")
  case (Ok n)
  then have n: "ipv4_header_ok b" "n = 4 * unat (b ! 0 AND 0x0f)" by (simp_all add: ipv4HeaderLength_iff)
  show ?thesis
    using n(1) by (simp add: IPv4Endpoints_total IPv4UDPPorts_total)
      (auto simp: IPv4Endpoints_eq IPv4UDPPorts_eq [OF Ok] Ok Let_def not_less simp flip: n(2))
next
  case (Fail e)
  then have "\<not> ipv4_header_ok b" by (metis ipv4HeaderLength_iff result.distinct(1))
  then show ?thesis using Fail
    by (simp add: IPv4Endpoints_total IPv4UDPPorts_total) (simp add: IPv4Endpoints_def IPv4UDPPorts_def)
qed (simp add: ipv4HeaderLength_total)

end
