(* ===== verification/RelayFrame.thy ===== *)
theory RelayFrame
  imports Interfaces
begin

text \<open>
  The relay's datagram format, \<open>internal/transport/frame.go\<close>: version byte, type byte, a
  big-endian token length, the token and the payload.
\<close>

section \<open>Frames\<close>

datatype frame_error =
  ErrFrameTooShort | ErrFrameVersion | ErrFrameType | ErrTokenTooLong | ErrMalformedFrame

text \<open>\<open>FrameType\<close> is a byte with three named values.\<close>

type_synonym frame_type = u8

abbreviation FrameHello :: frame_type where "FrameHello \<equiv> 1"
abbreviation FramePacket :: frame_type where "FramePacket \<equiv> 2"
abbreviation FrameDeliver :: frame_type where "FrameDeliver \<equiv> 3"
abbreviation frameVersion :: u8 where "frameVersion \<equiv> 1"
abbreviation maxTokenBytes :: nat where "maxTokenBytes \<equiv> 512"

record frame =
  fr_Type :: frame_type
  fr_Token :: string
  fr_Payload :: bytes

definition marshal :: "frame_type \<Rightarrow> string \<Rightarrow> bytes \<Rightarrow> (frame_error, bytes) result" where
  "marshal t token payload =
     (if length token > maxTokenBytes \<or> length token > 0xffff then Fail ErrTokenTooLong
      else Ok ([frameVersion, t] @ put16 (of_nat (length token)) @ bytes_of token @ payload))"

definition MarshalHello :: "string \<Rightarrow> (frame_error, bytes) result" where
  "MarshalHello token = marshal FrameHello token []"

definition MarshalPacket :: "string \<Rightarrow> bytes \<Rightarrow> (frame_error, bytes) result" where
  "MarshalPacket token payload = marshal FramePacket token payload"

definition MarshalDeliver :: "bytes \<Rightarrow> (frame_error, bytes) result" where
  "MarshalDeliver payload = marshal FrameDeliver '''' payload"

definition ParseFrame :: "bytes \<Rightarrow> (frame_error, frame) result" where
  "ParseFrame b =
     (if length b < 4 then Fail ErrFrameTooShort
      else rbind (idx b 0) (\<lambda>version.
        if version \<noteq> frameVersion then Fail ErrFrameVersion
        else rbind (idx b 1) (\<lambda>t.
          if t \<noteq> FrameHello \<and> t \<noteq> FramePacket \<and> t \<noteq> FrameDeliver then Fail ErrFrameType
          else rbind (idx b 2) (\<lambda>l0. rbind (idx b 3) (\<lambda>l1.
            let tokenLen = unat (be16 l0 l1) in
            if tokenLen > maxTokenBytes \<or> 4 + tokenLen > length b then Fail ErrMalformedFrame
            else if t = FrameDeliver \<and> tokenLen \<noteq> 0 then Fail ErrMalformedFrame
            else rbind (subslice b 4 (4 + tokenLen)) (\<lambda>token.
                 rbind (subslice b (4 + tokenLen) (length b)) (\<lambda>payload.
                 Ok \<lparr>fr_Type = t, fr_Token = string_of token, fr_Payload = payload\<rparr>)))))))"

section \<open>Well-formed frames\<close>

text \<open>The frames the two ends exchange: a known type, a token that fits, none on a delivery.\<close>

definition frame_ok :: "frame \<Rightarrow> bool" where
  "frame_ok f \<longleftrightarrow> fr_Type f \<in> {FrameHello, FramePacket, FrameDeliver} \<and>
     length (fr_Token f) \<le> maxTokenBytes \<and> (fr_Type f = FrameDeliver \<longrightarrow> fr_Token f = '''')"

definition marshal_frame :: "frame \<Rightarrow> (frame_error, bytes) result" where
  "marshal_frame f = marshal (fr_Type f) (fr_Token f) (fr_Payload f)"

lemma ParseFrame_short: "length b < 4 \<Longrightarrow> ParseFrame b = Fail ErrFrameTooShort"
  by (simp add: ParseFrame_def)

lemma drop4: "drop (4 + n) (a # b # c # d # xs) = drop n xs"
  by (simp add: numeral_eq_Suc)

lemma ParseFrame_long:
  "ParseFrame (v # t # l0 # l1 # rest) =
     (let n = unat (be16 l0 l1) in
      if v \<noteq> frameVersion then Fail ErrFrameVersion
      else if t \<notin> {FrameHello, FramePacket, FrameDeliver} then Fail ErrFrameType
      else if n > maxTokenBytes \<or> n > length rest \<or> t = FrameDeliver \<and> n \<noteq> 0 then Fail ErrMalformedFrame
      else Ok \<lparr>fr_Type = t, fr_Token = string_of (take n rest), fr_Payload = drop n rest\<rparr>)"
  by (simp add: ParseFrame_def Let_def drop4)

lemma frame_cases:
  obtains "length b < 4" | v t l0 l1 rest where "b = v # t # l0 # l1 # (rest :: bytes)"
  by (cases b rule: list.exhaust; cases "tl b"; cases "tl (tl b)"; cases "tl (tl (tl b))") auto

lemma ParseFrame_total: "ParseFrame b \<noteq> Panic"
  by (cases b rule: frame_cases) (simp_all add: ParseFrame_short ParseFrame_long Let_def)

lemma ParseFrame_marshal:
  assumes "frame_ok f" "marshal_frame f = Ok b"
  shows "ParseFrame b = Ok f"
proof -
  obtain t tok pay where f: "f = \<lparr>fr_Type = t, fr_Token = tok, fr_Payload = pay\<rparr>" by (cases f)
  have len: "length tok \<le> 512" using assms(1) f by (simp add: frame_ok_def)
  have b: "b = [1, t] @ put16 (of_nat (length tok)) @ bytes_of tok @ pay"
    using assms(2) len f by (simp add: marshal_frame_def marshal_def)
  have "unat (of_nat (length tok) :: u16) = length tok"
    using len by (simp add: unat_of_nat take_bit_nat_eq_self)
  then show ?thesis
    using assms(1) f len
    by (simp add: b put16_def ParseFrame_long be16_put Let_def frame_ok_def)
qed

lemma ParseFrame_Ok:
  assumes "ParseFrame b = Ok f"
  shows "frame_ok f \<and> marshal_frame f = Ok b"
proof (cases b rule: frame_cases)
  case 1
  then show ?thesis using assms by (simp add: ParseFrame_short)
next
  case (2 v t l0 l1 rest)
  define n where "n = unat (be16 l0 l1)"
  have f: "v = 1" "t \<in> {1, 2, 3}" "n \<le> 512" "n \<le> length rest" "t = 3 \<Longrightarrow> n = 0"
    "f = \<lparr>fr_Type = t, fr_Token = string_of (take n rest), fr_Payload = drop n rest\<rparr>"
    using assms unfolding n_def by (simp_all add: 2 ParseFrame_long Let_def split: if_splits)
  have "put16 (of_nat n) = [l0, l1]" by (simp add: n_def put16_be)
  moreover have "length (string_of (take n rest)) = n" using f(4) by simp
  ultimately show ?thesis
    using f(1-5) unfolding f(6)
    by (simp add: frame_ok_def marshal_frame_def marshal_def 2) (auto simp: string_of_def)
qed


section \<open>Properties\<close>

text \<open>Parsing and marshalling are inverse to each other on well-formed frames, and no byte
  string makes the parser panic: a datagram parses to a frame exactly when it is the encoding of
  that frame, and a frame has an encoding exactly when its token is at most 512 bytes.\<close>

theorem frame_codec:
  "(ParseFrame b = Ok f \<longleftrightarrow> frame_ok f \<and> marshal_frame f = Ok b) \<and> ParseFrame b \<noteq> Panic \<and>
   (marshal_frame f = Fail ErrTokenTooLong \<longleftrightarrow> 512 < length (fr_Token f)) \<and> marshal_frame f \<noteq> Panic"
proof (intro conjI iffI)
  assume "ParseFrame b = Ok f"
  then show "frame_ok f" "marshal_frame f = Ok b" using ParseFrame_Ok by blast+
next
  assume "frame_ok f \<and> marshal_frame f = Ok b"
  then show "ParseFrame b = Ok f" using ParseFrame_marshal by blast
qed (simp_all add: ParseFrame_total marshal_frame_def marshal_def split: if_splits, linarith)

end
