(* ===== verification/GoFloat.thy ===== *)
theory GoFloat
  imports Complex_Main "HOL-Library.Log_Nat" Prelude
begin

text \<open>
  Go's \<open>float64\<close> arithmetic as the code uses it: the exact rational result of every operation
  is rounded to the nearest binary64 number, ties to even. Gradual underflow is included;
  overflow to infinity is not, since the only value that could overflow is capped at once.
\<close>

section \<open>Rounding to nearest, ties to even\<close>

definition rhe :: "rat \<Rightarrow> int" where
  "rhe x = (let f = \<lfloor>x\<rfloor>; d = x - of_int f in
     if d < 1 / 2 then f else if 1 / 2 < d then f + 1 else if even f then f else f + 1)"

text \<open>The exponent of a positive rational: the \<open>l\<close> with \<open>2 powi l \<le> x < 2 powi (l + 1)\<close>.\<close>

definition ilog2 :: "rat \<Rightarrow> int" where
  "ilog2 x = (let (p, q) = quotient_of x; k = bitlen p - bitlen q in
     if 2 powi k \<le> x then k else k - 1)"

definition round_pos :: "rat \<Rightarrow> rat" where
  "round_pos x = (let e = max (ilog2 x - 52) (- 1074) in of_int (rhe (x / 2 powi e)) * 2 powi e)"

definition fl64 :: "rat \<Rightarrow> rat" where
  "fl64 x = (if x = 0 then 0 else if x < 0 then - round_pos (- x) else round_pos x)"

lemma rhe_of_int [simp]: "rhe (of_int n) = n"
  by (simp add: rhe_def)

lemma rhe_bounds: "\<lfloor>x\<rfloor> \<le> rhe x" "rhe x \<le> \<lfloor>x\<rfloor> + 1"
  by (auto simp: rhe_def Let_def)

lemma rhe_mono: "x \<le> y \<Longrightarrow> rhe x \<le> rhe y"
proof -
  assume le: "x \<le> y"
  then have fl: "\<lfloor>x\<rfloor> \<le> \<lfloor>y\<rfloor>" by (rule floor_mono)
  show ?thesis
  proof (cases "\<lfloor>x\<rfloor> = \<lfloor>y\<rfloor>")
    case True
    then show ?thesis using le by (auto simp: rhe_def Let_def)
  next
    case False
    then show ?thesis using fl rhe_bounds [of x] rhe_bounds [of y] by linarith
  qed
qed

lemma bitlen_le: "0 < n \<Longrightarrow> (2 :: rat) powi (bitlen n - 1) \<le> of_int n"
  and bitlen_less: "0 < n \<Longrightarrow> of_int n < (2 :: rat) powi bitlen n"
proof -
  assume "0 < n"
  then have b: "2 ^ nat (bitlen n - 1) \<le> n" "n < 2 ^ nat (bitlen n)" "0 < bitlen n"
    using bitlen_bounds [of n] bitlen_nonneg [of n] bitlen_eq_zero_iff [of n] by auto
  then have "of_int (2 ^ nat (bitlen n - 1)) \<le> (of_int n :: rat)" by linarith
  then show "(2 :: rat) powi (bitlen n - 1) \<le> of_int n" using b(3) by (simp add: power_int_def)
  have "of_int n < (of_int (2 ^ nat (bitlen n)) :: rat)" using b by linarith
  then show "of_int n < (2 :: rat) powi bitlen n" using b(3) by (simp add: power_int_def)
qed

lemma ilog2_bounds:
  assumes "0 < x"
  shows "2 powi ilog2 x \<le> x" "x < 2 powi (ilog2 x + 1)"
proof -
  obtain p q where pq: "quotient_of x = (p, q)" by (cases "quotient_of x")
  have q: "0 < q" "x = of_int p / of_int q"
    using quotient_of_denom_pos [OF pq] quotient_of_div [OF pq] by auto
  then have p: "0 < p" using assms by (simp add: zero_less_divide_iff)
  define k where "k = bitlen p - bitlen q"
  have "(2 :: rat) powi (k - 1) * of_int q \<le> 2 powi (k - 1) * 2 powi bitlen q"
    using bitlen_less [OF q(1)] by (intro mult_left_mono) auto
  also have "\<dots> = (2 :: rat) powi (bitlen p - 1)"
    by (simp add: k_def flip: power_int_add)
  also have "\<dots> \<le> of_int p" by (rule bitlen_le [OF p])
  finally have lo: "2 powi (k - 1) \<le> x" using q by (simp add: le_divide_eq)
  have "of_int p < (2 :: rat) powi bitlen p" by (rule bitlen_less [OF p])
  also have "\<dots> = 2 powi (k + 1) * 2 powi (bitlen q - 1)"
    by (simp add: k_def flip: power_int_add)
  also have "\<dots> \<le> 2 powi (k + 1) * of_int q"
    using bitlen_le [OF q(1)] by (intro mult_left_mono) auto
  finally have hi: "x < 2 powi (k + 1)" using q by (simp add: divide_less_eq)
  have "ilog2 x = (if 2 powi k \<le> x then k else k - 1)"
    by (simp add: ilog2_def pq k_def Let_def)
  then show "2 powi ilog2 x \<le> x" "x < 2 powi (ilog2 x + 1)"
    using lo hi by (auto split: if_splits)
qed

lemma powi2_less_iff: "(2 :: rat) powi a < 2 powi b \<longleftrightarrow> a < b"
  by (metis linorder_neqE less_asym less_irrefl one_less_numeral_iff power_int_strict_increasing semiring_norm(76))

lemma powi2_le_iff: "(2 :: rat) powi a \<le> 2 powi b \<longleftrightarrow> a \<le> b"
  using powi2_less_iff [of b a] by (simp flip: not_less)

lemma ilog2_mono: "0 < x \<Longrightarrow> x \<le> y \<Longrightarrow> ilog2 x \<le> ilog2 y"
proof -
  assume "0 < x" "x \<le> y"
  then have "2 powi ilog2 x < (2 :: rat) powi (ilog2 y + 1)"
    using ilog2_bounds [of x] ilog2_bounds [of y] by linarith
  then show ?thesis by (simp add: powi2_less_iff)
qed

lemma powi2_int: "0 \<le> k \<Longrightarrow> (2 :: rat) powi k = of_int (2 ^ nat k)"
  by (simp add: power_int_def)

text \<open>A power of two within range bounds the rounded value like the value itself.\<close>

lemma round_pos_le_powi:
  assumes "0 < x" "x \<le> 2 powi L" "max (ilog2 x - 52) (- 1074) \<le> L"
  shows "round_pos x \<le> 2 powi L"
proof -
  define e where "e = max (ilog2 x - 52) (- 1074)"
  have "x / 2 powi e \<le> 2 powi L / 2 powi e" using assms(2) by (intro divide_right_mono) auto
  also have "\<dots> = of_int (2 ^ nat (L - e))"
    using assms(3) by (simp add: e_def powi2_int flip: power_int_diff)
  finally have "rhe (x / 2 powi e) \<le> 2 ^ nat (L - e)" using rhe_mono by (metis rhe_of_int)
  then have "of_int (rhe (x / 2 powi e)) \<le> (2 :: rat) powi (L - e)"
    using assms(3) powi2_int [of "L - e"] by (simp add: e_def)
  then have "of_int (rhe (x / 2 powi e)) * 2 powi e \<le> (2 :: rat) powi (L - e) * 2 powi e"
    by (intro mult_right_mono) auto
  then show ?thesis by (simp add: round_pos_def e_def Let_def flip: power_int_add)
qed

lemma round_pos_ge_powi:
  assumes "2 powi L \<le> x" "max (ilog2 x - 52) (- 1074) \<le> L"
  shows "2 powi L \<le> round_pos x"
proof -
  define e where "e = max (ilog2 x - 52) (- 1074)"
  have "of_int (2 ^ nat (L - e)) = (2 :: rat) powi L / 2 powi e"
    using assms(2) by (simp add: e_def powi2_int flip: power_int_diff)
  also have "\<dots> \<le> x / 2 powi e" using assms(1) by (intro divide_right_mono) auto
  finally have "2 ^ nat (L - e) \<le> rhe (x / 2 powi e)" using rhe_mono by (metis rhe_of_int)
  then have "(2 :: rat) powi (L - e) \<le> of_int (rhe (x / 2 powi e))"
    using assms(2) powi2_int [of "L - e"] by (simp add: e_def)
  then have "(2 :: rat) powi (L - e) * 2 powi e \<le> of_int (rhe (x / 2 powi e)) * 2 powi e"
    by (intro mult_right_mono) auto
  then show ?thesis by (simp add: round_pos_def e_def Let_def flip: power_int_add)
qed

lemma round_pos_nonneg: "0 < x \<Longrightarrow> 0 \<le> round_pos x"
  using rhe_mono [of 0 "x / 2 powi e" for e] rhe_of_int [of 0]
  by (auto simp: round_pos_def Let_def intro!: mult_nonneg_nonneg)

lemma round_pos_mono:
  assumes "0 < x" "x \<le> y"
  shows "round_pos x \<le> round_pos y"
proof -
  define ex where "ex = max (ilog2 x - 52) (- 1074)"
  define ey where "ey = max (ilog2 y - 52) (- 1074)"
  have il: "ilog2 x \<le> ilog2 y" by (rule ilog2_mono [OF assms])
  show ?thesis
  proof (cases "ex = ey")
    case True
    have "rhe (x / 2 powi ex) \<le> rhe (y / 2 powi ex)"
      using assms(2) by (intro rhe_mono divide_right_mono) auto
    then have "of_int (rhe (x / 2 powi ex)) * 2 powi ex \<le> (of_int (rhe (y / 2 powi ex)) :: rat) * 2 powi ex"
      by (intro mult_right_mono) auto
    then show ?thesis using True by (simp add: round_pos_def ex_def ey_def Let_def)
  next
    case False
    then have lt: "ilog2 x < ilog2 y" "ey = ilog2 y - 52" using il by (auto simp: ex_def ey_def)
    have "2 powi (ilog2 x + 1) \<le> (2 :: rat) powi ilog2 y" using lt(1) by (simp add: powi2_le_iff)
    then have "x \<le> 2 powi ilog2 y" using ilog2_bounds(2) [OF assms(1)] by linarith
    then have "round_pos x \<le> 2 powi ilog2 y"
      using lt by (intro round_pos_le_powi assms) (auto simp: ey_def)
    also have "\<dots> \<le> round_pos y"
      using assms ilog2_bounds(1) [of y] lt by (intro round_pos_ge_powi) (auto simp: ey_def)
    finally show ?thesis .
  qed
qed

lemma fl64_0 [simp]: "fl64 0 = 0"
  by (simp add: fl64_def)

lemma fl64_nonneg: "0 \<le> x \<Longrightarrow> 0 \<le> fl64 x"
  by (auto simp: fl64_def intro: round_pos_nonneg)

lemma fl64_mono: "x \<le> y \<Longrightarrow> fl64 x \<le> fl64 y"
  using round_pos_mono [of x y] round_pos_mono [of "- y" "- x"]
    round_pos_nonneg [of "- x"] round_pos_nonneg [of y]
  by (auto simp: fl64_def)

text \<open>Integers of up to 53 bits are exact.\<close>

lemma round_pos_of_nat: "0 < n \<Longrightarrow> n \<le> 2 ^ 53 \<Longrightarrow> round_pos (of_nat n) = of_nat n"
proof -
  assume n: "0 < n" "n \<le> 2 ^ 53"
  then have pos: "0 < (of_nat n :: rat)" by simp
  define e where "e = max (ilog2 (of_nat n) - 52) (- 1074)"
  have "2 powi ilog2 (of_nat n) \<le> (of_nat n :: rat)" by (rule ilog2_bounds(1) [OF pos])
  also have "\<dots> \<le> of_nat (2 ^ 53)" using n(2) by (simp only: of_nat_le_iff)
  also have "\<dots> = 2 powi 53" by (simp add: power_int_def)
  finally have le: "ilog2 (of_nat n) \<le> 53" by (simp only: powi2_le_iff)
  show ?thesis
  proof (cases "ilog2 (of_nat n) = 53")
    case True
    then have "(2 :: rat) powi 53 \<le> of_nat n" using ilog2_bounds(1) [OF pos] by simp
    then have "of_nat (2 ^ 53) \<le> (of_nat n :: rat)" by (simp add: power_int_def)
    then have "2 ^ 53 \<le> n" by (simp only: of_nat_le_iff)
    then have "n = 2 ^ 53" using n by simp
    moreover have "e = 1" using True by (simp add: e_def)
    ultimately have "(of_nat n :: rat) / 2 powi e = of_int (2 ^ 52)" by simp
    then have "rhe (of_nat n / 2 powi e) = 2 ^ 52" by (simp only: rhe_of_int)
    then show ?thesis using \<open>n = 2 ^ 53\<close> \<open>e = 1\<close>
      unfolding round_pos_def Let_def e_def [symmetric] by simp
  next
    case False
    then have e: "e \<le> 0" using le by (simp add: e_def)
    then have "(2 :: rat) powi - e = of_int (2 ^ nat (- e))" by (intro powi2_int) simp
    then have "(of_nat n :: rat) / 2 powi e = of_int (int n * 2 ^ nat (- e))"
      by (simp add: divide_inverse flip: power_int_minus)
    then have "rhe (of_nat n / 2 powi e) = int n * 2 ^ nat (- e)" by (simp only: rhe_of_int)
    then have "of_int (rhe (of_nat n / 2 powi e)) = (of_nat n :: rat) / 2 powi e"
      using \<open>(of_nat n :: rat) / 2 powi e = _\<close> by simp
    then show ?thesis unfolding round_pos_def Let_def e_def [symmetric] by simp
  qed
qed

lemma fl64_of_nat: "n \<le> 2 ^ 53 \<Longrightarrow> fl64 (of_nat n) = of_nat n"
  by (cases "n = 0") (auto simp: fl64_def round_pos_of_nat)

lemma fl64_of_int: "\<bar>n\<bar> \<le> 2 ^ 53 \<Longrightarrow> fl64 (of_int n) = of_int n"
proof -
  assume n: "\<bar>n\<bar> \<le> 2 ^ 53"
  have "round_pos (of_int m) = of_int m" if "0 < m" "m \<le> 2 ^ 53" for m
  proof -
    have "int (nat m) = m" using that by simp
    moreover have "round_pos (of_nat (nat m)) = of_nat (nat m)" using that by (intro round_pos_of_nat) auto
    ultimately show ?thesis by (metis of_int_of_nat_eq)
  qed
  from this [of n] this [of "- n"] show ?thesis using n by (auto simp: fl64_def)
qed

text \<open>Rounding a rounded number changes nothing.\<close>

definition is_f64 :: "rat \<Rightarrow> bool" where
  "is_f64 x \<longleftrightarrow> fl64 x = x"

lemma round_pos_idem: 
  assumes "0 < x"
  shows "round_pos x = 0 \<or> round_pos (round_pos x) = round_pos x"
proof (cases "round_pos x = 0")
  case False
  define e where "e = max (ilog2 x - 52) (- 1074)"
  define y where "y = round_pos x"
  have y: "y = of_int (rhe (x / 2 powi e)) * 2 powi e" by (simp add: y_def round_pos_def e_def Let_def)
  have ypos: "0 < y" using False round_pos_nonneg [OF assms] by (simp add: y_def)
  have "2 powi (ilog2 x + 1) \<ge> x" using ilog2_bounds(2) [OF assms] by simp
  then have "y \<le> 2 powi max (ilog2 x + 1) (- 1074)"
    unfolding y_def using assms powi2_le_iff [of "ilog2 x + 1" "max (ilog2 x + 1) (- 1074)"]
    by (intro round_pos_le_powi) (auto intro: order_trans)
  then have "2 powi ilog2 y \<le> (2 :: rat) powi max (ilog2 x + 1) (- 1074)"
    using ilog2_bounds(1) [OF ypos] by linarith
  then have ily: "ilog2 y \<le> max (ilog2 x + 1) (- 1074)" by (simp only: powi2_le_iff)
  define f where "f = max (ilog2 y - 52) (- 1074)"
  have "\<exists>k. y / 2 powi f = of_int k"
  proof (cases "f \<le> e")
    case True
    then have "(2 :: rat) powi e / 2 powi f = of_int (2 ^ nat (e - f))"
      by (simp add: powi2_int flip: power_int_diff)
    then have "y / 2 powi f = of_int (rhe (x / 2 powi e) * 2 ^ nat (e - f))"
      using y by (metis of_int_mult times_divide_eq_right)
    then show ?thesis ..
  next
    case False
    then have eqs: "ilog2 y = ilog2 x + 1" "f = e + 1" "e = ilog2 x - 52"
      using ily by (auto simp: e_def f_def max_def split: if_splits)
    have "2 powi (ilog2 x + 1) \<le> y" using ilog2_bounds(1) [OF ypos] eqs(1) by simp
    moreover have "y \<le> 2 powi (ilog2 x + 1)"
      using \<open>y \<le> 2 powi max (ilog2 x + 1) (- 1074)\<close> eqs by (simp add: e_def f_def max_def split: if_splits)
    ultimately have "y = 2 powi (ilog2 x + 1)" by simp
    then have "y / 2 powi f = 2 powi 52" using eqs by (simp flip: power_int_diff)
    then have "y / 2 powi f = of_int (2 ^ 52)" by (simp add: power_int_def)
    then show ?thesis ..
  qed
  then obtain k where k: "y / 2 powi f = of_int k" ..
  then have "round_pos y = of_int k * 2 powi f"
    unfolding round_pos_def Let_def f_def [symmetric] by simp
  then have "round_pos y = y" using k by (simp add: field_simps)
  then show ?thesis by (simp add: y_def)
qed simp

lemma is_f64_fl64 [simp]: "is_f64 (fl64 x)"
proof -
  have "fl64 (round_pos x) = round_pos x" if "0 < x" for x
    using round_pos_idem [OF that] round_pos_nonneg [OF that] by (auto simp: fl64_def)
  moreover have "fl64 (- y) = - fl64 y" for y by (auto simp: fl64_def)
  ultimately show ?thesis
    by (cases x "0 :: rat" rule: linorder_cases) (auto simp: is_f64_def fl64_def [of x])
qed

text \<open>The quotient of integers, towards zero.\<close>

definition trunc_div :: "int \<Rightarrow> int \<Rightarrow> int" where
  "trunc_div a b = sgn a * (\<bar>a\<bar> div b)"

text \<open>\<open>Duration.Seconds\<close>: whole seconds and the rest, added as floats.\<close>

definition duration_Seconds :: "duration \<Rightarrow> rat" where
  "duration_Seconds d =
     (let sec = trunc_div d Second; nsec = d - sec * Second
      in fl64 (fl64 (of_int sec) + fl64 (fl64 (of_int nsec) / 1000000000)))"

end
