(* ===== verification/RelayServer.thy ===== *)
theory RelayServer
  imports MeshRegistry PacketIPv4 RelayFrame GoFloat
begin

text \<open>
  The coordinator's UDP relay, \<open>internal/transport/relay.go\<close>: endpoint binding, the discovery
  guard (duplicate suppression and token bucket), unicast delivery and discovery broadcast.

  The registry is the interface value of \<open>MeshPeer\<close>. The clock is an argument of every
  operation that reads it, \<open>sha256\<close> the hash of the standard library, and \<open>wr k\<close> says whether
  the operating system takes the \<open>k\<close>-th datagram written during the call. A handler returns its
  error, the datagrams sent and the new state.
\<close>

section \<open>State\<close>

datatype relay_error =
    RelayFrameError frame_error
  | RelayPacketError packet_error
  | ErrUnauthorized
  | ErrDiscoveryRateLimited
  | ErrRelayLimit \<comment> \<open>IPv4 packet exceeds relay limit\<close>
  | ErrSourceMismatch addr addr \<comment> \<open>source IP does not match peer lease\<close>
  | ErrNotRegistered addr \<comment> \<open>destination is not a registered peer\<close>
  | ErrNoEndpoint string \<comment> \<open>peer has no active relay endpoint\<close>
  | ErrSocketWrite

record relay_options =
  ro_DiscoveryRate :: rat
  ro_DiscoveryBurst :: int
  ro_DiscoveryDedupWindow :: duration

record discovery_state =
  ds_tokens :: rat
  ds_lastRefill :: time
  ds_seen :: "bytes \<rightharpoonup> time"

record relay_endpoint =
  ep_addr :: udp_addr
  ep_observedAt :: time

record relay =
  rl_endpoints :: "string \<rightharpoonup> relay_endpoint"
  rl_discovery :: "string \<rightharpoonup> discovery_state"
  rl_options :: relay_options

record observed_candidate =
  oc_NodeID :: string
  oc_Endpoint :: string
  oc_ObservedAt :: time

definition normalizeRelayOptions :: "relay_options \<Rightarrow> relay_options" where
  "normalizeRelayOptions o0 =
     (let o1 = (if ro_DiscoveryRate o0 \<le> 0 then o0\<lparr>ro_DiscoveryRate := 20\<rparr> else o0);
          o2 = (if ro_DiscoveryBurst o1 \<le> 0 then o1\<lparr>ro_DiscoveryBurst := 40\<rparr> else o1)
      in if ro_DiscoveryDedupWindow o2 < 0
         then o2\<lparr>ro_DiscoveryDedupWindow := 750 * Millisecond\<rparr> else o2)"

definition NewRelay :: "relay_options \<Rightarrow> relay" where
  "NewRelay options =
     \<lparr>rl_endpoints = Map.empty, rl_discovery = Map.empty, rl_options = normalizeRelayOptions options\<rparr>"

text \<open>\<open>ListenRelay\<close>, once its socket is bound: the relay with the default options.\<close>

definition ListenRelay :: relay where
  "ListenRelay = NewRelay \<lparr>ro_DiscoveryRate = 0, ro_DiscoveryBurst = 0, ro_DiscoveryDedupWindow = -1\<rparr>"

section \<open>Endpoints\<close>

definition relay_bind :: "time \<Rightarrow> relay \<Rightarrow> string \<Rightarrow> udp_addr \<Rightarrow> relay" where
  "relay_bind now rl nodeID a =
     rl\<lparr>rl_endpoints := (rl_endpoints rl)(nodeID \<mapsto> \<lparr>ep_addr = a, ep_observedAt = now\<rparr>)\<rparr>"

definition relay_lookup :: "relay \<Rightarrow> string \<Rightarrow> udp_addr option" where
  "relay_lookup rl nodeID = map_option ep_addr (rl_endpoints rl nodeID)"

definition ForgetPeer :: "relay \<Rightarrow> string \<Rightarrow> relay" where
  "ForgetPeer rl nodeID =
     rl\<lparr>rl_endpoints := (rl_endpoints rl)(nodeID := None),
        rl_discovery := (rl_discovery rl)(nodeID := None)\<rparr>"

definition Candidates :: "relay \<Rightarrow> string list \<Rightarrow> observed_candidate list" where
  "Candidates rl ord =
     sort_key oc_NodeID
       (concat (map (\<lambda>nodeID. case rl_endpoints rl nodeID of
            None \<Rightarrow> []
          | Some e \<Rightarrow> [\<lparr>oc_NodeID = nodeID, oc_Endpoint = udp_String (ep_addr e),
                       oc_ObservedAt = ep_observedAt e\<rparr>]) ord))"

section \<open>The discovery guard\<close>

definition mdnsMulticast :: addr where "mdnsMulticast = AddrFrom4 224 0 0 251"
definition ssdpMulticast :: addr where "ssdpMulticast = AddrFrom4 239 255 255 250"

definition isDiscoveryPacket :: "bytes \<Rightarrow> addr \<Rightarrow> bool" where
  "isDiscoveryPacket payload destinationIP =
     (case IPv4UDPPorts payload of
        Ok (_, destinationPort) \<Rightarrow>
          if destinationIP = mdnsMulticast then destinationPort = 5353
          else if destinationIP = ssdpMulticast then destinationPort = 1900
          else False
      | _ \<Rightarrow> False)"

definition refill :: "time \<Rightarrow> relay_options \<Rightarrow> discovery_state \<Rightarrow> discovery_state" where
  "refill now options state =
     (let elapsed = duration_Seconds (time_Sub now (ds_lastRefill state))
      in if elapsed > 0
         then let tokens = fl64 (ds_tokens state + fl64 (elapsed * ro_DiscoveryRate options));
                  mx = fl64 (of_int (ro_DiscoveryBurst options))
              in state\<lparr>ds_tokens := (if tokens > mx then mx else tokens), ds_lastRefill := now\<rparr>
         else state)"

definition guardDiscovery ::
    "(bytes \<Rightarrow> bytes) \<Rightarrow> time \<Rightarrow> relay \<Rightarrow> string \<Rightarrow> bytes \<Rightarrow> (relay_error, bool) result \<times> relay" where
  "guardDiscovery sha256 now rl nodeID payload =
     (let fingerprint = sha256 payload;
          window = ro_DiscoveryDedupWindow (rl_options rl);
          state0 = (case rl_discovery rl nodeID of
             None \<Rightarrow> \<lparr>ds_tokens = fl64 (of_int (ro_DiscoveryBurst (rl_options rl))),
                      ds_lastRefill = now, ds_seen = Map.empty\<rparr>
           | Some state \<Rightarrow> state);
          put = (\<lambda>state. rl\<lparr>rl_discovery := (rl_discovery rl)(nodeID \<mapsto> state)\<rparr>);
          state1 = (if window > 0
             then state0\<lparr>ds_seen := delete_where (\<lambda>seenAt. time_Sub now seenAt \<ge> window) (ds_seen state0)\<rparr>
             else state0)
      in if window > 0 \<and> (case ds_seen state1 fingerprint of
             None \<Rightarrow> False | Some seenAt \<Rightarrow> time_Sub now seenAt < window)
         then (Ok True, put state1)
         else
           let state2 = refill now (rl_options rl) state1
           in if ds_tokens state2 < 1 then (Fail ErrDiscoveryRateLimited, put state2)
              else
                let state3 = state2\<lparr>ds_tokens := fl64 (ds_tokens state2 - 1)\<rparr>;
                    state4 = (if window > 0
                      then state3\<lparr>ds_seen := (ds_seen state3)(fingerprint \<mapsto> now)\<rparr> else state3)
                in (Ok False, put state4))"

section \<open>Delivery\<close>

type_synonym datagram = "udp_addr \<times> bytes"

definition deliver ::
    "(nat \<Rightarrow> bool) \<Rightarrow> nat \<Rightarrow> relay \<Rightarrow> string \<Rightarrow> bytes \<Rightarrow> (relay_error, datagram) result" where
  "deliver wr k rl nodeID payload =
     (case relay_lookup rl nodeID of
        None \<Rightarrow> Fail (ErrNoEndpoint nodeID)
      | Some a \<Rightarrow>
        rbind (map_err RelayFrameError (MarshalDeliver payload)) (\<lambda>frame.
          if wr k then Ok (a, frame) else Fail ErrSocketWrite))"

fun broadcast ::
    "(nat \<Rightarrow> bool) \<Rightarrow> relay \<Rightarrow> string \<Rightarrow> bytes \<Rightarrow> peer list \<Rightarrow> datagram list
     \<Rightarrow> (relay_error, unit) result \<times> datagram list" where
  "broadcast wr rl sourceNode payload [] sent = (Ok (), sent)"
| "broadcast wr rl sourceNode payload (peer # peers) sent =
     (if pr_NodeID peer = sourceNode then broadcast wr rl sourceNode payload peers sent
      else if relay_lookup rl (pr_NodeID peer) = None
        then broadcast wr rl sourceNode payload peers sent
      else case deliver wr (length sent) rl (pr_NodeID peer) payload of
        Fail e \<Rightarrow> (Fail e, sent)
      | Panic \<Rightarrow> (Panic, sent)
      | Ok d \<Rightarrow> broadcast wr rl sourceNode payload peers (sent @ [d]))"

text \<open>The part of \<open>handleDatagram\<close> after the frame's sender is known and bound.\<close>

definition relay_packet ::
    "(bytes \<Rightarrow> bytes) \<Rightarrow> peer_registry \<Rightarrow> (nat \<Rightarrow> bool) \<Rightarrow> time \<Rightarrow> relay \<Rightarrow> peer \<Rightarrow> bytes
     \<Rightarrow> (relay_error, unit) result \<times> datagram list \<times> relay" where
  "relay_packet sha256 registry wr now rl peer payload =
     (if length payload > 65535 then (Fail ErrRelayLimit, [], rl)
      else case IPv4Endpoints payload of
        Fail e \<Rightarrow> (Fail (RelayPacketError e), [], rl)
      | Panic \<Rightarrow> (Panic, [], rl)
      | Ok (sourceIP, destinationIP) \<Rightarrow>
        if sourceIP \<noteq> pr_VirtualIP peer then (Fail (ErrSourceMismatch sourceIP (pr_VirtualIP peer)), [], rl)
        else if isDiscoveryPacket payload destinationIP
        then (case guardDiscovery sha256 now rl (pr_NodeID peer) payload of
            (Fail e, rl') \<Rightarrow> (Fail e, [], rl')
          | (Panic, rl') \<Rightarrow> (Panic, [], rl')
          | (Ok True, rl') \<Rightarrow> (Ok (), [], rl')
          | (Ok False, rl') \<Rightarrow>
              (let (r, sent) = broadcast wr rl' (pr_NodeID peer) payload (pg_List registry) []
               in (r, sent, rl')))
        else (case pg_GetByVirtualIP registry destinationIP of
            None \<Rightarrow> (Fail (ErrNotRegistered destinationIP), [], rl)
          | Some destinationPeer \<Rightarrow>
              (case deliver wr 0 rl (pr_NodeID destinationPeer) payload of
                 Ok d \<Rightarrow> (Ok (), [d], rl)
               | Fail e \<Rightarrow> (Fail e, [], rl)
               | Panic \<Rightarrow> (Panic, [], rl))))"

definition handleDatagram ::
    "(bytes \<Rightarrow> bytes) \<Rightarrow> peer_registry \<Rightarrow> (nat \<Rightarrow> bool) \<Rightarrow> time \<Rightarrow> time \<Rightarrow> relay \<Rightarrow> bytes \<Rightarrow> udp_addr
     \<Rightarrow> (relay_error, unit) result \<times> datagram list \<times> relay" where
  "handleDatagram sha256 registry wr nowBind nowGuard rl b src =
     (case ParseFrame b of
        Fail e \<Rightarrow> (Fail (RelayFrameError e), [], rl)
      | Panic \<Rightarrow> (Panic, [], rl)
      | Ok frame \<Rightarrow>
        if fr_Type frame = FrameDeliver then (Fail ErrUnauthorized, [], rl)
        else case pg_GetByToken registry (fr_Token frame) of
          None \<Rightarrow> (Fail ErrUnauthorized, [], rl)
        | Some peer \<Rightarrow>
          let rl = relay_bind nowBind rl (pr_NodeID peer) src
          in if fr_Type frame = FrameHello then (Ok (), [], rl)
             else relay_packet sha256 registry wr nowGuard rl peer (fr_Payload frame))"


section \<open>What one datagram can send\<close>

definition deliver_frame :: "bytes \<Rightarrow> bytes" where
  "deliver_frame payload = [frameVersion, FrameDeliver, 0, 0] @ payload"

lemma MarshalDeliver_eq: "MarshalDeliver payload = Ok (deliver_frame payload)"
  by (simp add: MarshalDeliver_def marshal_def deliver_frame_def put16_def bytes_of_def)

lemma ParseFrame_deliver_frame:
  "ParseFrame (deliver_frame payload) = Ok \<lparr>fr_Type = FrameDeliver, fr_Token = '''', fr_Payload = payload\<rparr>"
  by (rule ParseFrame_marshal)
     (simp_all add: frame_ok_def marshal_frame_def MarshalDeliver_eq flip: MarshalDeliver_def)

lemma deliver_eq:
  "deliver wr k rl n payload =
     (case relay_lookup rl n of
        None \<Rightarrow> Fail (ErrNoEndpoint n)
      | Some a \<Rightarrow> if wr k then Ok (a, deliver_frame payload) else Fail ErrSocketWrite)"
  by (simp add: deliver_def MarshalDeliver_eq split: option.split)

text \<open>The endpoints a broadcast goes to: those of the listed peers, the sender apart.\<close>

definition recipients :: "relay \<Rightarrow> string \<Rightarrow> peer list \<Rightarrow> udp_addr list" where
  "recipients rl sourceNode peers =
     concat (map (\<lambda>p. if pr_NodeID p = sourceNode then []
        else case relay_lookup rl (pr_NodeID p) of None \<Rightarrow> [] | Some a \<Rightarrow> [a]) peers)"

lemma recipients_simps [simp]:
  "recipients rl s [] = []"
  "recipients rl s (p # ps) = (if pr_NodeID p = s then []
     else case relay_lookup rl (pr_NodeID p) of None \<Rightarrow> [] | Some a \<Rightarrow> [a]) @ recipients rl s ps"
  by (simp_all add: recipients_def)

lemma recipients_iff:
  "a \<in> set (recipients rl s ps) \<longleftrightarrow>
     (\<exists>p\<in>set ps. pr_NodeID p \<noteq> s \<and> relay_lookup rl (pr_NodeID p) = Some a)"
  by (induction ps) (auto split: option.split)

text \<open>The datagrams written before the first write the system refuses.\<close>

definition written :: "(nat \<Rightarrow> bool) \<Rightarrow> nat \<Rightarrow> 'a list \<Rightarrow> 'a list" where
  "written wr k xs = map snd (takeWhile (wr \<circ> fst) (enumerate k xs))"

lemma written_simps [simp]:
  "written wr k [] = []"
  "written wr k (x # xs) = (if wr k then x # written wr (Suc k) xs else [])"
  by (simp_all add: written_def)

lemma written_prefix: "\<exists>ys. xs = written wr k xs @ ys"
  by (induction xs arbitrary: k) auto

lemma written_all: "written wr k xs = xs \<longleftrightarrow> (\<forall>i<length xs. wr (k + i))"
proof (induction xs arbitrary: k)
  case (Cons x xs)
  show ?case by (simp add: Cons.IH All_less_Suc2)
qed simp

lemma broadcast_eq:
  "broadcast wr rl s payload ps sent =
     (let out = map (\<lambda>a. (a, deliver_frame payload)) (recipients rl s ps);
          sent' = sent @ written wr (length sent) out
      in (if written wr (length sent) out = out then Ok () else Fail ErrSocketWrite, sent'))"
  by (induction ps arbitrary: sent) (auto simp: deliver_eq Let_def split: option.split)

lemma relay_bind_lookup [simp]:
  "relay_lookup (relay_bind now rl n a) m = (if m = n then Some a else relay_lookup rl m)"
  by (simp add: relay_bind_def relay_lookup_def)


section \<open>The guard as a function of one peer's state\<close>

definition fresh_discovery :: "relay_options \<Rightarrow> time \<Rightarrow> discovery_state" where
  "fresh_discovery options now =
     \<lparr>ds_tokens = fl64 (of_int (ro_DiscoveryBurst options)), ds_lastRefill = now, ds_seen = Map.empty\<rparr>"

definition peer_discovery :: "relay \<Rightarrow> string \<Rightarrow> time \<Rightarrow> discovery_state" where
  "peer_discovery rl n now =
     (case rl_discovery rl n of None \<Rightarrow> fresh_discovery (rl_options rl) now | Some st \<Rightarrow> st)"

definition purge_seen :: "duration \<Rightarrow> time \<Rightarrow> discovery_state \<Rightarrow> discovery_state" where
  "purge_seen window now st =
     (if window > 0
      then st\<lparr>ds_seen := delete_where (\<lambda>seenAt. time_Sub now seenAt \<ge> window) (ds_seen st)\<rparr> else st)"

definition is_duplicate :: "duration \<Rightarrow> time \<Rightarrow> bytes \<Rightarrow> discovery_state \<Rightarrow> bool" where
  "is_duplicate window now fp st \<longleftrightarrow>
     window > 0 \<and> (\<exists>seenAt. ds_seen st fp = Some seenAt \<and> time_Sub now seenAt < window)"

definition take_token :: "duration \<Rightarrow> time \<Rightarrow> bytes \<Rightarrow> discovery_state \<Rightarrow> discovery_state" where
  "take_token window now fp st =
     st\<lparr>ds_tokens := fl64 (ds_tokens st - 1),
        ds_seen := (if window > 0 then (ds_seen st)(fp \<mapsto> now) else ds_seen st)\<rparr>"

definition guard_step ::
    "relay_options \<Rightarrow> time \<Rightarrow> bytes \<Rightarrow> discovery_state \<Rightarrow> (relay_error, bool) result \<times> discovery_state" where
  "guard_step options now fp st =
     (let w = ro_DiscoveryDedupWindow options; st1 = purge_seen w now st; st2 = refill now options st1
      in if is_duplicate w now fp st then (Ok True, st1)
         else if ds_tokens st2 < 1 then (Fail ErrDiscoveryRateLimited, st2)
         else (Ok False, take_token w now fp st2))"

lemma refill_frame [simp]: "ds_seen (refill now options st) = ds_seen st"
  by (simp add: refill_def Let_def)

lemma purge_seen_frame [simp]:
  "ds_tokens (purge_seen w now st) = ds_tokens st" "ds_lastRefill (purge_seen w now st) = ds_lastRefill st"
  by (simp_all add: purge_seen_def)

lemma purge_seen_Some:
  "ds_seen (purge_seen w now st) fp = Some t \<longleftrightarrow>
     ds_seen st fp = Some t \<and> (w > 0 \<longrightarrow> time_Sub now t < w)"
  by (auto simp: purge_seen_def not_le)

lemma is_duplicate_purged:
  "w > 0 \<and> (case ds_seen (purge_seen w now st) fp of None \<Rightarrow> False | Some t \<Rightarrow> time_Sub now t < w)
     \<longleftrightarrow> is_duplicate w now fp st"
  by (auto simp: is_duplicate_def purge_seen_Some split: option.split)
     (metis not_None_eq purge_seen_Some)

lemma guardDiscovery_eq:
  "guardDiscovery sha256 now rl n payload =
     (let (r, st) = guard_step (rl_options rl) now (sha256 payload) (peer_discovery rl n now)
      in (r, rl\<lparr>rl_discovery := (rl_discovery rl)(n \<mapsto> st)\<rparr>))"
proof -
  let ?w = "ro_DiscoveryDedupWindow (rl_options rl)" and ?st = "peer_discovery rl n now"
  have "take_token ?w now (sha256 payload) (refill now (rl_options rl) st) =
      (if ?w > 0 then (refill now (rl_options rl) st)\<lparr>ds_tokens := fl64 (ds_tokens (refill now (rl_options rl) st) - 1),
           ds_seen := (ds_seen (refill now (rl_options rl) st))(sha256 payload \<mapsto> now)\<rparr>
       else (refill now (rl_options rl) st)\<lparr>ds_tokens := fl64 (ds_tokens (refill now (rl_options rl) st) - 1)\<rparr>)" for st
    by (simp add: take_token_def)
  then show ?thesis
    unfolding guardDiscovery_def guard_step_def fresh_discovery_def [symmetric]
      peer_discovery_def [symmetric] purge_seen_def [symmetric] Let_def
    by (simp add: is_duplicate_purged)
qed

lemma guard_step_cases:
  obtains (dup) "is_duplicate (ro_DiscoveryDedupWindow o') now fp st"
      "guard_step o' now fp st = (Ok True, purge_seen (ro_DiscoveryDedupWindow o') now st)"
  | (limited) "\<not> is_duplicate (ro_DiscoveryDedupWindow o') now fp st"
      "ds_tokens (refill now o' (purge_seen (ro_DiscoveryDedupWindow o') now st)) < 1"
      "guard_step o' now fp st = (Fail ErrDiscoveryRateLimited, refill now o' (purge_seen (ro_DiscoveryDedupWindow o') now st))"
  | (pass) "\<not> is_duplicate (ro_DiscoveryDedupWindow o') now fp st"
      "1 \<le> ds_tokens (refill now o' (purge_seen (ro_DiscoveryDedupWindow o') now st))"
      "guard_step o' now fp st = (Ok False, take_token (ro_DiscoveryDedupWindow o') now fp
         (refill now o' (purge_seen (ro_DiscoveryDedupWindow o') now st)))"
  by (cases "is_duplicate (ro_DiscoveryDedupWindow o') now fp st";
      cases "ds_tokens (refill now o' (purge_seen (ro_DiscoveryDedupWindow o') now st)) < 1")
     (simp_all add: guard_step_def Let_def not_less)

lemma guardDiscovery_frame:
  "rl_endpoints (snd (guardDiscovery sha256 now rl n payload)) = rl_endpoints rl"
  "rl_options (snd (guardDiscovery sha256 now rl n payload)) = rl_options rl"
  "m \<noteq> n \<Longrightarrow> rl_discovery (snd (guardDiscovery sha256 now rl n payload)) m = rl_discovery rl m"
  by (simp_all add: guardDiscovery_eq split: prod.split)

lemma guardDiscovery_lookup:
  "guardDiscovery sha256 now rl n payload = (r, rl') \<Longrightarrow> relay_lookup rl' = relay_lookup rl"
  using guardDiscovery_frame(1) [of sha256 now rl n payload]
  by (simp add: fun_eq_iff relay_lookup_def)

lemma guardDiscovery_cases:
  obtains (dup) rl' where "guardDiscovery sha256 now rl n payload = (Ok True, rl')"
  | (pass) rl' where "guardDiscovery sha256 now rl n payload = (Ok False, rl')"
  | (limited) rl' where "guardDiscovery sha256 now rl n payload = (Fail ErrDiscoveryRateLimited, rl')"
  by (cases rule: guard_step_cases [of "rl_options rl" now "sha256 payload" "peer_discovery rl n now"])
     (auto simp: guardDiscovery_eq)


section \<open>Who may send what to whom\<close>

lemma relay_packet_total: "fst (relay_packet sha256 registry wr now rl peer payload) \<noteq> Panic"
proof (cases "IPv4Endpoints payload")
  case (Ok sd)
  show ?thesis
    by (cases sd; cases rule: guardDiscovery_cases [of sha256 now rl "pr_NodeID peer" payload])
       (simp_all add: relay_packet_def Ok broadcast_eq deliver_eq Let_def split: option.split)
qed (simp_all add: relay_packet_def IPv4Endpoints_total)

lemma handleDatagram_total: "fst (handleDatagram sha256 registry wr t1 t2 rl b src) \<noteq> Panic"
  using ParseFrame_total [of b]
  by (auto simp: handleDatagram_def Let_def relay_packet_total split: result.split option.split)

lemma relay_packet_frame:
  assumes "relay_packet sha256 registry wr now rl peer payload = (r, sent, rl')"
  shows "rl_endpoints rl' = rl_endpoints rl" "rl_options rl' = rl_options rl"
    "m \<noteq> pr_NodeID peer \<Longrightarrow> rl_discovery rl' m = rl_discovery rl m"
proof -
  have "rl' = rl \<or> rl' = snd (guardDiscovery sha256 now rl (pr_NodeID peer) payload)"
    using assms unfolding relay_packet_def
    by (cases rule: guardDiscovery_cases [of sha256 now rl "pr_NodeID peer" payload])
       (auto split: if_splits result.splits option.splits prod.splits)
  then show "rl_endpoints rl' = rl_endpoints rl" "rl_options rl' = rl_options rl"
    "m \<noteq> pr_NodeID peer \<Longrightarrow> rl_discovery rl' m = rl_discovery rl m"
    by (auto simp: guardDiscovery_frame)
qed

lemma relay_packet_sent:
  assumes "relay_packet sha256 registry wr now rl peer payload = (r, sent, rl')" "x \<in> set sent"
  shows "\<exists>dst. IPv4Endpoints payload = Ok (pr_VirtualIP peer, dst) \<and> length payload \<le> 65535 \<and>
    (if isDiscoveryPacket payload dst
     then fst (guardDiscovery sha256 now rl (pr_NodeID peer) payload) = Ok False \<and>
          (\<exists>a. x = (a, deliver_frame payload) \<and> a \<in> set (recipients rl (pr_NodeID peer) (pg_List registry)))
     else \<exists>q a. pg_GetByVirtualIP registry dst = Some q \<and> relay_lookup rl (pr_NodeID q) = Some a \<and>
          sent = [(a, deliver_frame payload)])"
proof -
  obtain src dst where e: "IPv4Endpoints payload = Ok (src, dst)" and src: "src = pr_VirtualIP peer"
    and len: "length payload \<le> 65535"
    using assms by (auto simp: relay_packet_def split: if_splits result.splits)
  show ?thesis
  proof (cases "isDiscoveryPacket payload dst")
    case True
    obtain rl1 where g: "guardDiscovery sha256 now rl (pr_NodeID peer) payload = (Ok False, rl1)"
      using assms e True src len
      by (cases rule: guardDiscovery_cases [of sha256 now rl "pr_NodeID peer" payload])
         (auto simp: relay_packet_def)
    have rec: "recipients rl1 n ps = recipients rl n ps" for n ps
      by (simp only: recipients_def guardDiscovery_lookup [OF g])
    let ?out = "map (\<lambda>a. (a, deliver_frame payload)) (recipients rl (pr_NodeID peer) (pg_List registry))"
    have "sent = written wr 0 ?out"
      using assms(1) e True src len g by (auto simp: relay_packet_def broadcast_eq rec Let_def)
    then have "set sent \<subseteq> set ?out"
      using written_prefix [of ?out wr 0] by (metis set_append Un_upper1)
    then show ?thesis using assms(2) e src len True g by auto
  next
    case False
    then show ?thesis using assms e src len
      by (auto simp: relay_packet_def deliver_eq split: option.splits if_splits)
  qed
qed

lemma handleDatagram_sent:
  assumes h: "handleDatagram sha256 registry wr t1 t2 rl b src = (r, sent, rl')" and x: "x \<in> set sent"
  obtains fr peer where "ParseFrame b = Ok fr" "fr_Type fr = FramePacket"
    "pg_GetByToken registry (fr_Token fr) = Some peer"
    "relay_packet sha256 registry wr t2 (relay_bind t1 rl (pr_NodeID peer) src) peer (fr_Payload fr) = (r, sent, rl')"
proof -
  obtain fr where fr: "ParseFrame b = Ok fr"
    using h x by (cases "ParseFrame b") (auto simp: handleDatagram_def)
  then have "fr_Type fr \<in> {FrameHello, FramePacket, FrameDeliver}"
    using ParseFrame_Ok [of b fr] by (simp add: frame_ok_def)
  then show thesis
    using h x fr that by (auto simp: handleDatagram_def Let_def split: option.splits if_splits)
qed

text \<open>A datagram changes at most the state of the peer whose token it carries.\<close>

lemma handleDatagram_state:
  assumes "handleDatagram sha256 registry wr t1 t2 rl b src = (res, sent, rl')"
  shows "rl' = rl \<or> (\<exists>p. (\<exists>t. pg_GetByToken registry t = Some p) \<and>
      rl_endpoints rl' = (rl_endpoints rl)(pr_NodeID p \<mapsto> \<lparr>ep_addr = src, ep_observedAt = t1\<rparr>) \<and>
      rl_options rl' = rl_options rl \<and>
      (\<forall>m. m \<noteq> pr_NodeID p \<longrightarrow> rl_discovery rl' m = rl_discovery rl m))"
proof (cases "rl' = rl")
  case False
  then obtain fr where fr: "ParseFrame b = Ok fr"
    using assms by (cases "ParseFrame b") (auto simp: handleDatagram_def)
  then obtain p where p: "pg_GetByToken registry (fr_Token fr) = Some p"
    using False assms by (auto simp: handleDatagram_def split: option.splits if_splits)
  then have s: "rl' = relay_bind t1 rl (pr_NodeID p) src \<or>
      (\<exists>r1. relay_packet sha256 registry wr t2 (relay_bind t1 rl (pr_NodeID p) src) p (fr_Payload fr) = (r1, sent, rl'))"
    using False assms fr by (auto simp: handleDatagram_def Let_def split: if_splits)
  from s show ?thesis
  proof
    assume "rl' = relay_bind t1 rl (pr_NodeID p) src"
    then show ?thesis using p by (auto simp: relay_bind_def)
  next
    assume "\<exists>r1. relay_packet sha256 registry wr t2 (relay_bind t1 rl (pr_NodeID p) src) p (fr_Payload fr) = (r1, sent, rl')"
    then obtain r1 where "relay_packet sha256 registry wr t2 (relay_bind t1 rl (pr_NodeID p) src) p (fr_Payload fr) = (r1, sent, rl')" ..
    from relay_packet_frame [OF this] show ?thesis using p by (auto simp: relay_bind_def)
  qed
qed simp

context peer_directory
begin

text \<open>The datagrams a frame causes: the authenticated peer's own packet, to other live peers.\<close>

lemma relay_authorised:
  assumes ok: "dir_ok s"
    and h: "handleDatagram sha256 (view s) wr t1 t2 rl b src = (r, sent, rl')"
    and x: "(a, out) \<in> set sent"
  shows "\<exists>fr peer dst q. ParseFrame b = Ok fr \<and> fr_Type fr = FramePacket \<and>
    peer \<in> set (pg_List (view s)) \<and> pr_SessionToken peer = fr_Token fr \<and>
    IPv4Endpoints (fr_Payload fr) = Ok (pr_VirtualIP peer, dst) \<and>
    ParseFrame out = Ok \<lparr>fr_Type = FrameDeliver, fr_Token = '''', fr_Payload = fr_Payload fr\<rparr> \<and>
    q \<in> set (pg_List (view s)) \<and> relay_lookup rl' (pr_NodeID q) = Some a \<and>
    (if isDiscoveryPacket (fr_Payload fr) dst then pr_NodeID q \<noteq> pr_NodeID peer else pr_VirtualIP q = dst)"
proof -
  obtain fr peer where fr: "ParseFrame b = Ok fr" "fr_Type fr = FramePacket"
    and peer: "pg_GetByToken (view s) (fr_Token fr) = Some peer"
    and rp: "relay_packet sha256 (view s) wr t2 (relay_bind t1 rl (pr_NodeID peer) src) peer (fr_Payload fr) = (r, sent, rl')"
    using handleDatagram_sent [OF h x] by metis
  let ?rl = "relay_bind t1 rl (pr_NodeID peer) src"
  have look: "relay_lookup rl' n = relay_lookup ?rl n" for n
    by (simp add: relay_lookup_def relay_packet_frame(1) [OF rp])
  obtain dst where dst: "IPv4Endpoints (fr_Payload fr) = Ok (pr_VirtualIP peer, dst)"
    and to: "if isDiscoveryPacket (fr_Payload fr) dst
     then fst (guardDiscovery sha256 t2 ?rl (pr_NodeID peer) (fr_Payload fr)) = Ok False \<and>
          (\<exists>a'. (a, out) = (a', deliver_frame (fr_Payload fr)) \<and> a' \<in> set (recipients ?rl (pr_NodeID peer) (pg_List (view s))))
     else \<exists>q a'. pg_GetByVirtualIP (view s) dst = Some q \<and> relay_lookup ?rl (pr_NodeID q) = Some a' \<and>
          sent = [(a', deliver_frame (fr_Payload fr))]"
    using relay_packet_sent [OF rp x] by blast
  obtain q where "out = deliver_frame (fr_Payload fr)" "q \<in> set (pg_List (view s))"
    "relay_lookup rl' (pr_NodeID q) = Some a"
    "if isDiscoveryPacket (fr_Payload fr) dst then pr_NodeID q \<noteq> pr_NodeID peer else pr_VirtualIP q = dst"
    using to x unfolding look
    by (cases "isDiscoveryPacket (fr_Payload fr) dst") (auto simp: recipients_iff dest: vip_listed [OF ok])
  then show ?thesis
    using fr dst token_listed [OF ok peer] ParseFrame_deliver_frame by metis
qed

text \<open>A listed peer's packet to another listed peer with an endpoint arrives there, unchanged.\<close>

lemma relay_unicast:
  assumes ok: "dir_ok s" and p: "p \<in> set (pg_List (view s))" and q: "q \<in> set (pg_List (view s))"
    and b: "MarshalPacket (pr_SessionToken p) payload = Ok b"
    and e: "IPv4Endpoints payload = Ok (pr_VirtualIP p, pr_VirtualIP q)"
    and len: "length payload \<le> 65535" and nd: "\<not> isDiscoveryPacket payload (pr_VirtualIP q)"
    and bound: "relay_lookup (relay_bind t1 rl (pr_NodeID p) src) (pr_NodeID q) = Some a" and wr: "wr 0"
  shows "handleDatagram sha256 (view s) wr t1 t2 rl b src =
    (Ok (), [(a, deliver_frame payload)], relay_bind t1 rl (pr_NodeID p) src)"
proof -
  have "ParseFrame b = Ok \<lparr>fr_Type = FramePacket, fr_Token = pr_SessionToken p, fr_Payload = payload\<rparr>"
    using b by (intro ParseFrame_marshal)
      (auto simp: frame_ok_def marshal_frame_def MarshalPacket_def marshal_def split: if_splits)
  then show ?thesis
    using assms listed_token [OF ok p] listed_vip [OF ok q]
    by (simp add: handleDatagram_def relay_packet_def deliver_eq Let_def)
qed

end


section \<open>The token bucket and the duplicate window\<close>

definition bucket_ok :: "relay_options \<Rightarrow> discovery_state \<Rightarrow> bool" where
  "bucket_ok options st \<longleftrightarrow> 0 \<le> ds_tokens st \<and> ds_tokens st \<le> fl64 (of_int (ro_DiscoveryBurst options)) \<and>
     is_f64 (ds_tokens st)"

definition relay_inv :: "relay \<Rightarrow> bool" where
  "relay_inv rl \<longleftrightarrow> 0 < ro_DiscoveryRate (rl_options rl) \<and> 0 < ro_DiscoveryBurst (rl_options rl) \<and>
     0 \<le> ro_DiscoveryDedupWindow (rl_options rl) \<and>
     (\<forall>n st. rl_discovery rl n = Some st \<longrightarrow> bucket_ok (rl_options rl) st)"

lemma NewRelay_inv [inv_intros]: "relay_inv (NewRelay options)"
  by (simp add: relay_inv_def NewRelay_def normalizeRelayOptions_def Let_def Millisecond_def)

lemma relay_bind_inv [inv_intros]: "relay_inv rl \<Longrightarrow> relay_inv (relay_bind now rl n a)"
  by (simp add: relay_inv_def relay_bind_def)

lemma ForgetPeer_inv [inv_intros]: "relay_inv rl \<Longrightarrow> relay_inv (ForgetPeer rl n)"
  by (simp add: relay_inv_def ForgetPeer_def)

lemma refill_bucket:
  "0 < ro_DiscoveryRate options \<Longrightarrow> bucket_ok options st \<Longrightarrow> bucket_ok options (refill now options st)"
  by (auto simp: bucket_ok_def refill_def Let_def intro!: fl64_nonneg add_nonneg_nonneg)

lemma peer_discovery_bucket: "relay_inv rl \<Longrightarrow> bucket_ok (rl_options rl) (peer_discovery rl n now)"
  by (auto simp: relay_inv_def peer_discovery_def fresh_discovery_def bucket_ok_def intro: fl64_nonneg
      split: option.split)

lemma guard_step_bucket:
  assumes rate: "0 < ro_DiscoveryRate options" and st: "bucket_ok options st"
  shows "bucket_ok options (snd (guard_step options now fp st))"
proof -
  have purged: "bucket_ok options (purge_seen w now st)" for w using st by (simp add: bucket_ok_def)
  note filled = refill_bucket [OF rate purged]
  show ?thesis
  proof (cases rule: guard_step_cases [of options now fp st])
    case pass
    let ?t = "ds_tokens (refill now options (purge_seen (ro_DiscoveryDedupWindow options) now st))"
    have "fl64 (?t - 1) \<le> fl64 (fl64 (of_int (ro_DiscoveryBurst options)))"
    proof (rule fl64_mono)
      have "?t \<le> fl64 (of_int (ro_DiscoveryBurst options))" using filled by (simp add: bucket_ok_def)
      then show "?t - 1 \<le> fl64 (of_int (ro_DiscoveryBurst options))" by simp
    qed
    moreover have "fl64 (fl64 (of_int (ro_DiscoveryBurst options))) = fl64 (of_int (ro_DiscoveryBurst options))"
      using is_f64_fl64 by (simp add: is_f64_def)
    ultimately show ?thesis using pass by (simp add: bucket_ok_def take_token_def fl64_nonneg)
  qed (simp_all add: purged filled)
qed

lemma guardDiscovery_inv [inv_intros]:
  assumes "relay_inv rl"
  shows "relay_inv (snd (guardDiscovery sha256 now rl n payload))"
  using assms guard_step_bucket [OF _ peer_discovery_bucket [OF assms], of now "sha256 payload" n now]
  by (auto simp: relay_inv_def guardDiscovery_eq split: prod.split)

lemma relay_packet_inv:
  assumes "relay_inv rl"
  shows "relay_inv (snd (snd (relay_packet sha256 registry wr now rl peer payload)))"
proof -
  have "snd (snd (relay_packet sha256 registry wr now rl peer payload)) \<in>
      {rl, snd (guardDiscovery sha256 now rl (pr_NodeID peer) payload)}"
    by (cases rule: guardDiscovery_cases [of sha256 now rl "pr_NodeID peer" payload])
       (auto simp: relay_packet_def split: result.split option.split prod.split)
  then show ?thesis using assms guardDiscovery_inv [OF assms] by auto
qed

lemma handleDatagram_inv [inv_intros]:
  "relay_inv rl \<Longrightarrow> relay_inv (snd (snd (handleDatagram sha256 registry wr t1 t2 rl b src)))"
  by (auto simp: handleDatagram_def Let_def relay_packet_inv relay_bind_inv split: result.split option.split)

text \<open>A sequence of discovery packets, of any peers, each at its own time.\<close>

fun guard_calls ::
    "(bytes \<Rightarrow> bytes) \<Rightarrow> relay \<Rightarrow> (time \<times> string \<times> bytes) list
     \<Rightarrow> (string \<times> (relay_error, bool) result) list \<times> relay" where
  "guard_calls sha256 rl [] = ([], rl)"
| "guard_calls sha256 rl ((now, n, payload) # calls) =
     (let (r, rl1) = guardDiscovery sha256 now rl n payload;
          (rs, rl2) = guard_calls sha256 rl1 calls
      in ((n, r) # rs, rl2))"

definition passed :: "string \<Rightarrow> (string \<times> (relay_error, bool) result) list \<Rightarrow> nat" where
  "passed n rs = count_list rs (n, Ok False)"

lemma duration_Seconds_0 [simp]: "duration_Seconds 0 = 0"
  by (simp add: duration_Seconds_def trunc_div_def Let_def)

lemma time_Sub_self [simp]: "time_Sub t t = 0"
  by (simp add: time_Sub_def int64_max_def int64_min_def)

lemma refill_idem [simp]: "refill now o' (refill now o' st) = refill now o' st"
  by (simp add: refill_def Let_def)

lemma refill_commute:
  "refill now o' (purge_seen w now st) = purge_seen w now (refill now o' st)"
  "refill now o' (take_token w now fp (refill now o' st)) = take_token w now fp (refill now o' st)"
  by (simp_all add: refill_def purge_seen_def take_token_def Let_def)

text \<open>What the bucket holds at a moment, once refilled.\<close>

definition available :: "relay \<Rightarrow> string \<Rightarrow> time \<Rightarrow> rat" where
  "available rl n now = ds_tokens (refill now (rl_options rl) (peer_discovery rl n now))"

lemma available_le_burst:
  assumes "relay_inv rl"
  shows "available rl n now \<le> fl64 (of_int (ro_DiscoveryBurst (rl_options rl)))"
proof -
  have "bucket_ok (rl_options rl) (refill now (rl_options rl) (peer_discovery rl n now))"
    using assms by (intro refill_bucket peer_discovery_bucket) (simp add: relay_inv_def)
  then show ?thesis by (simp add: available_def bucket_ok_def)
qed

lemma peer_discovery_upd [simp]:
  "peer_discovery (rl\<lparr>rl_discovery := (rl_discovery rl)(n \<mapsto> st)\<rparr>) m now =
     (if m = n then st else peer_discovery rl m now)"
  by (simp add: peer_discovery_def split: option.split)

lemma refill_purge [simp]:
  "ds_tokens (refill now o' (purge_seen w t st)) = ds_tokens (refill now o' st)"
  by (simp add: refill_def Let_def)

text \<open>At one moment a bucket of at most \<open>k\<close> tokens lets at most \<open>k\<close> packets pass.\<close>

lemma guard_available:
  assumes g: "guardDiscovery sha256 now rl n payload = (r, rl')" and k: "available rl m now \<le> of_nat k" "k \<le> 2 ^ 53"
  shows "available rl' m now \<le> of_nat (k - of_bool (n = m \<and> r = Ok False))"
    "n = m \<and> r = Ok False \<Longrightarrow> 0 < k"
proof -
  let ?o = "rl_options rl" and ?st = "peer_discovery rl n now"
  let ?w = "ro_DiscoveryDedupWindow ?o"
  have sel: "r = fst (guard_step ?o now (sha256 payload) ?st)"
    "rl' = rl\<lparr>rl_discovery := (rl_discovery rl)(n \<mapsto> snd (guard_step ?o now (sha256 payload) ?st))\<rparr>"
    using g by (simp_all add: guardDiscovery_eq split: prod.splits)
  show "available rl' m now \<le> of_nat (k - of_bool (n = m \<and> r = Ok False))"
  proof (cases "n = m")
    case True
    show ?thesis
    proof (cases rule: guard_step_cases [of ?o now "sha256 payload" ?st])
      case pass
      have "fl64 (available rl n now - 1) \<le> fl64 (of_nat (k - 1))"
      proof (rule fl64_mono)
        have "1 \<le> available rl m now" using pass True by (simp add: available_def)
        then have "(1 :: rat) \<le> of_nat k" using k by linarith
        then have "of_nat (k - 1) = (of_nat k - 1 :: rat)" by (simp add: of_nat_diff)
        then show "available rl n now - 1 \<le> of_nat (k - 1)" using k True by simp
      qed
      also have "\<dots> = of_nat (k - 1)" using k by (intro fl64_of_nat) simp
      finally show ?thesis using pass True
        by (simp add: sel available_def refill_commute(2)) (simp add: take_token_def)
    qed (use True k in \<open>simp_all add: sel available_def\<close>)
  qed (use k in \<open>simp add: sel available_def\<close>)
  show "n = m \<and> r = Ok False \<Longrightarrow> 0 < k"
  proof (cases rule: guard_step_cases [of ?o now "sha256 payload" ?st])
    case pass
    then have "n = m \<Longrightarrow> (1 :: rat) \<le> of_nat k" using k by (simp add: available_def)
    then show "n = m \<and> r = Ok False \<Longrightarrow> 0 < k" by (cases k) auto
  qed (simp_all add: sel)
qed

lemma passed_bound:
  assumes "guard_calls sha256 rl calls = (rs, rl')" "\<forall>(t, n, p)\<in>set calls. t = now"
    "available rl m now \<le> of_nat k" "k \<le> 2 ^ 53"
  shows "passed m rs \<le> k"
  using assms
proof (induction calls arbitrary: rl rs rl' k)
  case (Cons c calls)
  obtain n payload where c: "c = (now, n, payload)" using Cons.prems(2) by (cases c) auto
  obtain r rl1 where g: "guardDiscovery sha256 now rl n payload = (r, rl1)" by fastforce
  obtain rs1 where rest: "guard_calls sha256 rl1 calls = (rs1, rl')" and rs: "rs = (n, r) # rs1"
    using Cons.prems(1) by (auto simp: c g split: prod.splits)
  note a = guard_available [OF g Cons.prems(3,4)]
  have "passed m rs1 \<le> k - of_bool (n = m \<and> r = Ok False)"
    using Cons.prems(2,4) by (intro Cons.IH [OF rest _ a(1)]) auto
  then show ?case using a(2) by (auto simp: passed_def rs split: if_splits)
qed (simp add: passed_def)

lemma guard_seen:
  assumes g: "guardDiscovery sha256 now rl n payload = (r, rl')" and w: "ro_DiscoveryDedupWindow (rl_options rl) = w" "0 < w"
    and seen: "ds_seen (peer_discovery rl m now) fp = Some t0" "time_Sub now t0 < w"
    and old: "rl_discovery rl m \<noteq> None"
  shows "ds_seen (peer_discovery rl' m t) fp = Some t0" "rl_discovery rl' m \<noteq> None"
    "n = m \<Longrightarrow> sha256 payload = fp \<Longrightarrow> r = Ok True \<and> available rl' m now = available rl m now"
proof -
  let ?o = "rl_options rl" and ?st = "peer_discovery rl n now"
  have sel: "r = fst (guard_step ?o now (sha256 payload) ?st)"
    "rl' = rl\<lparr>rl_discovery := (rl_discovery rl)(n \<mapsto> snd (guard_step ?o now (sha256 payload) ?st))\<rparr>"
    using g by (simp_all add: guardDiscovery_eq split: prod.splits)
  have same: "peer_discovery rl m t = peer_discovery rl m now" for t
    using old by (auto simp: peer_discovery_def)
  show "ds_seen (peer_discovery rl' m t) fp = Some t0"
  proof (cases "n = m")
    case True
    show ?thesis
      by (cases rule: guard_step_cases [of ?o now "sha256 payload" ?st])
         (use True seen w in \<open>auto simp: sel purge_seen_Some take_token_def is_duplicate_def\<close>)
  qed (use seen same [of t] in \<open>simp add: sel\<close>)
  show "rl_discovery rl' m \<noteq> None" using old by (simp add: sel)
  show "n = m \<Longrightarrow> sha256 payload = fp \<Longrightarrow> r = Ok True \<and> available rl' m now = available rl m now"
    by (cases rule: guard_step_cases [of ?o now "sha256 payload" ?st])
       (use seen w in \<open>auto simp: sel is_duplicate_def available_def\<close>)
qed

lemma guard_calls_frame:
  "guard_calls sha256 rl calls = (rs, rl') \<Longrightarrow> rl_options rl' = rl_options rl \<and> rl_endpoints rl' = rl_endpoints rl"
proof (induction calls arbitrary: rl rs)
  case (Cons c calls)
  obtain now n payload where c: "c = (now, n, payload)" by (cases c)
  obtain r rl1 where g: "guardDiscovery sha256 now rl n payload = (r, rl1)" by fastforce
  show ?case using Cons guardDiscovery_frame(1,2) [of sha256 now rl n payload]
    by (auto simp: c g split: prod.splits)
qed simp

text \<open>A packet let through is not let through again while the window lasts.\<close>

lemma guard_calls_seen:
  assumes "guard_calls sha256 rl calls = (rs, rl')" "ro_DiscoveryDedupWindow (rl_options rl) = w" "0 < w"
    "\<forall>(t, n, p)\<in>set calls. time_Sub t t0 < w"
    "\<And>t. ds_seen (peer_discovery rl m t) fp = Some t0" "rl_discovery rl m \<noteq> None"
  shows "ds_seen (peer_discovery rl' m t) fp = Some t0 \<and> rl_discovery rl' m \<noteq> None"
  using assms
proof (induction calls arbitrary: rl rs)
  case (Cons c calls)
  obtain now n payload where c: "c = (now, n, payload)" by (cases c)
  obtain r rl1 where g: "guardDiscovery sha256 now rl n payload = (r, rl1)" by fastforce
  obtain rs1 where rest: "guard_calls sha256 rl1 calls = (rs1, rl')"
    using Cons.prems(1) by (auto simp: c g split: prod.splits)
  have opt: "rl_options rl1 = rl_options rl" using guardDiscovery_frame(2) [of sha256 now rl n payload] g by simp
  have "time_Sub now t0 < w" using Cons.prems(4) by (simp add: c)
  note s = guard_seen(1,2) [OF g Cons.prems(2,3,5) this Cons.prems(6)]
  show ?case
    by (rule Cons.IH [OF rest]) (use Cons.prems opt s in auto)
qed simp


section \<open>Properties\<close>

text \<open>The registry at a reachable state, with the order in which \<open>List\<close> ranges over it.\<close>

lemma reach_ok: "registry_reach p r \<Longrightarrow> range_of (rg_peers r) ord \<Longrightarrow> registry_ok (r, ord)"
  using registry_reach_inv [of p r] by (simp add: registry_ok_def)

lemma listed_iff:
  "registry_ok (r, ord) \<Longrightarrow> q \<in> set (pg_List (registry_view (r, ord))) \<longleftrightarrow> Get r (pr_NodeID q) = Some q"
  using registry_invD(4) [of r] by (fastforce simp: registry_ok_def registry_view_def ListPeers_spec ran_def Get_def peer_ok_def)

text \<open>C1: Whatever datagram arrives, anything the relay sends is the payload of a packet frame
  whose token belongs to a registered peer and whose inner source address is that peer's own lease,
  framed as a delivery and sent to the endpoint of a registered peer: the one that holds the
  destination address or, for a discovery packet, any peer but the sender.\<close>

theorem relay_sends_only_authorised:
  assumes reach: "registry_reach p r" and ord: "range_of (rg_peers r) ord"
    and h: "handleDatagram sha256 (registry_view (r, ord)) wr t1 t2 rl b src = (res, sent, rl')"
    and x: "(a, out) \<in> set sent"
  shows "\<exists>fr peer dst q. ParseFrame b = Ok fr \<and> fr_Type fr = FramePacket \<and>
    GetByToken r (fr_Token fr) = Some peer \<and>
    IPv4Endpoints (fr_Payload fr) = Ok (pr_VirtualIP peer, dst) \<and>
    ParseFrame out = Ok \<lparr>fr_Type = FrameDeliver, fr_Token = '''', fr_Payload = fr_Payload fr\<rparr> \<and>
    Get r (pr_NodeID q) = Some q \<and> relay_lookup rl' (pr_NodeID q) = Some a \<and>
    (if isDiscoveryPacket (fr_Payload fr) dst then pr_NodeID q \<noteq> pr_NodeID peer else pr_VirtualIP q = dst)"
proof -
  have ok: "registry_ok (r, ord)" by (rule reach_ok [OF reach ord])
  have inv: "registry_inv r" using registry_reach_inv [OF reach] by simp
  show ?thesis
    using reg_dir.relay_authorised [OF ok h x] unfolding listed_iff [OF ok]
    by (simp add: GetByToken_iff [OF inv] Get_def)
qed

definition sample_packet :: bytes where
  "sample_packet = [0x45, 0, 0, 20, 0, 0, 0, 0, 64, 1, 0, 0, 10, 88, 0, 2, 10, 88, 0, 2]"

lemma sample_packet_facts:
  "IPv4Endpoints sample_packet = Ok (Addr4 0x0A580002, Addr4 0x0A580002)"
  "\<not> isDiscoveryPacket sample_packet d" "length sample_packet \<le> 65535"
proof -
  have h: "ipv4HeaderLength sample_packet = Ok 20"
    by (simp add: sample_packet_def ipv4HeaderLength_def idx_def)
  show "IPv4Endpoints sample_packet = Ok (Addr4 0x0A580002, Addr4 0x0A580002)"
    by (simp add: IPv4Endpoints_eq h) (simp add: sample_packet_def AddrFrom4_def be32_def)
  show "\<not> isDiscoveryPacket sample_packet d"
    by (simp add: isDiscoveryPacket_def IPv4UDPPorts_eq [OF h]) (simp add: sample_packet_def)
qed (simp add: sample_packet_def)

text \<open>C2: A peer's packet to another peer is delivered: the relay sends exactly one datagram, the
  payload unchanged in a delivery frame, to the endpoint last seen for the destination, and learns
  the sender's own endpoint.\<close>

theorem relay_delivers_unicast:
  assumes reach: "registry_reach p r" and ord: "range_of (rg_peers r) ord"
    and peers: "Get r n = Some from_peer" "Get r m = Some to_peer"
    and frame: "MarshalPacket (pr_SessionToken from_peer) payload = Ok b"
    and packet: "IPv4Endpoints payload = Ok (pr_VirtualIP from_peer, pr_VirtualIP to_peer)"
      "length payload \<le> 65535" "\<not> isDiscoveryPacket payload (pr_VirtualIP to_peer)"
    and endpoint: "(if m = n then Some src else relay_lookup rl m) = Some a" and wr0: "wr 0"
  shows "\<exists>out. handleDatagram sha256 (registry_view (r, ord)) wr t1 t2 rl b src =
      (Ok (), [(a, out)], relay_bind t1 rl n src) \<and>
    ParseFrame out = Ok \<lparr>fr_Type = FrameDeliver, fr_Token = '''', fr_Payload = payload\<rparr>"
proof -
  have ok: "registry_ok (r, ord)" by (rule reach_ok [OF reach ord])
  have inv: "registry_inv r" using registry_reach_inv [OF reach] by simp
  have id: "pr_NodeID from_peer = n" "pr_NodeID to_peer = m"
    using peers registry_invD(4) [OF inv] by (auto simp: Get_def peer_ok_def)
  have listed: "from_peer \<in> set (pg_List (registry_view (r, ord)))" "to_peer \<in> set (pg_List (registry_view (r, ord)))"
    using peers id by (simp_all add: listed_iff [OF ok])
  have bound: "relay_lookup (relay_bind t1 rl (pr_NodeID from_peer) src) (pr_NodeID to_peer) = Some a"
    using endpoint by (simp add: id)
  from reg_dir.relay_unicast [where wr = wr, OF ok listed frame packet bound wr0] show ?thesis
    by (simp add: id ParseFrame_deliver_frame)
qed

definition sample_endpoint :: udp_addr where
  "sample_endpoint = \<lparr>ua_IP = Addr4 0xC0000207, ua_Port = 5000, ua_Zone = ''''\<rparr>"

lemma sample_frame:
  "\<exists>b. MarshalPacket (hex_encode (replicate 32 7)) sample_packet = Ok b"
  by (simp add: MarshalPacket_def marshal_def length_hex_encode)

lemma sample_run:
  obtains r q b where "registry_reach (Prefix (Addr4 0x0A580000) 16) r" "range_of (rg_peers r) [''n1'']"
    "Get r ''n1'' = Some q" "MarshalPacket (pr_SessionToken q) sample_packet = Ok b"
    "IPv4Endpoints sample_packet = Ok (pr_VirtualIP q, pr_VirtualIP q)"
proof -
  obtain r q where r: "registry_reach (Prefix (Addr4 0x0A580000) 16) r" "Get r ''n1'' = Some q"
    "rg_peers r = [''n1'' \<mapsto> q]" "q = \<lparr>pr_NodeID = ''n1'', pr_VirtualIP = Addr4 0x0A580002,
       pr_SessionToken = hex_encode (replicate 32 7), pr_LastSeen = 5\<rparr>" by (rule registry_example)
  obtain b where "MarshalPacket (hex_encode (replicate 32 7)) sample_packet = Ok b" using sample_frame by blast
  then show thesis using that r sample_packet_facts by (simp add: range_of_def)
qed

theorem relay_delivers_unicast_witness:
  "\<exists>r b out. registry_reach (Prefix (Addr4 0x0A580000) 16) r \<and>
     handleDatagram (\<lambda>x. x) (registry_view (r, [''n1''])) (\<lambda>_. True) 1 2 (ListenRelay) b sample_endpoint =
       (Ok (), [(sample_endpoint, out)], relay_bind 1 (ListenRelay) ''n1'' sample_endpoint)"
proof -
  obtain r q b where r: "registry_reach (Prefix (Addr4 0x0A580000) 16) r" "range_of (rg_peers r) [''n1'']"
    "Get r ''n1'' = Some q" "MarshalPacket (pr_SessionToken q) sample_packet = Ok b"
    "IPv4Endpoints sample_packet = Ok (pr_VirtualIP q, pr_VirtualIP q)" by (rule sample_run)
  from relay_delivers_unicast [OF r(1,2,3,3,4,5) sample_packet_facts(3,2), where src = sample_endpoint and rl = ListenRelay and a = sample_endpoint
      and wr = "\<lambda>_. True"] r(1) show ?thesis by simp blast
qed

theorem relay_sends_only_authorised_witness:
  "\<exists>r b out fr. registry_reach (Prefix (Addr4 0x0A580000) 16) r \<and>
     fst (snd (handleDatagram (\<lambda>x. x) (registry_view (r, [''n1''])) (\<lambda>_. True) 1 2 (ListenRelay) b sample_endpoint)) =
       [(sample_endpoint, out)] \<and> ParseFrame b = Ok fr \<and> fr_Type fr = FramePacket \<and>
     (\<exists>peer. GetByToken r (fr_Token fr) = Some peer)"
proof -
  obtain r q b where r: "registry_reach (Prefix (Addr4 0x0A580000) 16) r" "range_of (rg_peers r) [''n1'']"
    "Get r ''n1'' = Some q" "MarshalPacket (pr_SessionToken q) sample_packet = Ok b"
    "IPv4Endpoints sample_packet = Ok (pr_VirtualIP q, pr_VirtualIP q)" by (rule sample_run)
  have ok: "registry_ok (r, [''n1''])" by (rule reach_ok [OF r(1,2)])
  have id: "pr_NodeID q = ''n1''"
    using r(3) registry_invD(4) [of r "''n1''" q] registry_reach_inv [OF r(1)] by (simp add: Get_def peer_ok_def)
  have q: "q \<in> set (pg_List (registry_view (r, [''n1''])))" using r(3) by (simp add: listed_iff [OF ok] id)
  have bound: "relay_lookup (relay_bind 1 (ListenRelay) (pr_NodeID q) sample_endpoint) (pr_NodeID q) = Some sample_endpoint"
    by simp
  have h: "handleDatagram (\<lambda>x. x) (registry_view (r, [''n1''])) (\<lambda>_. True) 1 2 (ListenRelay) b sample_endpoint =
      (Ok (), [(sample_endpoint, deliver_frame sample_packet)], relay_bind 1 (ListenRelay) (pr_NodeID q) sample_endpoint)"
    by (rule reg_dir.relay_unicast [OF ok q q r(4,5) sample_packet_facts(3,2) bound TrueI])
  have "(sample_endpoint, deliver_frame sample_packet) \<in> set [(sample_endpoint, deliver_frame sample_packet)]" by simp
  from relay_sends_only_authorised [OF r(1,2) h this] obtain fr peer
    where "ParseFrame b = Ok fr" "fr_Type fr = FramePacket" "GetByToken r (fr_Token fr) = Some peer" by blast
  moreover have "fst (snd (handleDatagram (\<lambda>x. x) (registry_view (r, [''n1''])) (\<lambda>_. True) 1 2 ListenRelay b sample_endpoint)) =
      [(sample_endpoint, deliver_frame sample_packet)]" by (simp add: h)
  ultimately show ?thesis using r(1) by blast
qed

text \<open>C5: A datagram that is not a well-formed frame, that is itself a delivery, or whose token no
  peer holds is refused: nothing is sent and no state changes.\<close>

theorem relay_refuses_unauthenticated:
  assumes "case ParseFrame b of Ok fr \<Rightarrow> fr_Type fr = FrameDeliver \<or> GetByToken r (fr_Token fr) = None | _ \<Rightarrow> True"
  shows "\<exists>e. handleDatagram sha256 (registry_view (r, ord)) wr t1 t2 rl b src = (Fail e, [], rl)"
  using assms ParseFrame_total [of b]
  by (cases "ParseFrame b") (auto simp: handleDatagram_def registry_view_def)

theorem relay_refuses_unauthenticated_witness:
  "\<exists>r. registry_reach (Prefix (Addr4 0x0A580000) 16) r \<and>
     (\<exists>e. handleDatagram (\<lambda>x. x) (registry_view (r, [''n1''])) (\<lambda>_. True) 1 2 ListenRelay
        [1, 3, 0, 0, 42] sample_endpoint = (Fail e, [], ListenRelay))"
proof -
  obtain r q b where r: "registry_reach (Prefix (Addr4 0x0A580000) 16) r" "range_of (rg_peers r) [''n1'']"
    "Get r ''n1'' = Some q" "MarshalPacket (pr_SessionToken q) sample_packet = Ok b"
    "IPv4Endpoints sample_packet = Ok (pr_VirtualIP q, pr_VirtualIP q)" by (rule sample_run)
  have "ParseFrame [1, 3, 0, 0, 42] = Ok \<lparr>fr_Type = FrameDeliver, fr_Token = '''', fr_Payload = [42]\<rparr>"
    using ParseFrame_deliver_frame [of "[42]"] by (simp add: deliver_frame_def)
  then have "\<exists>e. handleDatagram (\<lambda>x. x) (registry_view (r, [''n1''])) (\<lambda>_. True) 1 2 ListenRelay
        [1, 3, 0, 0, 42] sample_endpoint = (Fail e, [], ListenRelay)"
    by (intro relay_refuses_unauthenticated) simp
  then show ?thesis using r(1) by blast
qed



text \<open>C7: A discovery packet that passed the guard is suppressed when the same peer repeats it
  within the duplicate window, whatever packets of any peers come in between, and the repetition
  costs no token.\<close>

theorem discovery_dedup:
  assumes win: "ro_DiscoveryDedupWindow (rl_options rl) = w" "0 < w"
    and first: "guardDiscovery sha256 t0 rl n payload = (Ok False, rl1)"
    and between: "guard_calls sha256 rl1 calls = (results, rl2)" "\<forall>(t, m, q)\<in>set calls. time_Sub t t0 < w"
    and again: "sha256 payload' = sha256 payload" "time_Sub now t0 < w"
      "guardDiscovery sha256 now rl2 n payload' = (r, rl3)"
  shows "r = Ok True \<and> available rl3 n now = available rl2 n now"
proof -
  have seen: "ds_seen (peer_discovery rl1 n t) (sha256 payload) = Some t0" "rl_discovery rl1 n \<noteq> None" for t
    by (cases rule: guard_step_cases [of "rl_options rl" t0 "sha256 payload" "peer_discovery rl n t0"];
        use first win in \<open>force simp: guardDiscovery_eq peer_discovery_def take_token_def\<close>)+
  have opt: "rl_options rl1 = rl_options rl"
    using guardDiscovery_frame(2) [of sha256 t0 rl n payload] first by simp
  have opt2: "rl_options rl2 = rl_options rl1" using guard_calls_frame [OF between(1)] by simp
  have later: "ds_seen (peer_discovery rl2 n now) (sha256 payload) = Some t0" "rl_discovery rl2 n \<noteq> None"
    using guard_calls_seen [OF between(1) _ win(2) between(2) seen] win(1) opt by auto
  show ?thesis
    by (rule guard_seen(3) [OF again(3) _ win(2) later(1) again(2) later(2) refl again(1)])
       (simp add: opt2 opt win(1))
qed

lemma ListenRelay_options:
  "rl_options ListenRelay = \<lparr>ro_DiscoveryRate = 20, ro_DiscoveryBurst = 40, ro_DiscoveryDedupWindow = 750000000\<rparr>"
  "rl_discovery ListenRelay = Map.empty"
  by (simp_all add: ListenRelay_def NewRelay_def normalizeRelayOptions_def Let_def Millisecond_def)

lemma ListenRelay_pass:
  "\<exists>rl1. guardDiscovery sha256 now ListenRelay n payload = (Ok False, rl1)"
proof -
  have st: "peer_discovery ListenRelay n now = fresh_discovery (rl_options ListenRelay) now"
    by (simp add: peer_discovery_def ListenRelay_options)
  have "fl64 (of_int 40) = 40" using fl64_of_int [of 40] by simp
  then have "1 \<le> ds_tokens (refill now (rl_options ListenRelay) (peer_discovery ListenRelay n now))"
    by (simp add: st fresh_discovery_def refill_def ListenRelay_options)
  moreover have "\<not> is_duplicate w now fp (peer_discovery ListenRelay n now)" for w fp
    by (simp add: st fresh_discovery_def is_duplicate_def)
  ultimately show ?thesis by (simp add: guardDiscovery_eq guard_step_def Let_def not_less)
qed


theorem discovery_dedup_witness:
  "\<exists>rl1 rl3. guardDiscovery (\<lambda>x. x) 7 ListenRelay ''n1'' [1] = (Ok False, rl1) \<and>
     guardDiscovery (\<lambda>x. x) 9 rl1 ''n1'' [1] = (Ok True, rl3)"
proof -
  obtain rl1 where first: "guardDiscovery (\<lambda>x. x) 7 ListenRelay ''n1'' [1] = (Ok False, rl1)"
    using ListenRelay_pass by blast
  obtain r rl3 where again: "guardDiscovery (\<lambda>x. x) 9 rl1 ''n1'' [1] = (r, rl3)" by fastforce
  have "time_Sub 9 7 < 750000000" by (simp add: time_Sub_def int64_max_def int64_min_def)
  from discovery_dedup [OF _ _ first _ _ refl this again, of "[]" "[]"] first again
  show ?thesis by (simp add: ListenRelay_options)
qed

definition sample_mdns :: bytes where
  "sample_mdns = [0x45, 0, 0, 28, 0, 0, 0, 0, 1, 17, 0, 0, 10, 88, 0, 2, 224, 0, 0, 251,
     0x14, 0xE9, 0x14, 0xE9, 0, 8, 0, 0]"

lemma sample_mdns_facts:
  "IPv4Endpoints sample_mdns = Ok (Addr4 0x0A580002, Addr4 0xE00000FB)"
  "isDiscoveryPacket sample_mdns (Addr4 0xE00000FB)" "length sample_mdns \<le> 65535"
proof -
  have h: "ipv4HeaderLength sample_mdns = Ok 20"
    by (simp add: sample_mdns_def ipv4HeaderLength_def idx_def)
  show "IPv4Endpoints sample_mdns = Ok (Addr4 0x0A580002, Addr4 0xE00000FB)"
    by (simp add: IPv4Endpoints_eq h) (simp add: sample_mdns_def AddrFrom4_def be32_def)
  show "isDiscoveryPacket sample_mdns (Addr4 0xE00000FB)"
    by (simp add: isDiscoveryPacket_def IPv4UDPPorts_eq [OF h])
       (simp add: sample_mdns_def mdnsMulticast_def AddrFrom4_def be32_def be16_def)
qed (simp add: sample_mdns_def)


section \<open>The receive loop\<close>

text \<open>
  What one iteration of \<open>Serve\<close> meets: the registry as it is then, the outcomes of its writes, the readings of
  the clock, and the datagram.
\<close>

record relay_read =
  rr_registry :: peer_registry
  rr_wr :: "nat \<Rightarrow> bool"
  rr_bindAt :: time
  rr_guardAt :: time
  rr_data :: bytes
  rr_src :: udp_addr

datatype serve_end = ServeStopped | ServeReadError | ServePanic

text \<open>The list of datagrams ends with an error of the socket, which is the end of serving; what
  \<open>handleDatagram\<close> returns is only logged. \<open>stopped\<close> is whether the context is cancelled by then.\<close>

fun relay_Serve ::
    "(bytes \<Rightarrow> bytes) \<Rightarrow> bool \<Rightarrow> relay_read list \<Rightarrow> relay \<Rightarrow> serve_end \<times> datagram list \<times> relay" where
  "relay_Serve sha256 stopped [] rl = ((if stopped then ServeStopped else ServeReadError), [], rl)"
| "relay_Serve sha256 stopped (r # reads) rl =
     (let (err, sent, rl) = handleDatagram sha256 (rr_registry r) (rr_wr r) (rr_bindAt r) (rr_guardAt r) rl (rr_data r) (rr_src r)
      in if err = Panic then (ServePanic, sent, rl)
         else let (res, rest, rl) = relay_Serve sha256 stopped reads rl in (res, sent @ rest, rl))"

text \<open>No datagram ends serving, and datagrams before and after a point are served as if in two runs.\<close>

lemma relay_Serve_survives:
  "fst (relay_Serve sha256 stopped reads rl) = (if stopped then ServeStopped else ServeReadError)"
proof (induction reads arbitrary: rl)
  case (Cons r reads)
  obtain err sent rl' where h: "handleDatagram sha256 (rr_registry r) (rr_wr r) (rr_bindAt r) (rr_guardAt r) rl (rr_data r) (rr_src r) =
    (err, sent, rl')" by (metis prod.collapse)
  then have "err \<noteq> Panic" using handleDatagram_total by (metis fst_conv)
  then show ?case using Cons.IH [of rl'] by (auto simp: h split: prod.split)
qed simp

lemma relay_Serve_append:
  "relay_Serve sha256 stopped (xs @ ys) rl =
    (case relay_Serve sha256 stopped xs rl of (_, sent, rl) \<Rightarrow>
      case relay_Serve sha256 stopped ys rl of (res, rest, rl) \<Rightarrow> (res, sent @ rest, rl))"
proof (induction xs arbitrary: rl)
  case (Cons r xs)
  obtain err sent rl' where h: "handleDatagram sha256 (rr_registry r) (rr_wr r) (rr_bindAt r) (rr_guardAt r) rl (rr_data r) (rr_src r) =
    (err, sent, rl')" by (metis prod.collapse)
  then have "err \<noteq> Panic" using handleDatagram_total by (metis fst_conv)
  then show ?case using Cons.IH [of rl'] by (simp add: h split: prod.split)
qed (simp split: prod.split)

end
