(* ===== verification/P2PTickets.thy ===== *)
theory P2PTickets
  imports Interfaces GoStrings "HOL-Library.Product_Lexorder"
begin

text \<open>
  The coordinator's probe tickets, \<open>internal/p2p/tickets.go\<close>: issue, listing, verification,
  forgetting a node and pruning. The clock and the random source are arguments.
\<close>

section \<open>State and operations\<close>

datatype ticket_error =
    ErrTicketNodeRequired
  | ErrTicketSelfPair
  | ErrTicketRand \<comment> \<open>the system's random source failed\<close>

record probe_ticket =
  pt_Ticket :: string
  pt_SourceNode :: string
  pt_TargetNode :: string
  pt_IssuedAt :: time
  pt_ExpiresAt :: time

record ticket_manager =
  tm_ttl :: duration
  tm_tickets :: "string \<rightharpoonup> probe_ticket"

abbreviation defaultProbeTicketTTL :: duration where "defaultProbeTicketTTL \<equiv> 30 * Second"

definition NewTicketManager :: "duration \<Rightarrow> ticket_manager" where
  "NewTicketManager ttl =
     \<lparr>tm_ttl = (if ttl \<le> 0 then defaultProbeTicketTTL else ttl), tm_tickets = Map.empty\<rparr>"

definition pruneLocked :: "time \<Rightarrow> ticket_manager \<Rightarrow> ticket_manager" where
  "pruneLocked now m =
     m\<lparr>tm_tickets := delete_where (\<lambda>ticket. \<not> time_Before now (pt_ExpiresAt ticket)) (tm_tickets m)\<rparr>"

definition newProbeTicketToken :: "bytes option \<Rightarrow> (ticket_error, string) result" where
  "newProbeTicketToken rnd = (case rnd of None \<Rightarrow> Fail ErrTicketRand | Some b \<Rightarrow> Ok (hex_encode b))"

definition Issue ::
    "ticket_manager \<Rightarrow> string \<Rightarrow> string \<Rightarrow> bytes option \<Rightarrow> time
     \<Rightarrow> (ticket_error, probe_ticket) result \<times> ticket_manager" where
  "Issue m sourceNode0 targetNode0 rnd now =
     (let sourceNode = TrimSpace sourceNode0; targetNode = TrimSpace targetNode0
      in if sourceNode = '''' \<or> targetNode = '''' then (Fail ErrTicketNodeRequired, m)
      else if sourceNode = targetNode then (Fail ErrTicketSelfPair, m)
      else case newProbeTicketToken rnd of
        Fail e \<Rightarrow> (Fail e, m)
      | Panic \<Rightarrow> (Panic, m)
      | Ok token \<Rightarrow>
        (let ticket = \<lparr>pt_Ticket = token, pt_SourceNode = sourceNode, pt_TargetNode = targetNode,
                       pt_IssuedAt = now, pt_ExpiresAt = time_Add now (tm_ttl m)\<rparr>;
             m' = pruneLocked now m
         in (Ok ticket, m'\<lparr>tm_tickets := (tm_tickets m')(token \<mapsto> ticket)\<rparr>)))"

text \<open>\<open>ListForNode\<close> returns \<open>None\<close> for Go's nil slice. \<open>ord\<close> is the order of the \<open>range\<close> loop.\<close>

definition ListForNode ::
    "ticket_manager \<Rightarrow> string \<Rightarrow> time \<Rightarrow> string list \<Rightarrow> probe_ticket list option \<times> ticket_manager" where
  "ListForNode m nodeID0 now ord =
     (let nodeID = TrimSpace nodeID0
      in if nodeID = '''' then (None, m)
      else let m' = pruneLocked now m;
               out = filter (\<lambda>ticket. pt_SourceNode ticket = nodeID \<or> pt_TargetNode ticket = nodeID)
                       (range_values (tm_tickets m') ord)
           in (Some (sort_key (\<lambda>ticket. (pt_ExpiresAt ticket, pt_Ticket ticket)) out), m'))"

definition Verify :: "ticket_manager \<Rightarrow> string \<Rightarrow> string \<Rightarrow> string \<Rightarrow> time \<Rightarrow> bool \<times> ticket_manager" where
  "Verify m token0 nodeA0 nodeB0 now =
     (let token = TrimSpace token0; nodeA = TrimSpace nodeA0; nodeB = TrimSpace nodeB0
      in if token = '''' \<or> nodeA = '''' \<or> nodeB = '''' \<or> nodeA = nodeB then (False, m)
      else let m' = pruneLocked now m
           in case tm_tickets m' token of
                None \<Rightarrow> (False, m')
              | Some ticket \<Rightarrow>
                (pt_SourceNode ticket = nodeA \<and> pt_TargetNode ticket = nodeB \<or>
                 pt_SourceNode ticket = nodeB \<and> pt_TargetNode ticket = nodeA, m'))"

definition ForgetNode :: "ticket_manager \<Rightarrow> string \<Rightarrow> ticket_manager" where
  "ForgetNode m nodeID0 =
     (let nodeID = TrimSpace nodeID0
      in if nodeID = '''' then m
      else m\<lparr>tm_tickets := delete_where
               (\<lambda>ticket. pt_SourceNode ticket = nodeID \<or> pt_TargetNode ticket = nodeID) (tm_tickets m)\<rparr>)"

definition Prune :: "ticket_manager \<Rightarrow> time \<Rightarrow> ticket_manager" where
  "Prune m now = pruneLocked now m"

interpretation ticket_store: expiring_store tm_tickets pt_ExpiresAt pruneLocked
  by unfold_locales (simp add: pruneLocked_def)

section \<open>Invariant\<close>

text \<open>A ticket is stored under its token, names two different trimmed nodes, and lives for the
  manager's time to live.\<close>

definition ticket_ok :: "duration \<Rightarrow> string \<Rightarrow> probe_ticket \<Rightarrow> bool" where
  "ticket_ok ttl k t \<longleftrightarrow> pt_Ticket t = k \<and> (\<exists>b. length b = 32 \<and> k = hex_encode b) \<and>
     pt_SourceNode t \<noteq> pt_TargetNode t \<and> pt_ExpiresAt t = pt_IssuedAt t + ttl \<and>
     (\<forall>n \<in> {pt_SourceNode t, pt_TargetNode t}. n \<noteq> '''' \<and> TrimSpace n = n)"

definition ticket_inv :: "ticket_manager \<Rightarrow> bool" where
  "ticket_inv m \<longleftrightarrow> 0 < tm_ttl m \<and> finite (dom (tm_tickets m)) \<and>
     (\<forall>k t. tm_tickets m k = Some t \<longrightarrow> ticket_ok (tm_ttl m) k t)"

lemma NewTicketManager_inv [inv_intros]: "ticket_inv (NewTicketManager ttl)"
  by (simp add: ticket_inv_def NewTicketManager_def Second_def)

lemma pruneLocked_frame [simp]: "tm_ttl (pruneLocked now m) = tm_ttl m"
  by (simp add: pruneLocked_def)

lemma pruneLocked_inv [inv_intros]: "ticket_inv m \<Longrightarrow> ticket_inv (pruneLocked now m)"
  by (auto simp: ticket_inv_def pruneLocked_def)

lemma ForgetNode_inv [inv_intros]: "ticket_inv m \<Longrightarrow> ticket_inv (ForgetNode m n)"
  by (auto simp: ticket_inv_def ForgetNode_def Let_def)

lemma ListForNode_inv [inv_intros]: "ticket_inv m \<Longrightarrow> ticket_inv (snd (ListForNode m n now ord))"
  by (simp add: ListForNode_def Let_def pruneLocked_inv)

lemma Verify_inv [inv_intros]: "ticket_inv m \<Longrightarrow> ticket_inv (snd (Verify m k a b now))"
  by (simp add: Verify_def Let_def pruneLocked_inv split: option.split)

lemma Issue_cases:
  obtains (node) "TrimSpace a = '''' \<or> TrimSpace b = ''''" "Issue m a b rnd now = (Fail ErrTicketNodeRequired, m)"
  | (self) "TrimSpace a \<noteq> ''''" "TrimSpace b \<noteq> ''''" "TrimSpace a = TrimSpace b"
      "Issue m a b rnd now = (Fail ErrTicketSelfPair, m)"
  | (rand) "TrimSpace a \<noteq> ''''" "TrimSpace b \<noteq> ''''" "TrimSpace a \<noteq> TrimSpace b" "rnd = None"
      "Issue m a b rnd now = (Fail ErrTicketRand, m)"
  | (issued) r t where "TrimSpace a \<noteq> ''''" "TrimSpace b \<noteq> ''''" "TrimSpace a \<noteq> TrimSpace b" "rnd = Some r"
      "t = \<lparr>pt_Ticket = hex_encode r, pt_SourceNode = TrimSpace a, pt_TargetNode = TrimSpace b,
            pt_IssuedAt = now, pt_ExpiresAt = now + tm_ttl m\<rparr>"
      "Issue m a b rnd now = (Ok t, (pruneLocked now m)\<lparr>tm_tickets := (tm_tickets (pruneLocked now m))(hex_encode r \<mapsto> t)\<rparr>)"
  by (cases "TrimSpace a = ''''"; cases "TrimSpace b = ''''"; cases "TrimSpace a = TrimSpace b"; cases rnd)
     (simp_all add: Issue_def Let_def newProbeTicketToken_def)

lemma Issue_inv [inv_intros]:
  assumes "ticket_inv m" "\<And>r. rnd = Some r \<Longrightarrow> length r = 32"
  shows "ticket_inv (snd (Issue m a b rnd now))"
proof (cases rule: Issue_cases [of a b m rnd now])
  case (issued r t)
  then show ?thesis using pruneLocked_inv [OF assms(1), of now] assms(2)
    by (auto simp: ticket_inv_def ticket_ok_def TrimSpace_idem)
qed (use assms in simp_all)

section \<open>Runs\<close>

datatype ticket_op =
    OpIssue string string "bytes option" time
  | OpList string time "string list"
  | OpVerify string string string time
  | OpForget string
  | OpPrune time

fun ticket_step :: "ticket_manager \<Rightarrow> ticket_op \<Rightarrow> ticket_manager" where
  "ticket_step m (OpIssue a b rnd now) = snd (Issue m a b rnd now)"
| "ticket_step m (OpList n now ord) = snd (ListForNode m n now ord)"
| "ticket_step m (OpVerify k a b now) = snd (Verify m k a b now)"
| "ticket_step m (OpForget n) = ForgetNode m n"
| "ticket_step m (OpPrune now) = Prune m now"

abbreviation ticket_run :: "ticket_manager \<Rightarrow> ticket_op list \<Rightarrow> ticket_manager" where
  "ticket_run \<equiv> foldl ticket_step"

text \<open>The operations whose random bytes are 32 bytes, and that do not touch a given ticket: they
  draw other bytes, forget other nodes, and happen before it expires.\<close>

fun op_ok :: "ticket_op \<Rightarrow> bool" where
  "op_ok (OpIssue a b rnd now) = (\<forall>r. rnd = Some r \<longrightarrow> length r = 32)"
| "op_ok _ = True"

fun op_spares :: "probe_ticket \<Rightarrow> ticket_op \<Rightarrow> bool" where
  "op_spares t (OpIssue a b rnd now) \<longleftrightarrow> now < pt_ExpiresAt t \<and> map_option hex_encode rnd \<noteq> Some (pt_Ticket t)"
| "op_spares t (OpList n now ord) \<longleftrightarrow> now < pt_ExpiresAt t"
| "op_spares t (OpVerify k a b now) \<longleftrightarrow> now < pt_ExpiresAt t"
| "op_spares t (OpForget n) \<longleftrightarrow> TrimSpace n \<notin> {pt_SourceNode t, pt_TargetNode t}"
| "op_spares t (OpPrune now) \<longleftrightarrow> now < pt_ExpiresAt t"

lemma ticket_step_inv: "ticket_inv m \<Longrightarrow> op_ok x \<Longrightarrow> ticket_inv (ticket_step m x)"
  by (cases x) (auto simp: Prune_def intro: inv_intros)

lemma ticket_run_inv: "ticket_inv m \<Longrightarrow> \<forall>x\<in>set ops. op_ok x \<Longrightarrow> ticket_inv (ticket_run m ops)"
  by (induction ops arbitrary: m) (auto simp: ticket_step_inv)

lemma ticket_step_spares:
  assumes "tm_tickets m (pt_Ticket t) = Some t" "op_spares t x"
  shows "tm_tickets (ticket_step m x) (pt_Ticket t) = Some t"
proof (cases x)
  case (OpIssue a b rnd now)
  then show ?thesis using assms
    by (cases rule: Issue_cases [of a b m rnd now]) (auto simp: ticket_store.sweep_live)
next
  case (OpForget n)
  then show ?thesis using assms by (auto simp: ForgetNode_def Let_def)
qed (use assms in \<open>auto simp: ListForNode_def Verify_def Prune_def Let_def ticket_store.sweep_live split: option.split\<close>)

lemma ticket_run_spares:
  "tm_tickets m (pt_Ticket t) = Some t \<Longrightarrow> \<forall>x\<in>set ops. op_spares t x \<Longrightarrow>
     tm_tickets (ticket_run m ops) (pt_Ticket t) = Some t"
  by (induction ops arbitrary: m) (auto simp: ticket_step_spares)

lemma hex_ticket: "length r = 32 \<Longrightarrow> TrimSpace (hex_encode r) = hex_encode r \<and> hex_encode r \<noteq> ''''"
  using length_hex_encode [of r] by (auto simp: TrimSpace_hex_encode)

lemma Verify_iff:
  assumes "ticket_inv m"
  shows "fst (Verify m k a b now) \<longleftrightarrow>
    (\<exists>t. tm_tickets m (TrimSpace k) = Some t \<and> now < pt_ExpiresAt t \<and>
       {TrimSpace a, TrimSpace b} = {pt_SourceNode t, pt_TargetNode t})"
proof -
  have ok: "tm_tickets m c = Some t \<Longrightarrow> ticket_ok (tm_ttl m) c t" for c t
    using assms by (simp add: ticket_inv_def)
  show ?thesis
    using ok [of "TrimSpace k"] hex_ticket
    by (auto simp: Verify_def Let_def ticket_store.sweep_live ticket_store.sweep_entries ticket_ok_def doubleton_eq_iff
        delete_where_None split: option.split)
qed

lemma ListForNode_eq:
  assumes inv: "ticket_inv m" and n: "TrimSpace n \<noteq> ''''"
    and ord: "range_of (tm_tickets (pruneLocked now m)) ord"
  obtains out where "fst (ListForNode m n now ord) = Some out"
    "set out = {t \<in> ran (tm_tickets m). now < pt_ExpiresAt t \<and> TrimSpace n \<in> {pt_SourceNode t, pt_TargetNode t}}"
    "sorted (map (\<lambda>t. (pt_ExpiresAt t, pt_Ticket t)) out)" "distinct (map pt_Ticket out)"
proof -
  let ?m = "pruneLocked now m"
  let ?vs = "range_values (tm_tickets ?m) ord"
  let ?P = "\<lambda>t. pt_SourceNode t = TrimSpace n \<or> pt_TargetNode t = TrimSpace n"
  have vs: "set ?vs = ran (tm_tickets ?m)" by (rule set_range_values [OF ord])
  have key: "tm_tickets ?m c = Some t \<Longrightarrow> pt_Ticket t = c" for c t
    using pruneLocked_inv [OF inv, of now] by (auto simp: ticket_inv_def ticket_ok_def)
  have "distinct (map pt_Ticket ?vs)"
    using ord by (intro distinct_range_keys) (auto simp: range_of_def key)
  then have "distinct (map pt_Ticket (filter ?P ?vs))" by (rule distinct_map_filter)
  moreover have "ran (tm_tickets ?m) = {t \<in> ran (tm_tickets m). now < pt_ExpiresAt t}"
    by (auto simp: ran_def ticket_store.sweep_live)
  ultimately show thesis
    using vs n by (intro that [of "sort_key (\<lambda>t. (pt_ExpiresAt t, pt_Ticket t)) (filter ?P ?vs)"])
      (auto simp: ListForNode_def Let_def distinct_map)
qed


section \<open>Where a stored ticket comes from\<close>

lemma ticket_step_ttl [simp]: "tm_ttl (ticket_step m x) = tm_ttl m"
proof (cases x)
  case (OpIssue a b rnd now)
  then show ?thesis by (cases rule: Issue_cases [of a b m rnd now]) simp_all
qed (simp_all add: ListForNode_def Verify_def ForgetNode_def Prune_def Let_def split: option.split)

lemma ticket_run_ttl [simp]: "tm_ttl (ticket_run m ops) = tm_ttl m"
  by (induction ops arbitrary: m) auto

lemma ticket_step_origin:
  assumes "tm_tickets (ticket_step m x) k = Some t"
  shows "(tm_tickets m k = Some t \<and> (\<forall>n. x = OpForget n \<longrightarrow> TrimSpace n \<noteq> '''' \<longrightarrow>
        TrimSpace n \<notin> {pt_SourceNode t, pt_TargetNode t})) \<or>
    (\<exists>a b r now. x = OpIssue a b (Some r) now \<and> k = hex_encode r \<and>
      t = \<lparr>pt_Ticket = hex_encode r, pt_SourceNode = TrimSpace a, pt_TargetNode = TrimSpace b,
            pt_IssuedAt = now, pt_ExpiresAt = now + tm_ttl m\<rparr>)"
proof (cases x)
  case (OpIssue a b rnd now)
  then show ?thesis using assms
    by (cases rule: Issue_cases [of a b m rnd now]) (auto simp: ticket_store.sweep_live split: if_splits)
next
  case (OpForget n)
  then show ?thesis using assms by (auto simp: ForgetNode_def Let_def split: if_splits)
qed (use assms in \<open>auto simp: ListForNode_def Verify_def Prune_def Let_def ticket_store.sweep_live
      split: option.splits if_splits\<close>)

lemma ticket_run_origin:
  assumes "tm_tickets m = Map.empty" "tm_tickets (ticket_run m ops) k = Some t"
  shows "\<exists>xs ys a b r now. ops = xs @ OpIssue a b (Some r) now # ys \<and> k = hex_encode r \<and>
    t = \<lparr>pt_Ticket = hex_encode r, pt_SourceNode = TrimSpace a, pt_TargetNode = TrimSpace b,
            pt_IssuedAt = now, pt_ExpiresAt = now + tm_ttl m\<rparr> \<and>
    (\<forall>n. OpForget n \<in> set ys \<longrightarrow> TrimSpace n \<noteq> '''' \<longrightarrow> TrimSpace n \<notin> {pt_SourceNode t, pt_TargetNode t})"
  using assms(2)
proof (induction ops rule: rev_induct)
  case Nil
  then show ?case using assms(1) by simp
next
  case (snoc x ops)
  let ?m = "ticket_run m ops"
  from snoc.prems have "tm_tickets (ticket_step ?m x) k = Some t" by simp
  from ticket_step_origin [OF this] show ?case
  proof (elim disjE conjE)
    assume old: "tm_tickets ?m k = Some t" and x: "\<forall>n. x = OpForget n \<longrightarrow> TrimSpace n \<noteq> '''' \<longrightarrow>
        TrimSpace n \<notin> {pt_SourceNode t, pt_TargetNode t}"
    obtain xs ys a b r now where h: "ops = xs @ OpIssue a b (Some r) now # ys" "k = hex_encode r"
      "t = \<lparr>pt_Ticket = hex_encode r, pt_SourceNode = TrimSpace a, pt_TargetNode = TrimSpace b,
            pt_IssuedAt = now, pt_ExpiresAt = now + tm_ttl m\<rparr>"
      "\<forall>n. OpForget n \<in> set ys \<longrightarrow> TrimSpace n \<noteq> '''' \<longrightarrow> TrimSpace n \<notin> {pt_SourceNode t, pt_TargetNode t}"
      using snoc.IH [OF old] by blast
    then have "ops @ [x] = xs @ OpIssue a b (Some r) now # (ys @ [x])" by simp
    moreover have "\<forall>n. OpForget n \<in> set (ys @ [x]) \<longrightarrow> TrimSpace n \<noteq> '''' \<longrightarrow> TrimSpace n \<notin> {pt_SourceNode t, pt_TargetNode t}"
      using h(4) x by auto
    ultimately show ?thesis using h(2,3) by blast
  next
    assume "\<exists>a b r now. x = OpIssue a b (Some r) now \<and> k = hex_encode r \<and>
      t = \<lparr>pt_Ticket = hex_encode r, pt_SourceNode = TrimSpace a, pt_TargetNode = TrimSpace b,
            pt_IssuedAt = now, pt_ExpiresAt = now + tm_ttl ?m\<rparr>"
    then obtain a b r now where h: "x = OpIssue a b (Some r) now" "k = hex_encode r"
      "t = \<lparr>pt_Ticket = hex_encode r, pt_SourceNode = TrimSpace a, pt_TargetNode = TrimSpace b,
            pt_IssuedAt = now, pt_ExpiresAt = now + tm_ttl m\<rparr>" by auto
    then have "ops @ [x] = ops @ OpIssue a b (Some r) now # []" by simp
    then show ?thesis using h(2,3) by (metis empty_iff empty_set)
  qed
qed

section \<open>Properties\<close>



text \<open>C16: Nothing else verifies: when a token verifies for two nodes after any sequence of operations,
  that token was issued for exactly those two nodes less than a lifetime ago, and neither node has
  been forgotten since.\<close>

theorem ticket_verify_sound:
  assumes ops: "\<forall>x\<in>set ops. op_ok x" and v: "fst (Verify (ticket_run (NewTicketManager ttl) ops) k x y now)"
  shows "\<exists>xs a b r t0 ys. ops = xs @ OpIssue a b (Some r) t0 # ys \<and> TrimSpace k = hex_encode r \<and>
    {TrimSpace x, TrimSpace y} = {TrimSpace a, TrimSpace b} \<and>
    now < t0 + tm_ttl (NewTicketManager ttl) \<and>
    (\<forall>n. OpForget n \<in> set ys \<longrightarrow> TrimSpace n \<noteq> '''' \<longrightarrow> TrimSpace n \<notin> {TrimSpace x, TrimSpace y})"
proof -
  let ?m = "NewTicketManager ttl"
  have "ticket_inv (ticket_run ?m ops)" by (rule ticket_run_inv [OF NewTicketManager_inv ops])
  then obtain t where t: "tm_tickets (ticket_run ?m ops) (TrimSpace k) = Some t" "now < pt_ExpiresAt t"
    "{TrimSpace x, TrimSpace y} = {pt_SourceNode t, pt_TargetNode t}"
    using v by (auto simp: Verify_iff)
  have "tm_tickets ?m = Map.empty" by (simp add: NewTicketManager_def)
  from ticket_run_origin [OF this t(1)] obtain xs ys a b r t0
    where o: "ops = xs @ OpIssue a b (Some r) t0 # ys" "TrimSpace k = hex_encode r"
      "t = \<lparr>pt_Ticket = hex_encode r, pt_SourceNode = TrimSpace a, pt_TargetNode = TrimSpace b,
            pt_IssuedAt = t0, pt_ExpiresAt = t0 + tm_ttl ?m\<rparr>"
      "\<forall>n. OpForget n \<in> set ys \<longrightarrow> TrimSpace n \<noteq> '''' \<longrightarrow> TrimSpace n \<notin> {pt_SourceNode t, pt_TargetNode t}"
    by blast
  have "now < t0 + tm_ttl ?m" "{TrimSpace x, TrimSpace y} = {TrimSpace a, TrimSpace b}"
    using t(2,3) o(3) by simp_all
  then show ?thesis using o(1,2,4) unfolding t(3) [symmetric] by blast
qed

theorem ticket_verify_sound_witness:
  "fst (Verify (ticket_run (NewTicketManager 30) [OpIssue ''a'' ''b'' (Some (replicate 32 7)) 100])
      (hex_encode (replicate 32 7)) ''b'' ''a'' 129) \<and>
   (\<exists>xs a b r t0 ys. [OpIssue ''a'' ''b'' (Some (replicate 32 7)) 100] = xs @ OpIssue a b (Some r) t0 # ys \<and>
      129 < t0 + 30 \<and> {''b'', ''a''} = {TrimSpace a, TrimSpace b})"
proof -
  have trim: "TrimSpace ''a'' = ''a''" "TrimSpace ''b'' = ''b''" by code_simp+
  have v: "fst (Verify (ticket_run (NewTicketManager 30) [OpIssue ''a'' ''b'' (Some (replicate 32 7)) 100])
      (hex_encode (replicate 32 7)) ''b'' ''a'' 129)" by code_simp
  have ok: "\<forall>x\<in>set [OpIssue ''a'' ''b'' (Some (replicate 32 7)) 100]. op_ok x" by simp
  from ticket_verify_sound [OF ok v] obtain xs a b r t0 ys
    where "[OpIssue ''a'' ''b'' (Some (replicate 32 7)) 100] = xs @ OpIssue a b (Some r) t0 # ys"
      "{TrimSpace ''b'', TrimSpace ''a''} = {TrimSpace a, TrimSpace b}"
      "129 < t0 + tm_ttl (NewTicketManager 30)" by blast
  moreover have "tm_ttl (NewTicketManager 30) = 30" by (simp add: NewTicketManager_def)
  ultimately show ?thesis using v unfolding trim by metis
qed

text \<open>A node lists exactly the live tickets that name it, never those of other pairs, ordered by
  expiry and then by token; the order in which the map is visited makes no difference.\<close>

theorem ticket_privacy:
  assumes ops: "\<forall>x\<in>set ops. op_ok x" "m = ticket_run (NewTicketManager ttl) ops"
    and n: "TrimSpace n \<noteq> ''''"
    and ord: "range_of (tm_tickets (pruneLocked now m)) ord" "range_of (tm_tickets (pruneLocked now m)) ord'"
  shows "\<exists>out. fst (ListForNode m n now ord) = Some out \<and> fst (ListForNode m n now ord') = Some out \<and>
    set out = {t. \<exists>k. tm_tickets m k = Some t \<and> now < pt_ExpiresAt t \<and>
                 TrimSpace n \<in> {pt_SourceNode t, pt_TargetNode t}} \<and>
    sorted (map (\<lambda>t. (pt_ExpiresAt t, pt_Ticket t)) out) \<and> distinct out"
proof -
  have inv: "ticket_inv m" using ticket_run_inv [OF NewTicketManager_inv ops(1)] ops(2) by simp
  obtain out where o: "fst (ListForNode m n now ord) = Some out"
    "set out = {t \<in> ran (tm_tickets m). now < pt_ExpiresAt t \<and> TrimSpace n \<in> {pt_SourceNode t, pt_TargetNode t}}"
    "sorted (map (\<lambda>t. (pt_ExpiresAt t, pt_Ticket t)) out)" "distinct (map pt_Ticket out)"
    by (rule ListForNode_eq [OF inv n ord(1)])
  obtain out' where o': "fst (ListForNode m n now ord') = Some out'"
    "set out' = {t \<in> ran (tm_tickets m). now < pt_ExpiresAt t \<and> TrimSpace n \<in> {pt_SourceNode t, pt_TargetNode t}}"
    "sorted (map (\<lambda>t. (pt_ExpiresAt t, pt_Ticket t)) out')" "distinct (map pt_Ticket out')"
    by (rule ListForNode_eq [OF inv n ord(2)])
  have "inj_on pt_Ticket (set out)" using o(4) by (simp add: distinct_map)
  then have inj: "inj_on (\<lambda>t. (pt_ExpiresAt t, pt_Ticket t)) (set out)" by (auto simp: inj_on_def)
  have "out' = out"
  proof (rule map_sorted_distinct_set_unique [where f = "\<lambda>t. (pt_ExpiresAt t, pt_Ticket t)"])
    show "inj_on (\<lambda>t. (pt_ExpiresAt t, pt_Ticket t)) (set out' \<union> set out)" using inj o(2) o'(2) by simp
    show "distinct (map (\<lambda>t. (pt_ExpiresAt t, pt_Ticket t)) out')" "distinct (map (\<lambda>t. (pt_ExpiresAt t, pt_Ticket t)) out)"
      using o(4) o'(4) by (auto simp: distinct_map inj_on_def)
  qed (use o o' in auto)
  then show ?thesis using o o' by (auto simp: ran_def distinct_map)
qed

theorem ticket_privacy_witness:
  "\<exists>out. fst (ListForNode (ticket_run (NewTicketManager 30) [OpIssue ''a'' ''b'' (Some (replicate 32 7)) 100]) ''c'' 110
       [hex_encode (replicate 32 7)]) = Some out \<and> out = []"
proof -
  let ?m = "ticket_run (NewTicketManager 30) [OpIssue ''a'' ''b'' (Some (replicate 32 7)) 100]"
  have trim: "TrimSpace ''a'' = ''a''" "TrimSpace ''b'' = ''b''" "TrimSpace ''c'' = ''c''" by code_simp+
  have m: "tm_tickets ?m = [hex_encode (replicate 32 7) \<mapsto> \<lparr>pt_Ticket = hex_encode (replicate 32 7),
      pt_SourceNode = ''a'', pt_TargetNode = ''b'', pt_IssuedAt = 100, pt_ExpiresAt = 130\<rparr>]"
    by (cases rule: Issue_cases [of "''a''" "''b''" "NewTicketManager 30" "Some (replicate 32 7)" 100])
       (auto simp: trim NewTicketManager_def pruneLocked_def delete_where_def)
  have ord: "range_of (tm_tickets (pruneLocked 110 ?m)) [hex_encode (replicate 32 7)]"
    unfolding range_of_def ticket_store.sweep_entries m
    by (auto simp: dom_def delete_where_def split: if_splits)
  have "TrimSpace ''c'' \<noteq> ''''" by (simp add: trim)
  from ticket_privacy [OF _ refl this ord ord] obtain out
    where o: "fst (ListForNode ?m ''c'' 110 [hex_encode (replicate 32 7)]) = Some out"
      "set out = {t. \<exists>k. tm_tickets ?m k = Some t \<and> 110 < pt_ExpiresAt t \<and>
                 TrimSpace ''c'' \<in> {pt_SourceNode t, pt_TargetNode t}}"
    by auto
  have "set out = {}" unfolding o(2) m by (auto simp: trim split: if_splits)
  then show ?thesis using o(1) by simp
qed

end
