(* ===== verification/GoCrypto.thy ===== *)
theory GoCrypto
  imports Interfaces
begin

text \<open>
  The cryptography the source takes from Go's standard library: \<open>crypto/sha256\<close> (FIPS 180-4),
  \<open>crypto/hmac\<close> (RFC 2104) and \<open>crypto/cipher\<close>'s GCM over \<open>crypto/aes\<close> with a 32-byte key and a
  12-byte nonce (FIPS 197, SP 800-38D). All of it computes. What the components use of it is the
  length of a digest and the contract \<open>aead\<close> of authenticated encryption.
\<close>

section \<open>SHA-256\<close>

text \<open>
  The constants are the first 32 bits of the fractional parts of the cube roots of the first 64
  primes, and of the square roots of the first eight; \<open>iroot k v\<close> is the integer \<open>k\<close>-th root of a
  number \<open>v < 2 ^ (40 * k)\<close>, bit by bit.
\<close>

definition iroot :: "nat \<Rightarrow> nat \<Rightarrow> nat" where
  "iroot k v = foldr (\<lambda>i r. if (r + 2 ^ i) ^ k \<le> v then r + 2 ^ i else r) [0..<40] 0"

definition sha_primes :: "nat list" where
  "sha_primes = filter (\<lambda>p. \<forall>d\<in>set [2..<p]. p mod d \<noteq> 0) [2..<312]"

definition sha_K :: "u32 list" where
  "sha_K = map (\<lambda>p. word_of_nat (iroot 3 (p * 2 ^ 96))) sha_primes"

definition sha_H0 :: "u32 list" where
  "sha_H0 = map (\<lambda>p. word_of_nat (iroot 2 (p * 2 ^ 64))) [2, 3, 5, 7, 11, 13, 17, 19]"

definition sha_Ch :: "u32 \<Rightarrow> u32 \<Rightarrow> u32 \<Rightarrow> u32" where
  "sha_Ch x y z = (x AND y) XOR (NOT x AND z)"

definition sha_Maj :: "u32 \<Rightarrow> u32 \<Rightarrow> u32 \<Rightarrow> u32" where
  "sha_Maj x y z = (x AND y) XOR (x AND z) XOR (y AND z)"

definition sha_S0 :: "u32 \<Rightarrow> u32" where "sha_S0 x = word_rotr 2 x XOR word_rotr 13 x XOR word_rotr 22 x"
definition sha_S1 :: "u32 \<Rightarrow> u32" where "sha_S1 x = word_rotr 6 x XOR word_rotr 11 x XOR word_rotr 25 x"
definition sha_s0 :: "u32 \<Rightarrow> u32" where "sha_s0 x = word_rotr 7 x XOR word_rotr 18 x XOR drop_bit 3 x"
definition sha_s1 :: "u32 \<Rightarrow> u32" where "sha_s1 x = word_rotr 17 x XOR word_rotr 19 x XOR drop_bit 10 x"

text \<open>The message schedule is a window of the next sixteen words.\<close>

fun sha_rounds :: "u32 list \<Rightarrow> u32 list \<Rightarrow> u32 list \<Rightarrow> u32 list" where
  "sha_rounds (k # ks) w [a, b, c, d, e, f, g, h] =
     (let t1 = h + sha_S1 e + sha_Ch e f g + k + w ! 0;
          t2 = sha_S0 a + sha_Maj a b c
      in sha_rounds ks (tl w @ [sha_s1 (w ! 14) + w ! 9 + sha_s0 (w ! 1) + w ! 0])
           [t1 + t2, a, b, c, d + t1, e, f, g])"
| "sha_rounds ks w h = h"

fun chunks :: "nat \<Rightarrow> nat \<Rightarrow> 'a list \<Rightarrow> 'a list list" where
  "chunks 0 n xs = []"
| "chunks (Suc k) n xs = (if xs = [] then [] else take n xs # chunks k n (drop n xs))"

definition blocks_of :: "nat \<Rightarrow> 'a list \<Rightarrow> 'a list list" where
  "blocks_of n xs = chunks (length xs) n xs"

fun word32s :: "bytes \<Rightarrow> u32 list" where
  "word32s (a # b # c # d # rest) = be32 a b c d # word32s rest"
| "word32s bs = []"

definition sha_block :: "u32 list \<Rightarrow> bytes \<Rightarrow> u32 list" where
  "sha_block h block = map2 (+) h (sha_rounds sha_K (word32s block) h)"

definition put64 :: "64 word \<Rightarrow> bytes" where
  "put64 v = put32 (ucast (drop_bit 32 v)) @ put32 (ucast v)"

definition sha_pad :: "bytes \<Rightarrow> bytes" where
  "sha_pad m = m @ [0x80] @ replicate ((119 - length m mod 64) mod 64) 0 @ put64 (of_nat (8 * length m))"

definition Sum256 :: "bytes \<Rightarrow> bytes" where
  "Sum256 m = concat (map put32 (foldl sha_block sha_H0 (blocks_of 64 (sha_pad m))))"

section \<open>HMAC\<close>

definition hmac_key :: "bytes \<Rightarrow> bytes" where
  "hmac_key key = (let k = if length key > 64 then Sum256 key else key
                   in k @ replicate (64 - length k) 0)"

definition hmac_sha256 :: "bytes \<Rightarrow> bytes \<Rightarrow> bytes" where
  "hmac_sha256 key m =
     (let k = hmac_key key
      in Sum256 (map (\<lambda>b. b XOR 0x5c) k @ Sum256 (map (\<lambda>b. b XOR 0x36) k @ m)))"

section \<open>AES-256\<close>

definition xtime :: "u8 \<Rightarrow> u8" where
  "xtime b = push_bit 1 b XOR (if bit b 7 then 0x1b else 0)"

fun gmul_loop :: "nat \<Rightarrow> u8 \<Rightarrow> u8 \<Rightarrow> u8" where
  "gmul_loop 0 a b = 0"
| "gmul_loop (Suc n) a b = (if bit b 0 then a else 0) XOR gmul_loop n (xtime a) (drop_bit 1 b)"

abbreviation gmul :: "u8 \<Rightarrow> u8 \<Rightarrow> u8" where "gmul \<equiv> gmul_loop 8"

text \<open>The inverse in the field is the 254th power.\<close>

fun gpow :: "u8 \<Rightarrow> nat \<Rightarrow> u8" where
  "gpow a 0 = 1"
| "gpow a (Suc n) = gmul a (gpow a n)"

definition SubByte :: "u8 \<Rightarrow> u8" where
  "SubByte a = (let b = gpow a 254
    in b XOR word_rotl 1 b XOR word_rotl 2 b XOR word_rotl 3 b XOR word_rotl 4 b XOR 0x63)"

definition xor_bytes :: "bytes \<Rightarrow> bytes \<Rightarrow> bytes" where
  "xor_bytes a b = map2 (XOR) a b"

text \<open>The key schedule is a window of the last eight words.\<close>

fun key_words :: "nat \<Rightarrow> nat \<Rightarrow> u8 \<Rightarrow> bytes list \<Rightarrow> bytes list" where
  "key_words 0 i rcon w = []"
| "key_words (Suc n) i rcon w =
     (let last = w ! 7;
          t = (if i mod 8 = 0 then xor_bytes (map SubByte (tl last @ [hd last])) [rcon, 0, 0, 0]
               else if i mod 8 = 4 then map SubByte last
               else last);
          next = xor_bytes (w ! 0) t
      in w ! 0 # key_words n (Suc i) (if i mod 8 = 0 then xtime rcon else rcon) (tl w @ [next]))"

definition round_keys :: "bytes \<Rightarrow> bytes list" where
  "round_keys key = map concat (blocks_of 4 (key_words 60 8 1 (blocks_of 4 key)))"

definition ShiftRows :: "bytes \<Rightarrow> bytes" where
  "ShiftRows s = map (\<lambda>i. s ! ((i + 4 * (i mod 4)) mod 16)) [0..<16]"

fun MixColumn :: "bytes \<Rightarrow> bytes" where
  "MixColumn [a, b, c, d] =
     [gmul 2 a XOR gmul 3 b XOR c XOR d, a XOR gmul 2 b XOR gmul 3 c XOR d,
      a XOR b XOR gmul 2 c XOR gmul 3 d, gmul 3 a XOR b XOR c XOR gmul 2 d]"
| "MixColumn s = s"

fun aes_rounds :: "bytes list \<Rightarrow> bytes \<Rightarrow> bytes" where
  "aes_rounds [] s = s"
| "aes_rounds [k] s = xor_bytes (ShiftRows (map SubByte s)) k"
| "aes_rounds (k # ks) s =
     aes_rounds ks (xor_bytes (concat (map MixColumn (blocks_of 4 (ShiftRows (map SubByte s))))) k)"

definition aes256 :: "bytes \<Rightarrow> bytes \<Rightarrow> bytes" where
  "aes256 key block = (case round_keys key of [] \<Rightarrow> [] | k # ks \<Rightarrow> aes_rounds ks (xor_bytes block k))"

section \<open>GCM\<close>

type_synonym u128 = "128 word"

definition be128 :: "bytes \<Rightarrow> u128" where
  "be128 bs = foldl (\<lambda>v b. push_bit 8 v OR ucast b) 0 bs"

definition put128 :: "u128 \<Rightarrow> bytes" where
  "put128 v = map (\<lambda>i. ucast (drop_bit (120 - 8 * i) v)) [0..<16]"

fun ghash_mul_loop :: "nat \<Rightarrow> u128 \<Rightarrow> u128 \<Rightarrow> u128" where
  "ghash_mul_loop 0 x v = 0"
| "ghash_mul_loop (Suc n) x v =
     (if bit x n then v else 0) XOR
     ghash_mul_loop n x (drop_bit 1 v XOR (if bit v 0 then push_bit 120 0xe1 else 0))"

definition ghash :: "u128 \<Rightarrow> bytes \<Rightarrow> u128" where
  "ghash h data = foldl (\<lambda>y block. ghash_mul_loop 128 (y XOR be128 block) h) 0 (blocks_of 16 data)"

definition pad16 :: "bytes \<Rightarrow> bytes" where
  "pad16 b = b @ replicate ((16 - length b mod 16) mod 16) 0"

definition gcm_tag :: "(bytes \<Rightarrow> bytes) \<Rightarrow> bytes \<Rightarrow> bytes \<Rightarrow> bytes \<Rightarrow> bytes" where
  "gcm_tag E nonce aad ct =
     put128 (be128 (E (nonce @ [0, 0, 0, 1])) XOR
       ghash (be128 (E (replicate 16 0)))
         (pad16 aad @ pad16 ct @ put64 (of_nat (8 * length aad)) @ put64 (of_nat (8 * length ct))))"

text \<open>The key stream is one encrypted counter per block of input, cut to the input's length.\<close>

definition gcm_stream :: "(bytes \<Rightarrow> bytes) \<Rightarrow> bytes \<Rightarrow> nat \<Rightarrow> bytes" where
  "gcm_stream E nonce n =
     take n (concat (map (\<lambda>i. put128 (be128 (E (nonce @ put32 (of_nat (i + 2)))))) [0..<(n + 15) div 16]))"

definition gcm_crypt :: "(bytes \<Rightarrow> bytes) \<Rightarrow> bytes \<Rightarrow> bytes \<Rightarrow> bytes" where
  "gcm_crypt E nonce b = xor_bytes b (gcm_stream E nonce (length b))"

text \<open>\<open>Seal\<close> and \<open>Open\<close> of \<open>cipher.NewGCM(aes.NewCipher(key))\<close>, with a \<open>nil\<close> destination.\<close>

definition gcm_seal :: "bytes \<Rightarrow> bytes \<Rightarrow> bytes \<Rightarrow> bytes \<Rightarrow> bytes" where
  "gcm_seal key nonce plaintext aad =
     (let ct = gcm_crypt (aes256 key) nonce plaintext
      in ct @ gcm_tag (aes256 key) nonce aad ct)"

definition gcm_open :: "bytes \<Rightarrow> bytes \<Rightarrow> bytes \<Rightarrow> bytes \<Rightarrow> bytes option" where
  "gcm_open key nonce ciphertext aad =
     (if length ciphertext < 16 then None
      else let n = length ciphertext - 16; ct = take n ciphertext
      in if gcm_tag (aes256 key) nonce aad ct = drop n ciphertext
         then Some (gcm_crypt (aes256 key) nonce ct) else None)"

section \<open>Laws\<close>

lemma length_sha_rounds: "length h = 8 \<Longrightarrow> length (sha_rounds ks w h) = 8"
  by (induction ks w h rule: sha_rounds.induct) (simp_all add: Let_def)

lemma length_sha_block: "length h = 8 \<Longrightarrow> length (sha_block h b) = 8"
  by (simp add: sha_block_def length_sha_rounds)

lemma length_Sum256 [simp]: "length (Sum256 m) = 32"
proof -
  have "length h = 8 \<Longrightarrow> length (foldl sha_block h bs) = 8" for h bs
    by (induction bs arbitrary: h) (simp_all add: length_sha_block)
  moreover have "length sha_H0 = 8" by (simp add: sha_H0_def)
  ultimately show ?thesis
    by (simp add: Sum256_def length_concat comp_def sum_list_triv)
qed

lemma length_hmac_sha256 [simp]: "length (hmac_sha256 k m) = 32"
  by (simp add: hmac_sha256_def Let_def)

lemma length_put128 [simp]: "length (put128 v) = 16"
  by (simp add: put128_def)

lemma length_gcm_tag [simp]: "length (gcm_tag E nonce aad ct) = 16"
  by (simp add: gcm_tag_def)

lemma length_gcm_stream [simp]: "length (gcm_stream E nonce n) = n"
  by (simp add: gcm_stream_def length_concat comp_def sum_list_triv)

lemma length_gcm_crypt [simp]: "length (gcm_crypt E nonce b) = length b"
  by (simp add: gcm_crypt_def xor_bytes_def)

lemma xor_bytes_cancel: "length a = length b \<Longrightarrow> xor_bytes (xor_bytes a b) b = a"
  by (induction a b rule: list_induct2) (simp_all add: xor_bytes_def xor.assoc)

lemma gcm_crypt_twice [simp]: "gcm_crypt E nonce (gcm_crypt E nonce b) = b"
  unfolding gcm_crypt_def by (simp add: xor_bytes_def [of b] length_gcm_stream) (simp add: xor_bytes_cancel flip: xor_bytes_def)

interpretation gcm: aead gcm_seal gcm_open
proof
  show "gcm_open key nonce (gcm_seal key nonce p aad) aad = Some p" for key nonce p aad
    by (simp add: gcm_open_def gcm_seal_def Let_def)
  show "length (gcm_seal key nonce p aad) = length p + 16" for key nonce p aad
    by (simp add: gcm_seal_def Let_def)
  show "c = gcm_seal key nonce p aad" if "gcm_open key nonce c aad = Some p" for key nonce c p aad
    using that by (auto simp: gcm_open_def gcm_seal_def Let_def split: if_splits)
qed

end
