(* ===== verification/GoJson.thy ===== *)
theory GoJson
  imports GoStrings
begin

text \<open>
  The part of \<open>encoding/json\<close> and \<open>unicode/utf8\<close> the probe frames use: writing a struct of
  strings with the encoder's escapes, and reading an object whose values are strings or \<open>null\<close>.
  Any other value is an error for a struct of strings, so the reader gives up on it.
\<close>

section \<open>UTF-8\<close>

definition utf8_cont :: "u8 \<Rightarrow> bool" where
  "utf8_cont b \<longleftrightarrow> 0x80 \<le> b \<and> b \<le> 0xBF"

text \<open>The length of the valid encoding at the head, \<open>0\<close> where \<open>DecodeRune\<close> reports an error.\<close>

definition rune_size :: "u8 \<Rightarrow> nat" where
  "rune_size a =
     (if a < 0x80 then 1
      else if 0xC2 \<le> a \<and> a \<le> 0xDF then 2
      else if 0xE0 \<le> a \<and> a \<le> 0xEF then 3
      else if 0xF0 \<le> a \<and> a \<le> 0xF4 then 4
      else 0)"

definition utf8_second :: "u8 \<Rightarrow> u8 \<Rightarrow> bool" where
  "utf8_second a b \<longleftrightarrow>
     (if a = 0xE0 then 0xA0 else if a = 0xF0 then 0x90 else 0x80) \<le> b \<and>
     b \<le> (if a = 0xED then 0x9F else if a = 0xF4 then 0x8F else 0xBF)"

definition rune_len :: "bytes \<Rightarrow> nat" where
  "rune_len s =
     (case s of [] \<Rightarrow> 0
      | a # t \<Rightarrow>
        if rune_size a \<le> length s \<and> (rune_size a \<le> 1 \<or> utf8_second a (t ! 0)) \<and>
           list_all utf8_cont (take (rune_size a - 2) (drop 1 t))
        then rune_size a else 0)"

text \<open>\<open>utf8.AppendRune\<close>, for a rune that is not a surrogate.\<close>

definition encode_rune :: "nat \<Rightarrow> bytes" where
  "encode_rune r =
     (if r < 0x80 then [of_nat r]
      else if r < 0x800 then [of_nat (0xC0 + r div 64), of_nat (0x80 + r mod 64)]
      else if r < 0x10000 then
        [of_nat (0xE0 + r div 4096), of_nat (0x80 + r div 64 mod 64), of_nat (0x80 + r mod 64)]
      else [of_nat (0xF0 + r div 262144), of_nat (0x80 + r div 4096 mod 64),
            of_nat (0x80 + r div 64 mod 64), of_nat (0x80 + r mod 64)])"

definition rune_error :: bytes where "rune_error = [0xEF, 0xBF, 0xBD]"

lemma rune_len_bound: "rune_len s \<le> length s"
  by (cases s) (simp_all add: rune_len_def)

lemma rune_len_take:
  assumes "rune_len s \<noteq> 0"
  shows "rune_len (take (rune_len s) s @ t) = rune_len s"
proof -
  obtain a u where s: "s = a # u" using assms by (cases s) (auto simp: rune_len_def)
  have n: "rune_len s = rune_size a" "rune_size a \<noteq> 0" "rune_size a \<le> length s"
    "rune_size a \<le> 1 \<or> utf8_second a (u ! 0)" "list_all utf8_cont (take (rune_size a - 2) (drop 1 u))"
    using assms by (auto simp: rune_len_def s split: if_splits)
  then obtain k where k: "rune_size a = Suc k" "k \<le> length u" by (cases "rune_size a") (auto simp: s)
  show ?thesis
  proof (cases k)
    case 0
    then show ?thesis using n k by (simp add: s rune_len_def)
  next
    case (Suc l)
    then obtain b v where u: "u = b # v" "l \<le> length v" using k(2) by (cases u) auto
    show ?thesis using n(4,5) k Suc u(2) by (simp add: n(1)) (simp add: u(1) s rune_len_def min_absorb2)
  qed
qed

function valid_utf8 :: "bytes \<Rightarrow> bool" where
  "valid_utf8 s = (if s = [] then True else if rune_len s = 0 then False else valid_utf8 (drop (rune_len s) s))"
  by pat_completeness auto
termination
  by (relation "measure length") (auto simp: Suc_le_eq intro!: diff_less)

declare valid_utf8.simps [simp del]

section \<open>Writing strings\<close>

definition hexb :: "nat \<Rightarrow> u8" where "hexb n = of_nat (of_char (hex_digit n))"

definition json_ascii :: "u8 \<Rightarrow> bytes" where
  "json_ascii b =
     (if b = 0x22 \<or> b = 0x5C then [0x5C, b]
      else if b = 0x08 then [0x5C, 0x62]
      else if b = 0x0C then [0x5C, 0x66]
      else if b = 0x0A then [0x5C, 0x6E]
      else if b = 0x0D then [0x5C, 0x72]
      else if b = 0x09 then [0x5C, 0x74]
      else if b < 0x20 \<or> b = 0x3C \<or> b = 0x3E \<or> b = 0x26
        then [0x5C, 0x75, 0x30, 0x30, hexb (unat b div 16), hexb (unat b mod 16)]
      else [b])"

text \<open>The encoder also escapes the two line separators U+2028 and U+2029.\<close>

function json_body :: "bytes \<Rightarrow> bytes" where
  "json_body [] = []"
| "json_body (b # s) =
     (if b < 0x80 then json_ascii b @ json_body s
      else let n = rune_len (b # s); r = take n (b # s)
      in if n = 0 then [0x5C, 0x75, 0x66, 0x66, 0x66, 0x64] @ json_body s
      else if r = [0xE2, 0x80, 0xA8] then [0x5C, 0x75, 0x32, 0x30, 0x32, 0x38] @ json_body (drop (n - 1) s)
      else if r = [0xE2, 0x80, 0xA9] then [0x5C, 0x75, 0x32, 0x30, 0x32, 0x39] @ json_body (drop (n - 1) s)
      else r @ json_body (drop (n - 1) s))"
  by pat_completeness auto
termination
  by (relation "measure length") auto

declare json_body.simps(2) [simp del]

definition json_quote :: "bytes \<Rightarrow> bytes" where
  "json_quote s = [0x22] @ json_body s @ [0x22]"

section \<open>Reading strings\<close>

definition hexb_value :: "u8 \<Rightarrow> nat option" where
  "hexb_value b = hex_value (char_of (unat b))"

definition getu4 :: "bytes \<Rightarrow> (nat \<times> bytes) option" where
  "getu4 s =
     (case s of a # b # c # d # r \<Rightarrow>
        (case (hexb_value a, hexb_value b, hexb_value c, hexb_value d) of
           (Some h, Some i, Some j, Some k) \<Rightarrow> Some (4096 * h + 256 * i + 16 * j + k, r)
         | _ \<Rightarrow> None)
      | _ \<Rightarrow> None)"

definition simple_escape :: "u8 \<Rightarrow> u8 option" where
  "simple_escape e =
     (if e = 0x22 \<or> e = 0x5C \<or> e = 0x2F then Some e
      else if e = 0x62 then Some 0x08
      else if e = 0x66 then Some 0x0C
      else if e = 0x6E then Some 0x0A
      else if e = 0x72 then Some 0x0D
      else if e = 0x74 then Some 0x09 else None)"

text \<open>After a \<open>\u\<close> escape: a surrogate needs its other half, or it is U+FFFD on its own.\<close>

definition json_escaped_rune :: "nat \<Rightarrow> bytes \<Rightarrow> bytes \<times> bytes" where
  "json_escaped_rune r s =
     (if 0xD800 \<le> r \<and> r < 0xE000 then
        (case (if HasPrefix s [0x5C, 0x75] then getu4 (drop 2 s) else None) of
           Some (l, rest) \<Rightarrow>
             if r < 0xDC00 \<and> 0xDC00 \<le> l \<and> l < 0xE000
             then (encode_rune (0x10000 + 1024 * (r - 0xD800) + (l - 0xDC00)), rest)
             else (rune_error, s)
         | None \<Rightarrow> (rune_error, s))
      else (encode_rune r, s))"

text \<open>One character of a string literal, escaped or not, and what follows it.\<close>

definition json_unit :: "bytes \<Rightarrow> (bytes \<times> bytes) option" where
  "json_unit s =
     (case s of [] \<Rightarrow> None
      | b # s \<Rightarrow>
        if b < 0x20 then None
        else if b = 0x5C then
          (case s of [] \<Rightarrow> None
           | e # t \<Rightarrow>
             (case simple_escape e of
                Some c \<Rightarrow> Some ([c], t)
              | None \<Rightarrow>
                if e = 0x75 then (case getu4 t of None \<Rightarrow> None | Some (r, t) \<Rightarrow> Some (json_escaped_rune r t))
                else None))
        else if b < 0x80 then Some ([b], s)
        else let n = rune_len (b # s)
          in if n = 0 then Some (rune_error, s) else Some (take n (b # s), drop (n - 1) s))"

lemma getu4_length: "getu4 s = Some (r, t) \<Longrightarrow> length t < length s"
  by (auto simp: getu4_def split: list.splits option.splits)

lemma json_escaped_rune_length: "json_escaped_rune r s = (u, t) \<Longrightarrow> length t \<le> length s"
  by (auto simp: json_escaped_rune_def HasPrefix_def dest!: getu4_length split: if_splits option.splits)

lemma json_unit_length: "json_unit s = Some (u, t) \<Longrightarrow> length t < length s"
  by (auto simp: json_unit_def Let_def dest!: getu4_length json_escaped_rune_length split: list.splits if_splits option.splits)

text \<open>The content of a string literal whose opening quote has been read.\<close>

function json_str :: "bytes \<Rightarrow> (bytes \<times> bytes) option" where
  "json_str s =
     (if HasPrefix s [0x22] then Some ([], drop 1 s)
      else case json_unit s of
        None \<Rightarrow> None
      | Some (u, t) \<Rightarrow> map_option (\<lambda>(v, r). (u @ v, r)) (json_str t))"
  by pat_completeness auto
termination
  by (relation "measure length") (auto dest: json_unit_length)

declare json_str.simps [simp del]

lemma json_str_length: "json_str s = Some (v, t) \<Longrightarrow> length t < length s"
proof (induction s arbitrary: v t rule: json_str.induct)
  case (1 s)
  show ?case
  proof (cases "HasPrefix s [0x22]")
    case True
    then show ?thesis using "1.prems" by (subst (asm) json_str.simps) (auto simp: HasPrefix_iff)
  next
    case False
    then obtain u s' v' where u: "json_unit s = Some (u, s')" "json_str s' = Some (v', t)"
      using "1.prems" by (subst (asm) json_str.simps) (auto split: option.splits)
    show ?thesis
      using "1.IH" [OF False u(1) refl u(2)] json_unit_length [OF u(1)] by simp
  qed
qed

section \<open>Reading what was written\<close>

lemma hexb_value_hexb: "n < 16 \<Longrightarrow> hexb_value (hexb n) = Some n"
proof -
  assume n: "n < 16"
  have "(of_char (hex_digit n) :: nat) < 256" by simp
  then have "unat (hexb n) = of_char (hex_digit n)"
    unfolding hexb_def by (intro unat_of_nat_eq) simp
  then show ?thesis by (simp add: hexb_value_def hex_value_digit n)
qed

lemma json_unit_ascii:
  assumes "b < 0x80"
  shows "json_unit (json_ascii b @ s) = Some ([b], s)" "\<not> HasPrefix (json_ascii b @ s) [0x22]"
proof -
  have n: "unat b < 128" using assms by (simp add: word_less_nat_alt)
  have zero: "hexb_value 0x30 = Some 0"
    by (simp add: hexb_value_def hex_value_def Let_def)
  have u: "json_unit ([0x5C, 0x75, 0x30, 0x30, hexb (unat b div 16), hexb (unat b mod 16)] @ s) = Some ([b], s)"
    using n by (simp add: json_unit_def simple_escape_def getu4_def zero hexb_value_hexb json_escaped_rune_def encode_rune_def)
  show "json_unit (json_ascii b @ s) = Some ([b], s)"
    using u assms by (auto simp: json_ascii_def) (simp_all add: json_unit_def simple_escape_def not_less)
  show "\<not> HasPrefix (json_ascii b @ s) [0x22]"
    by (auto simp: json_ascii_def HasPrefix_def)
qed

lemma json_str_unit:
  "json_unit s = Some (u, t) \<Longrightarrow> \<not> HasPrefix s [0x22] \<Longrightarrow> json_str t = Some (v, r) \<Longrightarrow>
     json_str s = Some (u @ v, r)"
  by (subst json_str.simps) simp

lemma json_str_body:
  "valid_utf8 s \<Longrightarrow> json_str (json_body s @ 0x22 # r) = Some (s, r)"
proof (induction s rule: json_body.induct)
  case 1
  show ?case by (subst json_str.simps) (simp add: HasPrefix_def)
next
  case (2 b s)
  show ?case
  proof (cases "b < 0x80")
    case True
    then have "rune_len (b # s) = 1" by (simp add: rune_len_def rune_size_def)
    then have "valid_utf8 s" using "2.prems" by (subst (asm) valid_utf8.simps) simp
    with 2(1) [OF True] have "json_str (json_body s @ 0x22 # r) = Some (s, r)" by simp
    from json_str_unit [OF json_unit_ascii [OF True] this] show ?thesis
      using True by (simp add: json_body.simps(2))
  next
    case False
    define n where "n = rune_len (b # s)"
    have v: "n \<noteq> 0" "valid_utf8 (drop (n - 1) s)"
      using "2.prems" unfolding n_def by (subst (asm) valid_utf8.simps, simp split: if_splits add: drop_Cons')+
    let ?q = "json_body (drop (n - 1) s) @ 0x22 # r" and ?r = "take n (b # s)"
    have ih: "json_str ?q = Some (drop (n - 1) s, r)"
      using 2(2-5) [OF False n_def refl] v by blast
    have len: "n \<le> length (b # s)" unfolding n_def by (rule rune_len_bound)
    have whole: "b # s = ?r @ drop (n - 1) s" using v(1) by (cases n) simp_all
    have plain: "json_str (?r @ ?q) = Some (b # s, r)"
    proof -
      have "rune_len (?r @ ?q) = n" using rune_len_take [of "b # s" ?q] v(1) by (simp add: n_def)
      moreover obtain m where "n = Suc m" using v(1) by (cases n) auto
      moreover have "b \<noteq> 0x22" "\<not> b < 0x20" "b \<noteq> 0x5C" using False by (auto simp: not_less word_le_nat_alt)
      ultimately have "json_unit (?r @ ?q) = Some (?r, ?q)" "\<not> HasPrefix (?r @ ?q) [0x22]"
        using False len by (simp_all add: json_unit_def HasPrefix_def)
      from json_str_unit [OF this ih] whole show ?thesis by simp
    qed
    have esc: "json_str ([0x5C, 0x75, 0x32, 0x30, 0x32, x] @ ?q) = Some (b # s, r)"
      if "(x, y) \<in> {(0x38, 0xA8), (0x39, 0xA9)}" "?r = [0xE2, 0x80, y]" for x y
    proof -
      have "json_unit ([0x5C, 0x75, 0x32, 0x30, 0x32, x] @ ?q) = Some ([0xE2, 0x80, y], ?q)"
        using that(1) by (auto simp: json_unit_def simple_escape_def getu4_def hexb_value_def hex_value_def Let_def
            json_escaped_rune_def encode_rune_def)
      from json_str_unit [OF this _ ih] show ?thesis by (subst whole) (simp add: HasPrefix_def that(2))
    qed
    show ?thesis
      using False v(1) plain esc [of "0x38" "0xA8"] esc [of "0x39" "0xA9"]
      by (simp add: json_body.simps(2) Let_def flip: n_def)
  qed
qed

section \<open>Objects\<close>

definition json_ws :: "u8 \<Rightarrow> bool" where
  "json_ws b \<longleftrightarrow> b = 0x20 \<or> b = 0x09 \<or> b = 0x0D \<or> b = 0x0A"

text \<open>One punctuation byte, after any white space.\<close>

definition expect :: "u8 \<Rightarrow> bytes \<Rightarrow> bytes option" where
  "expect c s = (case dropWhile json_ws s of [] \<Rightarrow> None | b # r \<Rightarrow> if b = c then Some r else None)"

definition json_null :: bytes where "json_null = [0x6E, 0x75, 0x6C, 0x6C]"

text \<open>A string, or \<open>null\<close> as \<open>None\<close>.\<close>

definition json_value :: "bytes \<Rightarrow> (bytes option \<times> bytes) option" where
  "json_value s =
     (case expect 0x22 s of
        Some r \<Rightarrow> map_option (\<lambda>(v, r). (Some v, r)) (json_str r)
      | None \<Rightarrow>
        let s = dropWhile json_ws s in if HasPrefix s json_null then Some (None, drop 4 s) else None)"

definition json_member :: "bytes \<Rightarrow> ((bytes \<times> bytes option) \<times> bytes) option" where
  "json_member s =
     Option.bind (expect 0x22 s) (\<lambda>s.
     Option.bind (json_str s) (\<lambda>(k, s).
     Option.bind (expect 0x3A s) (\<lambda>s.
     map_option (\<lambda>(v, s). ((k, v), s)) (json_value s))))"

lemma expect_length: "expect c s = Some r \<Longrightarrow> length r < length s"
  using length_dropWhile_le [of json_ws s] by (auto simp: expect_def split: list.splits if_splits)

lemma json_value_length: "json_value s = Some (v, r) \<Longrightarrow> length r \<le> length s"
  using length_dropWhile_le [of json_ws s]
  by (fastforce simp: json_value_def Let_def dest: json_str_length expect_length split: option.splits if_splits)

lemma json_member_length: "json_member s = Some (m, r) \<Longrightarrow> length r < length s"
  by (fastforce simp: json_member_def bind_eq_Some_conv dest: json_str_length expect_length json_value_length)

function json_members :: "bytes \<Rightarrow> ((bytes \<times> bytes option) list \<times> bytes) option" where
  "json_members s =
     (case json_member s of
        None \<Rightarrow> None
      | Some (m, s') \<Rightarrow>
        (case expect 0x2C s' of
           Some r \<Rightarrow> map_option (\<lambda>(ms, r). (m # ms, r)) (json_members r)
         | None \<Rightarrow> map_option (\<lambda>r. ([m], r)) (expect 0x7D s')))"
  by pat_completeness auto
termination
  by (relation "measure length") (auto dest!: json_member_length expect_length)

declare json_members.simps [simp del]

definition json_object :: "bytes \<Rightarrow> ((bytes \<times> bytes option) list \<times> bytes) option" where
  "json_object s =
     Option.bind (expect 0x7B s) (\<lambda>s.
     case expect 0x7D s of Some r \<Rightarrow> Some ([], r) | None \<Rightarrow> json_members s)"

text \<open>The compact form \<open>json.Marshal\<close> writes.\<close>

fun json_fields :: "(bytes \<times> bytes) list \<Rightarrow> bytes" where
  "json_fields [] = []"
| "json_fields [(k, v)] = json_quote k @ [0x3A] @ json_quote v"
| "json_fields ((k, v) # kvs) = json_quote k @ [0x3A] @ json_quote v @ [0x2C] @ json_fields kvs"

definition json_write :: "(bytes \<times> bytes) list \<Rightarrow> bytes" where
  "json_write kvs = [0x7B] @ json_fields kvs @ [0x7D]"

lemma expect_Cons: "\<not> json_ws b \<Longrightarrow> expect c (b # s) = (if b = c then Some s else None)"
  by (simp add: expect_def)

lemma json_ws_not [simp]: "\<not> json_ws 0x22" "\<not> json_ws 0x3A" "\<not> json_ws 0x2C" "\<not> json_ws 0x7B" "\<not> json_ws 0x7D"
  by (simp_all add: json_ws_def)

lemma json_member_write:
  "valid_utf8 k \<Longrightarrow> valid_utf8 v \<Longrightarrow>
     json_member (json_quote k @ 0x3A # json_quote v @ r) = Some ((k, Some v), r)"
  by (simp add: json_member_def json_quote_def expect_Cons json_str_body json_value_def)

lemma json_members_write:
  assumes "kvs \<noteq> []" "\<forall>(k, v)\<in>set kvs. valid_utf8 k \<and> valid_utf8 v"
  shows "json_members (json_fields kvs @ 0x7D # r) = Some (map (apsnd Some) kvs, r)"
  using assms
proof (induction kvs rule: json_fields.induct)
  case (2 k v)
  then show ?case
    by (subst json_members.simps) (simp add: json_member_write expect_Cons)
next
  case (3 k v kv kvs)
  then show ?case
    by (subst json_members.simps) (simp add: json_member_write expect_Cons split: prod.splits)
qed simp

lemma json_object_write:
  assumes "\<forall>(k, v)\<in>set kvs. valid_utf8 k \<and> valid_utf8 v"
  shows "json_object (json_write kvs @ r) = Some (map (apsnd Some) kvs, r)"
proof (cases kvs rule: json_fields.cases)
  case (2 k v)
  then show ?thesis
    using json_members_write [of kvs r] assms
    by (simp add: json_object_def json_write_def expect_Cons json_quote_def)
next
  case (3 k v kv kvs')
  then show ?thesis
    using json_members_write [of kvs r] assms
    by (simp add: json_object_def json_write_def expect_Cons json_quote_def)
qed (simp add: json_object_def json_write_def expect_Cons)

section \<open>Field names\<close>

text \<open>
  The decoder matches a key with a field name after folding both to upper case: ASCII letters, and
  the two other runes that fold to one, U+017F to \<open>S\<close> and U+212A to \<open>K\<close>. No other rune folds to an
  ASCII letter, so against an ASCII name only these matter.
\<close>

fun fold_name :: "bytes \<Rightarrow> bytes" where
  "fold_name [] = []"
| "fold_name (b # s) =
     (if HasPrefix (b # s) [0xC5, 0xBF] then 0x53 # fold_name (drop 1 s)
      else if HasPrefix (b # s) [0xE2, 0x84, 0xAA] then 0x4B # fold_name (drop 2 s)
      else (if 0x61 \<le> b \<and> b \<le> 0x7A then b - 0x20 else b) # fold_name s)"

lemma valid_utf8_ascii: "\<forall>b\<in>set s. b < 0x80 \<Longrightarrow> valid_utf8 s"
proof (induction s)
  case (Cons b s)
  then have "rune_len (b # s) = 1" by (simp add: rune_len_def rune_size_def)
  with Cons show ?case by (subst valid_utf8.simps) simp
qed (simp add: valid_utf8.simps)

lemma valid_utf8_graphic: "(\<And>c. c \<in> set s \<Longrightarrow> graphic c) \<Longrightarrow> valid_utf8 (bytes_of s)"
proof (rule valid_utf8_ascii, rule ballI)
  fix b assume g: "\<And>c. c \<in> set s \<Longrightarrow> graphic c" and "b \<in> set (bytes_of s)"
  then obtain c where c: "c \<in> set s" "b = of_nat (of_char c)" by (auto simp: bytes_of_def)
  with g have "(of_char c :: nat) < 128" by (force simp: graphic_def)
  then show "b < 0x80" by (simp add: c(2) word_less_nat_alt unat_of_nat_eq)
qed

end
