(* ===== verification/P2PProbe.thy ===== *)
theory P2PProbe
  imports P2PTickets GoCrypto GoJson
begin

text \<open>
  The authenticated reachability probes of two peers that share a ticket,
  \<open>internal/p2p/probe.go\<close>: building, signing, verifying, and the wire format. The random nonce and
  the clock are arguments; HMAC-SHA256 and JSON compute.
\<close>

section \<open>Frames and tickets\<close>

datatype probe_error =
    ErrNotProbeDatagram
  | ErrInvalidProbeFrame
  | ErrProbeTicketExpired
  | ErrProbeAuthFailed
  | ErrProbeRand \<comment> \<open>the system's random source failed\<close>

record probe_frame =
  pf_Protocol :: string
  pf_Type :: string
  pf_TicketID :: string
  pf_SourceNode :: string
  pf_TargetNode :: string
  pf_Nonce :: string
  pf_MAC :: string

abbreviation ProbeProtocol :: string where "ProbeProtocol \<equiv> ''xray-mesh-p2p/1''"
abbreviation ProbeTypeProbe :: string where "ProbeTypeProbe \<equiv> ''probe''"
abbreviation ProbeTypeAck :: string where "ProbeTypeAck \<equiv> ''probe_ack''"

definition zero_frame :: probe_frame where
  "zero_frame = \<lparr>pf_Protocol = '''', pf_Type = '''', pf_TicketID = '''', pf_SourceNode = '''',
     pf_TargetNode = '''', pf_Nonce = '''', pf_MAC = ''''\<rparr>"

definition probeTicketSecret :: "probe_ticket \<Rightarrow> (probe_error, bytes) result" where
  "probeTicketSecret ticket =
     (case hex_decode (TrimSpace (pt_Ticket ticket)) of
        None \<Rightarrow> Fail ErrProbeAuthFailed
      | Some secret \<Rightarrow> if length secret \<noteq> 32 then Fail ErrProbeAuthFailed else Ok secret)"

definition TicketIdentifier :: "probe_ticket \<Rightarrow> (probe_error, string) result" where
  "TicketIdentifier ticket =
     rbind (probeTicketSecret ticket) (\<lambda>secret. Ok (hex_encode (Sum256 secret)))"

text \<open>What is written to the MAC, and the MAC.\<close>

definition probe_message :: "probe_frame \<Rightarrow> bytes" where
  "probe_message f =
     concat (map (\<lambda>value. bytes_of value @ [0])
       [pf_Protocol f, pf_Type f, pf_TicketID f, pf_SourceNode f, pf_TargetNode f, pf_Nonce f])"

definition signProbeFrame :: "probe_frame \<Rightarrow> probe_ticket \<Rightarrow> (probe_error, string) result" where
  "signProbeFrame f ticket =
     rbind (probeTicketSecret ticket) (\<lambda>secret.
       Ok (hex_encode (hmac_sha256 secret (probe_message f))))"

section \<open>Shape\<close>

definition hex_of_length :: "nat \<Rightarrow> string \<Rightarrow> bool" where
  "hex_of_length n s = (case hex_decode s of None \<Rightarrow> False | Some b \<Rightarrow> length b = n)"

definition validateProbeShape :: "probe_frame \<Rightarrow> (probe_error, unit) result" where
  "validateProbeShape f =
     (if pf_Protocol f \<noteq> ProbeProtocol \<or> (pf_Type f \<noteq> ProbeTypeProbe \<and> pf_Type f \<noteq> ProbeTypeAck)
      then Fail ErrInvalidProbeFrame
      else if TrimSpace (pf_SourceNode f) = '''' \<or> TrimSpace (pf_TargetNode f) = '''' \<or>
              pf_SourceNode f = pf_TargetNode f
      then Fail ErrInvalidProbeFrame
      else if \<not> hex_of_length 32 (pf_TicketID f) then Fail ErrInvalidProbeFrame
      else if \<not> hex_of_length 16 (pf_Nonce f) then Fail ErrInvalidProbeFrame
      else Ok ())"

definition validateSignedProbeShape :: "probe_frame \<Rightarrow> (probe_error, unit) result" where
  "validateSignedProbeShape f =
     rbind (validateProbeShape f) (\<lambda>_.
       if \<not> hex_of_length 32 (pf_MAC f) then Fail ErrInvalidProbeFrame else Ok ())"

section \<open>Verification\<close>

definition ticket_expired :: "probe_ticket \<Rightarrow> time \<Rightarrow> bool" where
  "ticket_expired ticket now \<longleftrightarrow> \<not> time_IsZero (pt_ExpiresAt ticket) \<and> \<not> time_Before now (pt_ExpiresAt ticket)"

definition verifyProbeAuth :: "probe_frame \<Rightarrow> probe_ticket \<Rightarrow> time \<Rightarrow> (probe_error, unit) result" where
  "verifyProbeAuth f ticket now =
     (if ticket_expired ticket now then Fail ErrProbeTicketExpired
      else rbind (TicketIdentifier ticket) (\<lambda>ticketID.
        if pf_TicketID f \<noteq> ticketID then Fail ErrProbeAuthFailed
        else rbind (signProbeFrame f ticket) (\<lambda>expected.
          case hex_decode (pf_MAC f) of
            None \<Rightarrow> Fail ErrProbeAuthFailed
          | Some provided \<Rightarrow>
            if length provided \<noteq> 32 then Fail ErrProbeAuthFailed
            else let expectedBytes = (case hex_decode expected of None \<Rightarrow> [] | Some b \<Rightarrow> b)
            in if provided \<noteq> expectedBytes then Fail ErrProbeAuthFailed else Ok ())))"

definition VerifyProbe :: "probe_frame \<Rightarrow> probe_ticket \<Rightarrow> time \<Rightarrow> (probe_error, unit) result" where
  "VerifyProbe f ticket now =
     rbind (validateSignedProbeShape f) (\<lambda>_.
       if pf_Type f \<noteq> ProbeTypeProbe then Fail ErrInvalidProbeFrame
       else if pf_SourceNode f \<noteq> pt_SourceNode ticket \<or> pf_TargetNode f \<noteq> pt_TargetNode ticket
       then Fail ErrProbeAuthFailed
       else verifyProbeAuth f ticket now)"

definition VerifyProbeAck ::
    "probe_frame \<Rightarrow> probe_frame \<Rightarrow> probe_ticket \<Rightarrow> time \<Rightarrow> (probe_error, unit) result" where
  "VerifyProbeAck ack probe ticket now =
     rbind (VerifyProbe probe ticket now) (\<lambda>_.
     rbind (validateSignedProbeShape ack) (\<lambda>_.
       if pf_Type ack \<noteq> ProbeTypeAck \<or> pf_SourceNode ack \<noteq> pf_TargetNode probe \<or>
          pf_TargetNode ack \<noteq> pf_SourceNode probe \<or> pf_Nonce ack \<noteq> pf_Nonce probe \<or>
          pf_TicketID ack \<noteq> pf_TicketID probe
       then Fail ErrProbeAuthFailed
       else verifyProbeAuth ack ticket now))"

section \<open>Building frames\<close>

definition newProbeWithNonce :: "probe_ticket \<Rightarrow> string \<Rightarrow> (probe_error, probe_frame) result" where
  "newProbeWithNonce ticket nonce =
     rbind (TicketIdentifier ticket) (\<lambda>ticketID.
       let frame = \<lparr>pf_Protocol = ProbeProtocol, pf_Type = ProbeTypeProbe, pf_TicketID = ticketID,
                    pf_SourceNode = pt_SourceNode ticket, pf_TargetNode = pt_TargetNode ticket,
                    pf_Nonce = TrimSpace nonce, pf_MAC = ''''\<rparr>
       in rbind (validateProbeShape frame) (\<lambda>_.
          rbind (signProbeFrame frame ticket) (\<lambda>mac. Ok (frame\<lparr>pf_MAC := mac\<rparr>))))"

text \<open>\<open>rnd\<close> is what the random source returned, \<open>None\<close> for its error.\<close>

definition NewProbe :: "probe_ticket \<Rightarrow> bytes option \<Rightarrow> (probe_error, probe_frame) result" where
  "NewProbe ticket rnd =
     (if TrimSpace (pt_SourceNode ticket) = '''' \<or> TrimSpace (pt_TargetNode ticket) = '''' \<or>
         pt_SourceNode ticket = pt_TargetNode ticket
      then Fail ErrInvalidProbeFrame
      else case rnd of
        None \<Rightarrow> Fail ErrProbeRand
      | Some nonceBytes \<Rightarrow> newProbeWithNonce ticket (hex_encode nonceBytes))"

definition NewProbeAck :: "probe_frame \<Rightarrow> probe_ticket \<Rightarrow> time \<Rightarrow> (probe_error, probe_frame) result" where
  "NewProbeAck probe ticket now =
     rbind (VerifyProbe probe ticket now) (\<lambda>_.
       let ack = \<lparr>pf_Protocol = ProbeProtocol, pf_Type = ProbeTypeAck, pf_TicketID = pf_TicketID probe,
                  pf_SourceNode = pf_TargetNode probe, pf_TargetNode = pf_SourceNode probe,
                  pf_Nonce = pf_Nonce probe, pf_MAC = ''''\<rparr>
       in rbind (signProbeFrame ack ticket) (\<lambda>mac. Ok (ack\<lparr>pf_MAC := mac\<rparr>)))"

section \<open>The wire format\<close>

definition probeWirePrefix :: bytes where
  "probeWirePrefix = bytes_of ''XRMP2P1'' @ [0x0A]"

text \<open>\<open>json.Marshal\<close> of the struct: its fields in order, under the names of their tags.\<close>

definition frame_fields :: "probe_frame \<Rightarrow> (string \<times> string) list" where
  "frame_fields f =
     [(''protocol'', pf_Protocol f), (''type'', pf_Type f), (''ticket_id'', pf_TicketID f),
      (''source_node'', pf_SourceNode f), (''target_node'', pf_TargetNode f), (''nonce'', pf_Nonce f),
      (''mac'', pf_MAC f)]"

definition marshal_probe_json :: "probe_frame \<Rightarrow> bytes" where
  "marshal_probe_json f = json_write (map (\<lambda>(k, v). (bytes_of k, bytes_of v)) (frame_fields f))"

definition MarshalProbeFrame :: "probe_frame \<Rightarrow> (probe_error, bytes) result" where
  "MarshalProbeFrame f =
     rbind (validateSignedProbeShape f) (\<lambda>_. Ok (probeWirePrefix @ marshal_probe_json f))"

text \<open>One member of the decoded object: \<open>null\<close> leaves the field, an unknown name is an error.\<close>

definition set_field :: "bytes \<times> bytes option \<Rightarrow> probe_frame \<Rightarrow> probe_frame option" where
  "set_field kv f =
     (let k = fold_name (fst kv); is = (\<lambda>name. k = fold_name (bytes_of name));
          new = (\<lambda>old. case snd kv of None \<Rightarrow> old | Some v \<Rightarrow> string_of v)
      in if is ''protocol'' then Some (f\<lparr>pf_Protocol := new (pf_Protocol f)\<rparr>)
      else if is ''type'' then Some (f\<lparr>pf_Type := new (pf_Type f)\<rparr>)
      else if is ''ticket_id'' then Some (f\<lparr>pf_TicketID := new (pf_TicketID f)\<rparr>)
      else if is ''source_node'' then Some (f\<lparr>pf_SourceNode := new (pf_SourceNode f)\<rparr>)
      else if is ''target_node'' then Some (f\<lparr>pf_TargetNode := new (pf_TargetNode f)\<rparr>)
      else if is ''nonce'' then Some (f\<lparr>pf_Nonce := new (pf_Nonce f)\<rparr>)
      else if is ''mac'' then Some (f\<lparr>pf_MAC := new (pf_MAC f)\<rparr>)
      else None)"

fun set_fields :: "(bytes \<times> bytes option) list \<Rightarrow> probe_frame \<Rightarrow> probe_frame option" where
  "set_fields [] f = Some f"
| "set_fields (kv # kvs) f = Option.bind (set_field kv f) (set_fields kvs)"

text \<open>
  A body that is \<open>null\<close> leaves the zero frame, which the shape check refuses with the same error as
  a body that does not decode; only white space may follow the object.
\<close>

definition ParseProbeFrame :: "bytes \<Rightarrow> (probe_error, probe_frame) result" where
  "ParseProbeFrame data =
     (if \<not> HasPrefix data probeWirePrefix then Fail ErrNotProbeDatagram
      else case json_object (drop (length probeWirePrefix) data) of
        None \<Rightarrow> Fail ErrInvalidProbeFrame
      | Some (kvs, rest) \<Rightarrow>
        (case set_fields kvs zero_frame of
           None \<Rightarrow> Fail ErrInvalidProbeFrame
         | Some frame \<Rightarrow>
           if dropWhile json_ws rest \<noteq> [] then Fail ErrInvalidProbeFrame
           else rbind (validateSignedProbeShape frame) (\<lambda>_. Ok frame)))"

section \<open>Round trip\<close>

lemma hex_of_length_iff: "hex_of_length n s \<longleftrightarrow> (\<exists>b. hex_decode s = Some b \<and> length b = n)"
  by (auto simp: hex_of_length_def split: option.split)

lemma hex_of_length_utf8: "hex_of_length n s \<Longrightarrow> valid_utf8 (bytes_of s)"
  by (auto simp: hex_of_length_iff intro: valid_utf8_graphic hex_decode_graphic)

lemma hex_of_length_encode [simp]: "hex_of_length n (hex_encode b) \<longleftrightarrow> length b = n"
  by (simp add: hex_of_length_iff)

lemma validateProbeShape_Ok:
  "validateProbeShape f = Ok () \<longleftrightarrow> pf_Protocol f = ProbeProtocol \<and>
     (pf_Type f = ProbeTypeProbe \<or> pf_Type f = ProbeTypeAck) \<and>
     TrimSpace (pf_SourceNode f) \<noteq> '''' \<and> TrimSpace (pf_TargetNode f) \<noteq> '''' \<and>
     pf_SourceNode f \<noteq> pf_TargetNode f \<and> hex_of_length 32 (pf_TicketID f) \<and> hex_of_length 16 (pf_Nonce f)"
  by (auto simp: validateProbeShape_def)

lemma validateSignedProbeShape_Ok:
  "validateSignedProbeShape f = Ok () \<longleftrightarrow> validateProbeShape f = Ok () \<and> hex_of_length 32 (pf_MAC f)"
  by (auto simp: validateSignedProbeShape_def rbind_Ok_iff)

text \<open>Every check answers with a frame error or success, so none of them can panic.\<close>

lemma frame_fields_utf8:
  assumes "validateSignedProbeShape f = Ok ()"
    and "valid_utf8 (bytes_of (pf_SourceNode f))" "valid_utf8 (bytes_of (pf_TargetNode f))"
  shows "\<forall>(k, v)\<in>set (map (\<lambda>(k, v). (bytes_of k, bytes_of v)) (frame_fields f)). valid_utf8 k \<and> valid_utf8 v"
proof -
  have ascii: "valid_utf8 (bytes_of s)" if "list_all graphic s" for s
    using that by (auto intro: valid_utf8_graphic simp: list_all_iff)
  have names: "\<forall>k\<in>{''protocol'', ''type'', ''ticket_id'', ''source_node'', ''target_node'', ''nonce'', ''mac'',
      ProbeProtocol, ProbeTypeProbe, ProbeTypeAck}. valid_utf8 (bytes_of k)"
    by (auto intro!: ascii) (simp_all add: graphic_def)
  then have "valid_utf8 (bytes_of (pf_Protocol f))" "valid_utf8 (bytes_of (pf_Type f))"
    "valid_utf8 (bytes_of (pf_TicketID f))" "valid_utf8 (bytes_of (pf_Nonce f))" "valid_utf8 (bytes_of (pf_MAC f))"
    using assms(1) by (auto simp: validateSignedProbeShape_Ok validateProbeShape_Ok hex_of_length_utf8)
  then show ?thesis using names assms(2,3) by (simp add: frame_fields_def)
qed

lemma fold_names:
  "fold_name (bytes_of ''protocol'') = bytes_of ''PROTOCOL''" "fold_name (bytes_of ''type'') = bytes_of ''TYPE''"
  "fold_name (bytes_of ''ticket_id'') = bytes_of ''TICKET_ID''"
  "fold_name (bytes_of ''source_node'') = bytes_of ''SOURCE_NODE''"
  "fold_name (bytes_of ''target_node'') = bytes_of ''TARGET_NODE''"
  "fold_name (bytes_of ''nonce'') = bytes_of ''NONCE''" "fold_name (bytes_of ''mac'') = bytes_of ''MAC''"
  by (simp_all add: bytes_of_def HasPrefix_def)

lemma set_fields_frame:
  "set_fields (map (apsnd Some) (map (\<lambda>(k, v). (bytes_of k, bytes_of v)) (frame_fields f))) zero_frame = Some f"
  by (simp add: frame_fields_def set_field_def fold_names zero_frame_def Let_def)

lemma ParseProbeFrame_marshal:
  assumes "validateSignedProbeShape f = Ok ()"
    and "valid_utf8 (bytes_of (pf_SourceNode f))" "valid_utf8 (bytes_of (pf_TargetNode f))"
    and "list_all json_ws rest"
  shows "ParseProbeFrame (probeWirePrefix @ marshal_probe_json f @ rest) = Ok f"
proof -
  have "dropWhile json_ws rest = []" using assms(4) by (simp add: list_all_iff)
  then show ?thesis
    unfolding ParseProbeFrame_def marshal_probe_json_def
    using json_object_write [OF frame_fields_utf8 [OF assms(1-3)]] assms(1)
    by (simp only: HasPrefix_append append_eq_conv_conj simp_thms if_False append_assoc)
       (simp del: map_map add: set_fields_frame)
qed

section \<open>Authenticity\<close>

lemma probe_message_MAC [simp]: "probe_message (f\<lparr>pf_MAC := m\<rparr>) = probe_message f"
  by (simp add: probe_message_def)

lemma validateProbeShape_MAC [simp]: "validateProbeShape (f\<lparr>pf_MAC := m\<rparr>) = validateProbeShape f"
  by (simp add: validateProbeShape_def)

lemma probeTicketSecret_Ok:
  "probeTicketSecret ticket = Ok secret \<longleftrightarrow> hex_decode (TrimSpace (pt_Ticket ticket)) = Some secret \<and> length secret = 32"
  by (auto simp: probeTicketSecret_def split: option.splits)

lemma verifyProbeAuth_Ok:
  "verifyProbeAuth f ticket now = Ok () \<longleftrightarrow> \<not> ticket_expired ticket now \<and>
     (\<exists>secret. probeTicketSecret ticket = Ok secret \<and> pf_TicketID f = hex_encode (Sum256 secret) \<and>
        hex_decode (pf_MAC f) = Some (hmac_sha256 secret (probe_message f)))"
proof (cases "probeTicketSecret ticket")
  case (Ok secret)
  then show ?thesis
    by (cases "hex_decode (pf_MAC f)")
       (auto simp: verifyProbeAuth_def TicketIdentifier_def signProbeFrame_def Let_def)
qed (simp_all add: verifyProbeAuth_def TicketIdentifier_def)

lemma VerifyProbe_Ok:
  "VerifyProbe f ticket now = Ok () \<longleftrightarrow> validateSignedProbeShape f = Ok () \<and> pf_Type f = ProbeTypeProbe \<and>
     pf_SourceNode f = pt_SourceNode ticket \<and> pf_TargetNode f = pt_TargetNode ticket \<and>
     verifyProbeAuth f ticket now = Ok ()"
  by (auto simp: VerifyProbe_def rbind_Ok_iff)

text \<open>A frame with the MAC the secret gives it.\<close>

definition signed_frame :: "bytes \<Rightarrow> probe_frame \<Rightarrow> probe_frame" where
  "signed_frame secret f = f\<lparr>pf_MAC := hex_encode (hmac_sha256 secret (probe_message f))\<rparr>"

lemma signed_simps [simp]:
  "pf_Protocol (signed_frame secret f) = pf_Protocol f" "pf_Type (signed_frame secret f) = pf_Type f"
  "pf_TicketID (signed_frame secret f) = pf_TicketID f" "pf_SourceNode (signed_frame secret f) = pf_SourceNode f"
  "pf_TargetNode (signed_frame secret f) = pf_TargetNode f" "pf_Nonce (signed_frame secret f) = pf_Nonce f"
  "hex_decode (pf_MAC (signed_frame secret f)) = Some (hmac_sha256 secret (probe_message f))"
  "probe_message (signed_frame secret f) = probe_message f"
  "validateProbeShape (signed_frame secret f) = validateProbeShape f"
  "(signed_frame secret f)\<lparr>pf_MAC := mac\<rparr> = f\<lparr>pf_MAC := mac\<rparr>"
  by (simp_all add: signed_frame_def validateProbeShape_def)

lemma signed_shape: "validateSignedProbeShape (signed_frame secret f) = Ok () \<longleftrightarrow> validateProbeShape f = Ok ()"
  by (simp add: validateSignedProbeShape_Ok hex_of_length_iff)

definition probe_of :: "probe_ticket \<Rightarrow> bytes \<Rightarrow> string \<Rightarrow> probe_frame" where
  "probe_of ticket secret nonce =
     \<lparr>pf_Protocol = ProbeProtocol, pf_Type = ProbeTypeProbe, pf_TicketID = hex_encode (Sum256 secret),
      pf_SourceNode = pt_SourceNode ticket, pf_TargetNode = pt_TargetNode ticket, pf_Nonce = nonce, pf_MAC = ''''\<rparr>"

definition ack_of :: "probe_frame \<Rightarrow> probe_frame" where
  "ack_of probe =
     \<lparr>pf_Protocol = ProbeProtocol, pf_Type = ProbeTypeAck, pf_TicketID = pf_TicketID probe,
      pf_SourceNode = pf_TargetNode probe, pf_TargetNode = pf_SourceNode probe, pf_Nonce = pf_Nonce probe,
      pf_MAC = ''''\<rparr>"

lemma newProbeWithNonce_Ok:
  "newProbeWithNonce ticket nonce = Ok g \<longleftrightarrow>
     (\<exists>secret. probeTicketSecret ticket = Ok secret \<and> validateProbeShape g = Ok () \<and>
        g = signed_frame secret (probe_of ticket secret (TrimSpace nonce)))"
proof (cases "probeTicketSecret ticket")
  case (Ok secret)
  then have "newProbeWithNonce ticket nonce =
      rbind (validateProbeShape (probe_of ticket secret (TrimSpace nonce)))
        (\<lambda>_. Ok (signed_frame secret (probe_of ticket secret (TrimSpace nonce))))"
    by (simp add: newProbeWithNonce_def TicketIdentifier_def signProbeFrame_def Let_def signed_frame_def probe_of_def)
  then show ?thesis using Ok by (auto simp: rbind_Ok_iff)
qed (simp_all add: newProbeWithNonce_def TicketIdentifier_def)

lemma NewProbeAck_Ok:
  "NewProbeAck probe ticket now = Ok g \<longleftrightarrow> VerifyProbe probe ticket now = Ok () \<and>
     (\<exists>secret. probeTicketSecret ticket = Ok secret \<and> g = signed_frame secret (ack_of probe))"
  by (auto simp: NewProbeAck_def signProbeFrame_def rbind_Ok_iff Let_def signed_frame_def ack_of_def)

lemma VerifyProbeAck_Ok:
  "VerifyProbeAck ack probe ticket now = Ok () \<longleftrightarrow> VerifyProbe probe ticket now = Ok () \<and>
     validateSignedProbeShape ack = Ok () \<and> pf_Type ack = ProbeTypeAck \<and>
     pf_SourceNode ack = pf_TargetNode probe \<and> pf_TargetNode ack = pf_SourceNode probe \<and>
     pf_Nonce ack = pf_Nonce probe \<and> pf_TicketID ack = pf_TicketID probe \<and>
     verifyProbeAuth ack ticket now = Ok ()"
  by (auto simp: VerifyProbeAck_def rbind_Ok_iff)

lemma hex_of_length_trim: "hex_of_length n s \<Longrightarrow> TrimSpace s = s"
  by (auto simp: hex_of_length_iff TrimSpace_hex_decode)

text \<open>C19: Nothing but the holder's own frames verify: a probe is accepted for a ticket, at a time,
  exactly if the ticket is live and the probe is the one \<open>newProbeWithNonce\<close> builds from the ticket
  and some 16-byte nonce, up to the spelling of its MAC; and an acknowledgement of a probe exactly if
  the probe verifies and it is the one \<open>NewProbeAck\<close> builds.\<close>

theorem probe_authenticity:
  "(VerifyProbe f ticket now = Ok () \<longleftrightarrow> \<not> ticket_expired ticket now \<and>
      (\<exists>nonce g. hex_of_length 16 nonce \<and> newProbeWithNonce ticket nonce = Ok g \<and>
         f = g\<lparr>pf_MAC := pf_MAC f\<rparr> \<and> hex_decode (pf_MAC f) = hex_decode (pf_MAC g))) \<and>
   (VerifyProbeAck ack probe ticket now = Ok () \<longleftrightarrow> VerifyProbe probe ticket now = Ok () \<and>
      (\<exists>g. NewProbeAck probe ticket now = Ok g \<and> ack = g\<lparr>pf_MAC := pf_MAC ack\<rparr> \<and>
         hex_decode (pf_MAC ack) = hex_decode (pf_MAC g)))"
  (is "(?A \<longleftrightarrow> ?B) \<and> (?C \<longleftrightarrow> ?D)")
proof (rule conjI)
  have probe: "f = (probe_of ticket secret (pf_Nonce f))\<lparr>pf_MAC := pf_MAC f\<rparr> \<longleftrightarrow>
      pf_Protocol f = ProbeProtocol \<and> pf_Type f = ProbeTypeProbe \<and> pf_TicketID f = hex_encode (Sum256 secret) \<and>
      pf_SourceNode f = pt_SourceNode ticket \<and> pf_TargetNode f = pt_TargetNode ticket" for secret
    by (cases f) (auto simp: probe_of_def)
  have nonce: "f = (probe_of ticket secret n)\<lparr>pf_MAC := pf_MAC f\<rparr> \<Longrightarrow> n = pf_Nonce f" for secret n
    by (cases f) (auto simp: probe_of_def)
  show "?A \<longleftrightarrow> ?B"
  proof
    assume A: ?A
    then obtain secret where s: "probeTicketSecret ticket = Ok secret" "\<not> ticket_expired ticket now"
      "pf_TicketID f = hex_encode (Sum256 secret)" "hex_decode (pf_MAC f) = Some (hmac_sha256 secret (probe_message f))"
      by (auto simp: VerifyProbe_Ok verifyProbeAuth_Ok)
    have shape: "validateProbeShape f = Ok ()" using A by (simp add: VerifyProbe_Ok validateSignedProbeShape_Ok)
    then have hex: "hex_of_length 16 (pf_Nonce f)" and proto: "pf_Protocol f = ProbeProtocol"
      by (simp_all add: validateProbeShape_Ok)
    have f: "f = (probe_of ticket secret (pf_Nonce f))\<lparr>pf_MAC := pf_MAC f\<rparr>"
      unfolding probe using A s(3) proto by (simp add: VerifyProbe_Ok)
    let ?g = "signed_frame secret (probe_of ticket secret (pf_Nonce f))"
    have "validateProbeShape (probe_of ticket secret (pf_Nonce f)) = Ok ()"
      "probe_message f = probe_message (probe_of ticket secret (pf_Nonce f))"
      using shape by (metis f validateProbeShape_MAC, metis f probe_message_MAC)
    then have shape': "validateProbeShape ?g = Ok ()" and mac: "hex_decode (pf_MAC f) = hex_decode (pf_MAC ?g)"
      using s(4) by simp_all
    have "newProbeWithNonce ticket (pf_Nonce f) = Ok ?g"
      using s(1) shape' by (simp add: newProbeWithNonce_Ok hex_of_length_trim [OF hex])
    with f hex s(2) mac show ?B by (metis signed_simps(10))
  next
    assume ?B
    then obtain n secret where live: "\<not> ticket_expired ticket now" and hex: "hex_of_length 16 n"
      and s: "probeTicketSecret ticket = Ok secret"
      and shape: "validateProbeShape (signed_frame secret (probe_of ticket secret n)) = Ok ()"
      and f: "f = (probe_of ticket secret n)\<lparr>pf_MAC := pf_MAC f\<rparr>"
      and mac: "hex_decode (pf_MAC f) = Some (hmac_sha256 secret (probe_message (probe_of ticket secret n)))"
      by (auto simp: newProbeWithNonce_Ok hex_of_length_trim)
    have msg: "probe_message f = probe_message (probe_of ticket secret n)" by (subst f) simp
    have "validateProbeShape f = Ok ()" using shape by (metis f validateProbeShape_MAC signed_simps(9))
    with live s mac msg show ?A using probe nonce [OF f] f
      by (simp add: VerifyProbe_Ok validateSignedProbeShape_Ok verifyProbeAuth_Ok hex_of_length_iff)
  qed
  have ack: "ack = (ack_of probe)\<lparr>pf_MAC := pf_MAC ack\<rparr> \<longleftrightarrow>
      pf_Protocol ack = ProbeProtocol \<and> pf_Type ack = ProbeTypeAck \<and> pf_TicketID ack = pf_TicketID probe \<and>
      pf_SourceNode ack = pf_TargetNode probe \<and> pf_TargetNode ack = pf_SourceNode probe \<and> pf_Nonce ack = pf_Nonce probe"
    by (cases ack) (auto simp: ack_of_def)
  show "?C \<longleftrightarrow> ?D"
  proof
    assume C: ?C
    then obtain secret where s: "probeTicketSecret ticket = Ok secret"
      "hex_decode (pf_MAC ack) = Some (hmac_sha256 secret (probe_message ack))" "pf_Protocol ack = ProbeProtocol"
      by (auto simp: VerifyProbeAck_Ok verifyProbeAuth_Ok validateSignedProbeShape_Ok validateProbeShape_Ok)
    then have f: "ack = (ack_of probe)\<lparr>pf_MAC := pf_MAC ack\<rparr>"
      unfolding ack using C by (simp add: VerifyProbeAck_Ok)
    have "probe_message ack = probe_message (ack_of probe)" by (subst f) simp
    then show ?D using C s f by (auto simp: VerifyProbeAck_Ok NewProbeAck_Ok)
  next
    assume D: ?D
    then obtain secret where s: "VerifyProbe probe ticket now = Ok ()" "probeTicketSecret ticket = Ok secret"
      "ack = (ack_of probe)\<lparr>pf_MAC := pf_MAC ack\<rparr>"
      "hex_decode (pf_MAC ack) = Some (hmac_sha256 secret (probe_message (ack_of probe)))"
      by (auto simp: NewProbeAck_Ok)
    have msg: "probe_message ack = probe_message (ack_of probe)" by (subst s(3)) simp
    have "validateProbeShape (ack_of probe) = Ok ()"
      using s(1) by (auto simp: VerifyProbe_Ok validateSignedProbeShape_Ok validateProbeShape_Ok ack_of_def)
    then have "validateProbeShape ack = Ok ()" by (metis s(3) validateProbeShape_MAC)
    with s msg show ?C using ack
      by (auto simp: VerifyProbeAck_Ok VerifyProbe_Ok validateSignedProbeShape_Ok verifyProbeAuth_Ok hex_of_length_iff)
  qed
qed

section \<open>The exchange\<close>

text \<open>C21: What \<open>MarshalProbeFrame\<close> writes, \<open>ParseProbeFrame\<close> reads back as the same frame, even with
  white space after it, for node names in UTF-8.\<close>

theorem probe_roundtrip:
  assumes "MarshalProbeFrame f = Ok w" and "list_all json_ws rest"
    and "valid_utf8 (bytes_of (pf_SourceNode f))" "valid_utf8 (bytes_of (pf_TargetNode f))"
  shows "ParseProbeFrame (w @ rest) = Ok f"
  using assms by (auto simp: MarshalProbeFrame_def rbind_Ok_iff intro: ParseProbeFrame_marshal)

lemma MarshalProbeFrame_signed:
  assumes "validateProbeShape f = Ok ()"
    and "valid_utf8 (bytes_of (pf_SourceNode f))" "valid_utf8 (bytes_of (pf_TargetNode f))"
  obtains w where "MarshalProbeFrame (signed_frame secret f) = Ok w" "ParseProbeFrame w = Ok (signed_frame secret f)"
proof -
  have shape: "validateSignedProbeShape (signed_frame secret f) = Ok ()" using assms(1) by (simp add: signed_shape)
  show thesis
  proof (rule that)
    show "MarshalProbeFrame (signed_frame secret f) = Ok (probeWirePrefix @ marshal_probe_json (signed_frame secret f))"
      using shape by (simp add: MarshalProbeFrame_def)
    show "ParseProbeFrame (probeWirePrefix @ marshal_probe_json (signed_frame secret f)) = Ok (signed_frame secret f)"
      using ParseProbeFrame_marshal [OF shape, of "[]"] assms by simp
  qed
qed

lemma probe_exchange:
  assumes probe: "NewProbe ticket (Some r) = Ok probe" and live: "\<not> ticket_expired ticket t1" "\<not> ticket_expired ticket t2"
    and utf8: "valid_utf8 (bytes_of (pt_SourceNode ticket))" "valid_utf8 (bytes_of (pt_TargetNode ticket))"
  obtains secret w w' where "probeTicketSecret ticket = Ok secret" "validateProbeShape probe = Ok ()"
    "probe = signed_frame secret (probe_of ticket secret (hex_encode r))"
    "MarshalProbeFrame probe = Ok w" "ParseProbeFrame w = Ok probe" "VerifyProbe probe ticket t1 = Ok ()"
    "NewProbeAck probe ticket t1 = Ok (signed_frame secret (ack_of probe))"
    "validateProbeShape (ack_of probe) = Ok ()"
    "MarshalProbeFrame (signed_frame secret (ack_of probe)) = Ok w'"
    "ParseProbeFrame w' = Ok (signed_frame secret (ack_of probe))"
    "VerifyProbeAck (signed_frame secret (ack_of probe)) probe ticket t2 = Ok ()"
proof -
  obtain secret where s: "probeTicketSecret ticket = Ok secret" "validateProbeShape probe = Ok ()"
    and p: "probe = signed_frame secret (probe_of ticket secret (hex_encode r))"
    using probe by (auto simp: NewProbe_def newProbeWithNonce_Ok split: if_splits)
  have verify: "VerifyProbe probe ticket t = Ok ()" if "\<not> ticket_expired ticket t" for t
    using s that by (auto simp: signed_shape VerifyProbe_Ok verifyProbeAuth_Ok p probe_of_def)
  let ?ack = "signed_frame secret (ack_of probe)"
  have ack: "NewProbeAck probe ticket t1 = Ok ?ack"
    using verify [OF live(1)] s(1) by (auto simp: NewProbeAck_Ok)
  have shape: "validateProbeShape (ack_of probe) = Ok ()"
    using s(2) by (auto simp: validateProbeShape_Ok ack_of_def)
  have "VerifyProbeAck ?ack probe ticket t2 = Ok ()"
    using verify [OF live(2)] s shape live(2)
    by (auto simp: signed_shape VerifyProbeAck_Ok verifyProbeAuth_Ok ack_of_def p probe_of_def)
  moreover obtain w where "MarshalProbeFrame probe = Ok w" "ParseProbeFrame w = Ok probe"
    unfolding p by (rule MarshalProbeFrame_signed [of "probe_of ticket secret (hex_encode r)"])
      (use s(2) utf8 in \<open>simp_all add: p probe_of_def\<close>)
  moreover obtain w' where "MarshalProbeFrame ?ack = Ok w'" "ParseProbeFrame w' = Ok ?ack"
    by (rule MarshalProbeFrame_signed [OF shape]) (use utf8 in \<open>simp_all add: ack_of_def p probe_of_def\<close>)
  ultimately show thesis using that s p verify [OF live(1)] ack shape by blast
qed

text \<open>C20: Two peers that hold the same live ticket complete the exchange: the probe of the ticket's
  source survives the wire, the target answers it with an acknowledgement that survives the wire, and
  the source accepts that; but no probe can be answered by itself, since neither side accepts an
  acknowledgement as a probe.\<close>

theorem probe_handshake:
  assumes probe: "NewProbe ticket (Some r) = Ok probe" and live: "\<not> ticket_expired ticket t1" "\<not> ticket_expired ticket t2"
    and utf8: "valid_utf8 (bytes_of (pt_SourceNode ticket))" "valid_utf8 (bytes_of (pt_TargetNode ticket))"
  shows "\<exists>w ack w'. MarshalProbeFrame probe = Ok w \<and> ParseProbeFrame w = Ok probe \<and>
     NewProbeAck probe ticket t1 = Ok ack \<and> MarshalProbeFrame ack = Ok w' \<and> ParseProbeFrame w' = Ok ack \<and>
     VerifyProbeAck ack probe ticket t2 = Ok () \<and> VerifyProbe ack ticket t1 = Fail ErrInvalidProbeFrame \<and>
     VerifyProbeAck probe probe ticket t2 = Fail ErrProbeAuthFailed"
proof -
  obtain secret w w' where x: "validateProbeShape probe = Ok ()"
    "probe = signed_frame secret (probe_of ticket secret (hex_encode r))"
    "MarshalProbeFrame probe = Ok w" "ParseProbeFrame w = Ok probe"
    "NewProbeAck probe ticket t1 = Ok (signed_frame secret (ack_of probe))" "validateProbeShape (ack_of probe) = Ok ()"
    "MarshalProbeFrame (signed_frame secret (ack_of probe)) = Ok w'"
    "ParseProbeFrame w' = Ok (signed_frame secret (ack_of probe))"
    "VerifyProbeAck (signed_frame secret (ack_of probe)) probe ticket t2 = Ok ()"
    using probe_exchange [OF assms] by blast
  have "VerifyProbe (signed_frame secret (ack_of probe)) ticket t1 = Fail ErrInvalidProbeFrame"
    using x(6) by (simp add: VerifyProbe_def iffD2 [OF signed_shape]) (simp add: ack_of_def)
  moreover have "VerifyProbeAck probe probe ticket t2 = Fail ErrProbeAuthFailed"
  proof -
    have "validateSignedProbeShape probe = Ok ()" using x(1) by (subst x(2)) (simp add: signed_shape x(2))
    moreover have "pf_Type probe \<noteq> ProbeTypeAck" by (subst x(2)) (simp add: probe_of_def)
    moreover have "VerifyProbe probe ticket t2 = Ok ()" using x(9) by (simp add: VerifyProbeAck_Ok)
    ultimately show ?thesis by (simp add: VerifyProbeAck_def)
  qed
  ultimately show ?thesis using x by blast
qed

text \<open>The bytes under the MAC tell frames apart: two well-formed frames whose source names have no
  zero byte and that sign the same bytes agree in every field, so a signature for one frame is none
  for another type, ticket, pair or nonce.\<close>

theorem probe_messages_unambiguous:
  assumes shape: "validateProbeShape f = Ok ()" "validateProbeShape g = Ok ()"
    and nul: "CHR 0x00 \<notin> set (pf_SourceNode f)" "CHR 0x00 \<notin> set (pf_SourceNode g)"
    and msg: "probe_message f = probe_message g"
  shows "f\<lparr>pf_MAC := m\<rparr> = g\<lparr>pf_MAC := m\<rparr>"
proof -
  have zero: "0 \<in> set (bytes_of s) \<longleftrightarrow> CHR 0x00 \<in> set s" for s
  proof -
    have "(of_nat (of_char c) :: u8) = 0 \<longleftrightarrow> c = CHR 0x00" for c :: char
      using bytes_of_inj [of "[c]" "[CHR 0x00]"] by (simp add: bytes_of_def)
    then show ?thesis by (force simp: bytes_of_def)
  qed
  have hex0: "0 \<notin> set (bytes_of s)" if "hex_of_length n s" for n s
    using that by (auto simp: zero hex_of_length_iff graphic_def dest: hex_decode_graphic)
  have len: "length (pf_Nonce f) = length (pf_Nonce g)"
    using shape by (auto simp: validateProbeShape_Ok hex_of_length_iff dest!: length_hex_decode)
  have types: "0 \<notin> set (bytes_of (pf_Type f))" "0 \<notin> set (bytes_of (pf_Type g))"
    "0 \<notin> set (bytes_of (pf_TicketID f))" "0 \<notin> set (bytes_of (pf_TicketID g))" "pf_Protocol f = pf_Protocol g"
    using shape by (auto simp: validateProbeShape_Ok zero dest: hex0 [unfolded zero])
  have "pf_Type f = pf_Type g \<and> pf_TicketID f = pf_TicketID g \<and> pf_SourceNode f = pf_SourceNode g \<and>
      bytes_of (pf_TargetNode f) @ 0 # bytes_of (pf_Nonce f) = bytes_of (pf_TargetNode g) @ 0 # bytes_of (pf_Nonce g)"
    using msg types nul by (simp add: probe_message_def split_at_sep zero)
  then show ?thesis using types(5) len by (auto simp: append_eq_append_conv intro!: probe_frame.equality)
qed

section \<open>A ticket and its exchange\<close>

definition sample_ticket :: probe_ticket where
  "sample_ticket = \<lparr>pt_Ticket = hex_encode (replicate 32 9), pt_SourceNode = ''n1'', pt_TargetNode = ''n2'',
     pt_IssuedAt = 10, pt_ExpiresAt = 30000000010\<rparr>"

definition sample_probe :: probe_frame where
  "sample_probe = signed_frame (replicate 32 9) (probe_of sample_ticket (replicate 32 9) (hex_encode (replicate 16 5)))"

lemma sample_names: "TrimSpace ''n1'' = ''n1''" "TrimSpace ''n2'' = ''n2''"
  "valid_utf8 (bytes_of ''n1'')" "valid_utf8 (bytes_of ''n2'')"
proof -
  show "TrimSpace ''n1'' = ''n1''" "TrimSpace ''n2'' = ''n2''" by code_simp+
  show "valid_utf8 (bytes_of ''n1'')" "valid_utf8 (bytes_of ''n2'')"
    by (rule valid_utf8_graphic, auto simp: graphic_def)+
qed

lemma sample_ticket_secret: "probeTicketSecret sample_ticket = Ok (replicate 32 9)"
  by (simp add: probeTicketSecret_Ok sample_ticket_def)

lemma sample_shape: "validateProbeShape (probe_of sample_ticket (replicate 32 9) (hex_encode (replicate 16 5))) = Ok ()"
  by (simp add: validateProbeShape_Ok probe_of_def sample_names(1,2)) (simp add: sample_ticket_def sample_names)

lemma sample_probe_new: "NewProbe sample_ticket (Some (replicate 16 5)) = Ok sample_probe"
  using sample_shape sample_ticket_secret
  by (auto simp: NewProbe_def newProbeWithNonce_Ok sample_probe_def) (simp_all add: sample_ticket_def sample_names)

theorem probe_handshake_witness:
  "\<exists>w ack w'. MarshalProbeFrame sample_probe = Ok w \<and> ParseProbeFrame w = Ok sample_probe \<and>
     NewProbeAck sample_probe sample_ticket 11 = Ok ack \<and> MarshalProbeFrame ack = Ok w' \<and>
     ParseProbeFrame w' = Ok ack \<and> VerifyProbeAck ack sample_probe sample_ticket 12 = Ok ()"
proof -
  have "\<not> ticket_expired sample_ticket 11" "\<not> ticket_expired sample_ticket 12"
    "valid_utf8 (bytes_of (pt_SourceNode sample_ticket))" "valid_utf8 (bytes_of (pt_TargetNode sample_ticket))"
    by (simp_all add: ticket_expired_def sample_ticket_def sample_names)
  from probe_handshake [OF sample_probe_new this] show ?thesis by auto
qed

theorem probe_roundtrip_witness:
  "ParseProbeFrame (probeWirePrefix @ marshal_probe_json sample_probe @ [0x0A]) = Ok sample_probe"
proof -
  have m: "MarshalProbeFrame sample_probe = Ok (probeWirePrefix @ marshal_probe_json sample_probe)"
    using sample_shape by (simp add: MarshalProbeFrame_def sample_probe_def iffD2 [OF signed_shape])
  have "valid_utf8 (bytes_of (pf_SourceNode sample_probe))" "valid_utf8 (bytes_of (pf_TargetNode sample_probe))"
    by (simp_all add: sample_probe_def probe_of_def) (simp_all add: sample_ticket_def sample_names)
  from probe_roundtrip [OF m _ this, of "[0x0A]"] show ?thesis by (simp add: json_ws_def)
qed

theorem probe_messages_unambiguous_witness:
  "sample_probe\<lparr>pf_MAC := ''''\<rparr> = (sample_probe\<lparr>pf_MAC := ''00''\<rparr>)\<lparr>pf_MAC := ''''\<rparr>"
proof -
  have s: "validateProbeShape sample_probe = Ok ()" using sample_shape by (simp add: sample_probe_def)
  then have t: "validateProbeShape (sample_probe\<lparr>pf_MAC := ''00''\<rparr>) = Ok ()" by simp
  have "pf_SourceNode sample_probe = ''n1''" by (simp add: sample_probe_def probe_of_def) (simp add: sample_ticket_def)
  then show ?thesis by (intro probe_messages_unambiguous [OF s t]) simp_all
qed

end
