(* ===== verification/P2PData.thy ===== *)
theory P2PData
  imports P2PProbe
begin

text \<open>
  Mesh packets sent straight to a peer, \<open>internal/p2p/data.go\<close> and \<open>data_meta.go\<close>: sealing under a
  ticket's secret, opening, and the two identifiers read from the header. The clock and the random
  nonce are arguments; AES-GCM computes.
\<close>

section \<open>Operations\<close>

datatype direct_error =
    ErrNotDirectPayload
  | ErrInvalidDirectPayload
  | ErrDirectPayloadAuthFail
  | TicketFailure probe_error
  | ErrDirectRand \<comment> \<open>the system's random source failed\<close>

definition directPayloadPrefix :: bytes where "directPayloadPrefix = bytes_of ''XRMP2PD1''"

abbreviation directPayloadHeaderLen :: nat where "directPayloadHeaderLen \<equiv> 60"

definition ticketMatchesPair :: "probe_ticket \<Rightarrow> string \<Rightarrow> string \<Rightarrow> bool" where
  "ticketMatchesPair ticket nodeA nodeB \<longleftrightarrow>
     pt_SourceNode ticket = nodeA \<and> pt_TargetNode ticket = nodeB \<or>
     pt_SourceNode ticket = nodeB \<and> pt_TargetNode ticket = nodeA"

definition directPayloadAAD :: "bytes \<Rightarrow> string \<Rightarrow> string \<Rightarrow> bytes" where
  "directPayloadAAD ticketID sourceNode targetNode =
     directPayloadPrefix @ ticketID @ bytes_of sourceNode @ [0] @ bytes_of targetNode @ [0]"

text \<open>
  The secret has 32 bytes, so \<open>aes.NewCipher\<close> and \<open>cipher.NewGCM\<close> succeed and the nonce size is 12;
  the random source fills a buffer of that size.
\<close>

definition SealDirectPayload ::
    "probe_ticket \<Rightarrow> string \<Rightarrow> string \<Rightarrow> bytes \<Rightarrow> time \<Rightarrow> bytes option \<Rightarrow> (direct_error, bytes) result" where
  "SealDirectPayload ticket sourceNode0 targetNode0 payload now rnd =
     (let sourceNode = TrimSpace sourceNode0; targetNode = TrimSpace targetNode0
      in if sourceNode = '''' \<or> targetNode = '''' \<or> sourceNode = targetNode \<or>
            \<not> ticketMatchesPair ticket sourceNode targetNode
      then Fail ErrInvalidDirectPayload
      else if ticket_expired ticket now then Fail (TicketFailure ErrProbeTicketExpired)
      else if length sourceNode > 65535 \<or> length targetNode > 65535 \<or> length payload > 65535
      then Fail ErrInvalidDirectPayload
      else rbind (map_err TicketFailure (probeTicketSecret ticket)) (\<lambda>secret.
        rbind (map_err TicketFailure (TicketIdentifier ticket)) (\<lambda>ticketIDHex.
        case hex_decode ticketIDHex of
          None \<Rightarrow> Fail ErrInvalidDirectPayload
        | Some ticketID \<Rightarrow>
          if length ticketID \<noteq> 32 then Fail ErrInvalidDirectPayload
          else case rnd of
            None \<Rightarrow> Fail ErrDirectRand
          | Some nonce \<Rightarrow>
            let aad = directPayloadAAD ticketID sourceNode targetNode;
                ciphertext = gcm_seal secret nonce payload aad
            in Ok (directPayloadPrefix @ ticketID @ nonce @
                 put16 (of_nat (length sourceNode)) @ put16 (of_nat (length targetNode)) @
                 put32 (of_nat (length ciphertext)) @
                 bytes_of sourceNode @ bytes_of targetNode @ ciphertext))))"

definition uint16_at :: "bytes \<Rightarrow> nat \<Rightarrow> ('e, nat) result" where
  "uint16_at b i = rbind (idx b i) (\<lambda>x. rbind (idx b (i + 1)) (\<lambda>y. Ok (unat (be16 x y))))"

definition uint32_at :: "bytes \<Rightarrow> nat \<Rightarrow> ('e, nat) result" where
  "uint32_at b i =
     rbind (idx b i) (\<lambda>w. rbind (idx b (i + 1)) (\<lambda>x. rbind (idx b (i + 2)) (\<lambda>y. rbind (idx b (i + 3)) (\<lambda>z.
       Ok (unat (be32 w x y z))))))"

definition OpenDirectPayload ::
    "bytes \<Rightarrow> probe_ticket \<Rightarrow> string \<Rightarrow> time \<Rightarrow> (direct_error, string \<times> string \<times> bytes) result" where
  "OpenDirectPayload data ticket expectedTarget now =
     (if \<not> HasPrefix data directPayloadPrefix then Fail ErrNotDirectPayload
      else if length data < directPayloadHeaderLen then Fail ErrInvalidDirectPayload
      else if ticket_expired ticket now then Fail (TicketFailure ErrProbeTicketExpired)
      else rbind (subslice data 8 40) (\<lambda>ticketID.
        rbind (subslice data 40 52) (\<lambda>nonce.
        rbind (uint16_at data 52) (\<lambda>sourceLen.
        rbind (uint16_at data 54) (\<lambda>targetLen.
        rbind (uint32_at data 56) (\<lambda>cipherLen.
        if sourceLen = 0 \<or> targetLen = 0 \<or> cipherLen < 16 then Fail ErrInvalidDirectPayload
        else if directPayloadHeaderLen + sourceLen + targetLen + cipherLen \<noteq> length data
        then Fail ErrInvalidDirectPayload
        else let offset = directPayloadHeaderLen in
        rbind (subslice data offset (offset + sourceLen)) (\<lambda>source. let offset = offset + sourceLen in
        rbind (subslice data offset (offset + targetLen)) (\<lambda>target. let offset = offset + targetLen in
        rbind (subslice data offset (length data)) (\<lambda>ciphertext.
        let sourceNode = string_of source; targetNode = string_of target
        in if TrimSpace expectedTarget = '''' \<or> targetNode \<noteq> TrimSpace expectedTarget \<or>
              \<not> ticketMatchesPair ticket sourceNode targetNode
        then Fail ErrDirectPayloadAuthFail
        else rbind (map_err TicketFailure (TicketIdentifier ticket)) (\<lambda>ticketIDHex.
          let expectedTicketID = (case hex_decode ticketIDHex of None \<Rightarrow> [] | Some b \<Rightarrow> b)
          in if ticketID \<noteq> expectedTicketID then Fail ErrDirectPayloadAuthFail
          else rbind (map_err TicketFailure (probeTicketSecret ticket)) (\<lambda>secret.
            case gcm_open secret nonce ciphertext (directPayloadAAD ticketID sourceNode targetNode) of
              None \<Rightarrow> Fail ErrDirectPayloadAuthFail
            | Some plaintext \<Rightarrow> Ok (sourceNode, targetNode, plaintext))))))))))))"

definition DirectPayloadTicketID :: "bytes \<Rightarrow> (direct_error, string) result" where
  "DirectPayloadTicketID data =
     (if \<not> HasPrefix data directPayloadPrefix then Fail ErrNotDirectPayload
      else if length data < directPayloadHeaderLen then Fail ErrInvalidDirectPayload
      else rbind (subslice data 8 40) (\<lambda>id. Ok (hex_encode id)))"

definition DirectPayloadReplayKey :: "bytes \<Rightarrow> (direct_error, string) result" where
  "DirectPayloadReplayKey data =
     (if \<not> HasPrefix data directPayloadPrefix then Fail ErrNotDirectPayload
      else if length data < directPayloadHeaderLen then Fail ErrInvalidDirectPayload
      else rbind (subslice data 8 52) (\<lambda>key. Ok (hex_encode key)))"

section \<open>The frame as a whole\<close>

text \<open>The header's fields and what follows it, as \<open>SealDirectPayload\<close> lays them out.\<close>

definition direct_frame :: "bytes \<Rightarrow> bytes \<Rightarrow> string \<Rightarrow> string \<Rightarrow> bytes \<Rightarrow> bytes" where
  "direct_frame ticketID nonce sourceNode targetNode ciphertext =
     directPayloadPrefix @ ticketID @ nonce @
       put16 (of_nat (length sourceNode)) @ put16 (of_nat (length targetNode)) @
       put32 (of_nat (length ciphertext)) @ bytes_of sourceNode @ bytes_of targetNode @ ciphertext"

lemma length_prefix [simp]: "length directPayloadPrefix = 8"
  by (simp add: directPayloadPrefix_def)

lemma SealDirectPayload_Ok:
  assumes "s = TrimSpace s0" "t = TrimSpace t0"
  shows "SealDirectPayload ticket s0 t0 payload now (Some nonce) = Ok out \<longleftrightarrow>
    s \<noteq> '''' \<and> t \<noteq> '''' \<and> s \<noteq> t \<and> ticketMatchesPair ticket s t \<and> \<not> ticket_expired ticket now \<and>
    length s \<le> 65535 \<and> length t \<le> 65535 \<and> length payload \<le> 65535 \<and>
    (\<exists>secret. probeTicketSecret ticket = Ok secret \<and>
       out = direct_frame (Sum256 secret) nonce s t
         (gcm_seal secret nonce payload (directPayloadAAD (Sum256 secret) s t)))"
  unfolding assms
  by (cases "probeTicketSecret ticket")
     (auto simp: SealDirectPayload_def TicketIdentifier_def direct_frame_def Let_def not_less)

lemma direct_frame_fields:
  assumes "length ticketID = 32" "length nonce = 12" "length s < 65536" "length t < 65536" "length c < 2 ^ 32"
  defines "d \<equiv> direct_frame ticketID nonce s t c"
  shows "HasPrefix d directPayloadPrefix" "length d = 60 + length s + length t + length c"
    "subslice d 8 40 = Ok ticketID" "subslice d 40 52 = Ok nonce" "subslice d 8 52 = Ok (ticketID @ nonce)"
    "uint16_at d 52 = Ok (length s)" "uint16_at d 54 = Ok (length t)" "uint32_at d 56 = Ok (length c)"
    "subslice d 60 (60 + length s) = Ok (bytes_of s)"
    "subslice d (60 + length s) (60 + length s + length t) = Ok (bytes_of t)"
    "subslice d (60 + length s + length t) (60 + length s + length t + length c) = Ok c"
proof -
  have len: "unat (of_nat (length s) :: u16) = length s" "unat (of_nat (length t) :: u16) = length t"
    "unat (of_nat (length c) :: u32) = length c"
    using assms(3-5) by (simp_all add: unat_of_nat_eq)
  show "HasPrefix d directPayloadPrefix" by (simp add: d_def direct_frame_def)
  show "length d = 60 + length s + length t + length c" using assms(1,2) by (simp add: d_def direct_frame_def)
  then show "subslice d 8 40 = Ok ticketID" "subslice d 40 52 = Ok nonce" "subslice d 8 52 = Ok (ticketID @ nonce)"
    "subslice d 60 (60 + length s) = Ok (bytes_of s)"
    "subslice d (60 + length s) (60 + length s + length t) = Ok (bytes_of t)"
    "subslice d (60 + length s + length t) (60 + length s + length t + length c) = Ok c"
    using assms(1,2) by (simp_all add: d_def direct_frame_def)
  show "uint16_at d 52 = Ok (length s)" "uint16_at d 54 = Ok (length t)" "uint32_at d 56 = Ok (length c)"
    using assms(1,2) by (simp_all add: d_def direct_frame_def uint16_at_def uint32_at_def put16_def put32_def
        idx_def nth_append be16_put be32_put len)
qed

lemma direct_frame_ids:
  assumes "length ticketID = 32" "length nonce = 12" "length s < 65536" "length t < 65536" "length c < 2 ^ 32"
  shows "DirectPayloadTicketID (direct_frame ticketID nonce s t c) = Ok (hex_encode ticketID)"
    "DirectPayloadReplayKey (direct_frame ticketID nonce s t c) = Ok (hex_encode ticketID @ hex_encode nonce)"
  using direct_frame_fields [OF assms]
  by (simp_all add: DirectPayloadTicketID_def DirectPayloadReplayKey_def hex_encode_append)

text \<open>Conversely, a datagram with these fields is the frame made of them.\<close>

lemma direct_frame_of:
  assumes "HasPrefix d directPayloadPrefix" "60 \<le> length d"
    and "uint16_at d 52 = (Ok m :: ('e, nat) result)" "uint16_at d 54 = (Ok n :: ('e, nat) result)"
    and "uint32_at d 56 = (Ok k :: ('e, nat) result)" "60 + m + n + k = length d"
    and "c = take k (drop (60 + m + n) d)"
  shows "d = direct_frame (take 32 (drop 8 d)) (take 12 (drop 40 d)) (string_of (take m (drop 60 d)))
      (string_of (take n (drop (60 + m) d))) c"
proof -
  have piece: "drop i d = take j (drop i d) @ drop (i + j) d" for i j
    by (metis add.commute append_take_drop_id drop_drop)
  have at: "take 2 (drop i d) = [d ! i, d ! (i + 1)]" if "i + 2 \<le> length d" for i
    using that by (simp add: numeral_2_eq_2 take_Suc_conv_app_nth)
  have at4: "take 4 (drop i d) = [d ! i, d ! (i + 1), d ! (i + 2), d ! (i + 3)]" if "i + 4 \<le> length d" for i
    using that by (simp add: numeral_eq_Suc take_Suc_conv_app_nth)
  have m: "take 2 (drop 52 d) = put16 (of_nat m)" "take 2 (drop 54 d) = put16 (of_nat n)"
    using assms(2-4) by (auto simp: at uint16_at_def put16_be)
  have k: "take 4 (drop 56 d) = put32 (of_nat k)"
    using assms(2,5) by (auto simp: at4 uint32_at_def put32_be)
  have "d = take 8 d @ drop 8 d" by simp
  also have "drop 8 d = take 32 (drop 8 d) @ drop 40 d" using piece [of 8 32] by simp
  also have "drop 40 d = take 12 (drop 40 d) @ drop 52 d" using piece [of 40 12] by simp
  also have "drop 52 d = take 2 (drop 52 d) @ drop 54 d" using piece [of 52 2] by simp
  also have "drop 54 d = take 2 (drop 54 d) @ drop 56 d" using piece [of 54 2] by simp
  also have "drop 56 d = take 4 (drop 56 d) @ drop 60 d" using piece [of 56 4] by simp
  also have "drop 60 d = take m (drop 60 d) @ drop (60 + m) d" by (rule piece)
  also have "drop (60 + m) d = take n (drop (60 + m) d) @ drop (60 + m + n) d" by (rule piece)
  also have "drop (60 + m + n) d = c" using assms(6,7) by simp
  finally have "d = take 8 d @ take 32 (drop 8 d) @ take 12 (drop 40 d) @ put16 (of_nat m) @ put16 (of_nat n) @
      put32 (of_nat k) @ take m (drop 60 d) @ take n (drop (60 + m) d) @ c"
    unfolding m k .
  moreover have "take 8 d = directPayloadPrefix" using assms(1) by (simp add: HasPrefix_def)
  moreover have "length (take m (drop 60 d)) = m" "length (take n (drop (60 + m) d)) = n" "length c = k"
    using assms(6,7) by auto
  ultimately show ?thesis by (simp add: direct_frame_def)
qed

lemma Open_direct_frame:
  assumes len: "length ticketID = 32" "length nonce = 12" "length s < 65536" "length t < 65536" "length c < 2 ^ 32"
    and some: "s \<noteq> ''''" "t \<noteq> ''''" "16 \<le> length c"
  shows "OpenDirectPayload (direct_frame ticketID nonce s t c) ticket me now =
    (if ticket_expired ticket now then Fail (TicketFailure ErrProbeTicketExpired)
     else if t \<noteq> TrimSpace me \<or> \<not> ticketMatchesPair ticket s t then Fail ErrDirectPayloadAuthFail
     else case probeTicketSecret ticket of
       Ok secret \<Rightarrow>
         if ticketID \<noteq> Sum256 secret then Fail ErrDirectPayloadAuthFail
         else (case gcm_open secret nonce c (directPayloadAAD ticketID s t) of
                 None \<Rightarrow> Fail ErrDirectPayloadAuthFail | Some p \<Rightarrow> Ok (s, t, p))
     | Fail e \<Rightarrow> Fail (TicketFailure e)
     | Panic \<Rightarrow> Panic)"
proof -
  note fields = direct_frame_fields [OF len]
  have c: "\<not> length c < 16" using some(3) by simp
  show ?thesis
    using some(1,2) c
    by (simp add: OpenDirectPayload_def fields Let_def TicketIdentifier_def split: result.split option.split)
qed

lemma OpenDirectPayload_frame:
  assumes "OpenDirectPayload data ticket me now = Ok r"
  obtains ticketID nonce s t c where "data = direct_frame ticketID nonce s t c"
    "length ticketID = 32" "length nonce = 12" "length s < 65536" "length t < 65536" "length c < 2 ^ 32"
    "s \<noteq> ''''" "t \<noteq> ''''" "16 \<le> length c"
proof -
  from assms obtain m n k where d: "HasPrefix data directPayloadPrefix" "60 \<le> length data"
    and f: "uint16_at data 52 = (Ok m :: (direct_error, nat) result)"
      "uint16_at data 54 = (Ok n :: (direct_error, nat) result)"
      "uint32_at data 56 = (Ok k :: (direct_error, nat) result)"
    and len: "0 < m" "0 < n" "16 \<le> k" "60 + m + n + k = length data"
    by (auto simp: OpenDirectPayload_def rbind_Ok_iff not_less split: if_splits)
  have "m < 65536" "n < 65536" "k < 2 ^ 32"
    using f unat_u16_less by (auto simp: uint16_at_def uint32_at_def rbind_Ok_iff) (use unsigned_less [where 'a = nat and 'b = 32] in simp)
  then show thesis
    using that [OF direct_frame_of [OF d f len(4) refl]] d len by (auto simp: string_of_def)
qed

lemma OpenDirectPayload_Ok:
  "OpenDirectPayload data ticket me now = Ok (s, t, p) \<longleftrightarrow>
     \<not> ticket_expired ticket now \<and> s \<noteq> '''' \<and> t \<noteq> '''' \<and> t = TrimSpace me \<and> ticketMatchesPair ticket s t \<and>
     length s < 65536 \<and> length t < 65536 \<and> length p + 16 < 2 ^ 32 \<and>
     (\<exists>secret nonce. probeTicketSecret ticket = Ok secret \<and> length nonce = 12 \<and>
        data = direct_frame (Sum256 secret) nonce s t
          (gcm_seal secret nonce p (directPayloadAAD (Sum256 secret) s t)))" (is "?A \<longleftrightarrow> ?B")
proof
  assume A: ?A
  obtain ticketID nonce s' t' c where d: "data = direct_frame ticketID nonce s' t' c"
    and len: "length ticketID = 32" "length nonce = 12" "length s' < 65536" "length t' < 65536" "length c < 2 ^ 32"
    and some: "s' \<noteq> ''''" "t' \<noteq> ''''" "16 \<le> length c"
    by (rule OpenDirectPayload_frame [OF A])
  from A show ?B
    unfolding d Open_direct_frame [OF len some]
    using len some gcm.unseal_iff gcm.length_seal
    by (auto simp: d split: if_splits result.splits option.splits)
next
  assume ?B
  then show ?A
    by (elim conjE exE) (simp add: Open_direct_frame gcm.length_seal gcm.unseal_seal)
qed

text \<open>C22: What \<open>OpenDirectPayload\<close> accepts is exactly what \<open>SealDirectPayload\<close> makes with the same
  ticket, byte for byte: in particular sealed packets come back unchanged, and a datagram that was
  altered in any byte opens, if at all, only as what sealing its own content would have given.\<close>

theorem direct_payload_authentic:
  assumes "TrimSpace (pt_SourceNode ticket) = pt_SourceNode ticket" "TrimSpace (pt_TargetNode ticket) = pt_TargetNode ticket"
    and "pt_SourceNode ticket \<noteq> pt_TargetNode ticket" and "length data \<le> 65535"
  shows "OpenDirectPayload data ticket me now = Ok (s, t, p) \<longleftrightarrow>
    s = TrimSpace s \<and> t = TrimSpace me \<and>
    (\<exists>nonce. length nonce = 12 \<and> SealDirectPayload ticket s t p now (Some nonce) = Ok data)"
proof -
  have pair: "s = TrimSpace s" "t = TrimSpace t" "s \<noteq> t" if "ticketMatchesPair ticket s t"
    using that assms(1-3) by (auto simp: ticketMatchesPair_def)
  have len: "length p \<le> 65535" "length s \<le> 65535" "length t \<le> 65535"
    if "data = direct_frame (Sum256 secret) nonce s t (gcm_seal secret nonce p aad)" for secret nonce aad
    using assms(4) unfolding that by (auto simp: direct_frame_def gcm.length_seal)
  show ?thesis
  proof
    assume "OpenDirectPayload data ticket me now = Ok (s, t, p)"
    then show "s = TrimSpace s \<and> t = TrimSpace me \<and>
        (\<exists>nonce. length nonce = 12 \<and> SealDirectPayload ticket s t p now (Some nonce) = Ok data)"
      using pair len by (auto simp: OpenDirectPayload_Ok SealDirectPayload_Ok [OF refl refl])
  next
    assume r: "s = TrimSpace s \<and> t = TrimSpace me \<and>
        (\<exists>nonce. length nonce = 12 \<and> SealDirectPayload ticket s t p now (Some nonce) = Ok data)"
    then have "t = TrimSpace t" by simp
    with r obtain nonce where "length nonce = 12" "SealDirectPayload ticket s t p now (Some nonce) = Ok data" by blast
    with r show "OpenDirectPayload data ticket me now = Ok (s, t, p)"
      unfolding SealDirectPayload_Ok [OF conjunct1 [OF r] \<open>t = TrimSpace t\<close>] OpenDirectPayload_Ok
      by auto
  qed
qed

text \<open>A sealed datagram is for one receiver under one ticket: its header names the ticket and, with
  the nonce, a replay key, and opening it at another node, under a ticket of another pair or another
  secret's identifier, or after the expiry fails with the error for that case.\<close>

theorem direct_payload_addressing:
  assumes seal: "SealDirectPayload ticket s t p t0 (Some nonce) = Ok data" "length nonce = 12"
    and ids: "TicketIdentifier ticket = Ok i" "TicketIdentifier ticket' = Ok i'"
  shows "DirectPayloadTicketID data = Ok i \<and> DirectPayloadReplayKey data = Ok (i @ hex_encode nonce) \<and>
    (ticket_expired ticket' now \<longrightarrow>
       OpenDirectPayload data ticket' me now = Fail (TicketFailure ErrProbeTicketExpired)) \<and>
    (\<not> ticket_expired ticket' now \<and>
       (TrimSpace me \<noteq> TrimSpace t \<or> \<not> ticketMatchesPair ticket' (TrimSpace s) (TrimSpace t) \<or> i' \<noteq> i) \<longrightarrow>
       OpenDirectPayload data ticket' me now = Fail ErrDirectPayloadAuthFail)"
proof -
  from ids obtain secret secret' where secrets: "probeTicketSecret ticket = Ok secret" "probeTicketSecret ticket' = Ok secret'"
    and i: "i = hex_encode (Sum256 secret)" "i' = hex_encode (Sum256 secret')"
    by (auto simp: TicketIdentifier_def rbind_Ok_iff)
  let ?s = "TrimSpace s" and ?t = "TrimSpace t"
  let ?c = "gcm_seal secret nonce p (directPayloadAAD (Sum256 secret) ?s ?t)"
  from seal have data: "data = direct_frame (Sum256 secret) nonce ?s ?t ?c"
    and names: "?s \<noteq> ''''" "?t \<noteq> ''''" "length ?s \<le> 65535" "length ?t \<le> 65535" "length p \<le> 65535"
    using secrets by (auto simp: SealDirectPayload_Ok [OF refl refl])
  then have len: "length (Sum256 secret) = 32" "length ?s < 65536" "length ?t < 65536" "length ?c < 2 ^ 32" "16 \<le> length ?c"
    by (simp_all add: gcm.length_seal)
  have "DirectPayloadTicketID data = Ok i" "DirectPayloadReplayKey data = Ok (i @ hex_encode nonce)"
    using direct_frame_ids [OF len(1) seal(2) len(2-4), folded data] by (simp_all add: i)
  moreover have "OpenDirectPayload data ticket' me now = Fail (TicketFailure ErrProbeTicketExpired)"
    if "ticket_expired ticket' now"
    using that by (simp add: data Open_direct_frame [OF len(1) seal(2) len(2-4) names(1,2) len(5)])
  moreover have "OpenDirectPayload data ticket' me now = Fail ErrDirectPayloadAuthFail"
    if "\<not> ticket_expired ticket' now" "TrimSpace me \<noteq> ?t \<or> \<not> ticketMatchesPair ticket' ?s ?t \<or> i' \<noteq> i"
    using that secrets i
    by (auto simp: data Open_direct_frame [OF len(1) seal(2) len(2-4) names(1,2) len(5)])
  ultimately show ?thesis by blast
qed

text \<open>
  The separator of the associated data is a byte a node name may contain, so for such names the
  associated data does not tell the two directions of a pair apart.
\<close>

lemma directPayloadAAD_ambiguous:
  "directPayloadAAD ticketID ''a'' [CHR ''a'', CHR 0x00, CHR ''a''] =
   directPayloadAAD ticketID [CHR ''a'', CHR 0x00, CHR ''a''] ''a''"
  by (simp add: directPayloadAAD_def bytes_of_def)

section \<open>A sealed packet\<close>

definition sample_sealed :: bytes where
  "sample_sealed = direct_frame (Sum256 (replicate 32 9)) (replicate 12 4) ''n1'' ''n2''
     (gcm_seal (replicate 32 9) (replicate 12 4) [1, 2, 3] (directPayloadAAD (Sum256 (replicate 32 9)) ''n1'' ''n2''))"

lemma sample_seal: "SealDirectPayload sample_ticket ''n1'' ''n2'' [1, 2, 3] 11 (Some (replicate 12 4)) = Ok sample_sealed"
  using sample_ticket_secret
  by (simp add: SealDirectPayload_Ok [OF sample_names(1,2) [symmetric]] sample_sealed_def)
     (simp add: ticketMatchesPair_def ticket_expired_def sample_ticket_def)

theorem direct_payload_authentic_witness:
  "OpenDirectPayload sample_sealed sample_ticket '' n2 '' 11 = Ok (''n1'', ''n2'', [1, 2, 3])"
proof -
  have trim: "TrimSpace '' n2 '' = ''n2''" by code_simp
  have names: "pt_SourceNode sample_ticket = ''n1''" "pt_TargetNode sample_ticket = ''n2''"
    by (simp_all add: sample_ticket_def)
  have "length sample_sealed \<le> 65535" by (simp add: sample_sealed_def direct_frame_def gcm.length_seal)
  moreover have "\<exists>nonce. length nonce = 12 \<and>
      SealDirectPayload sample_ticket ''n1'' ''n2'' [1, 2, 3] 11 (Some nonce) = Ok sample_sealed"
    using sample_seal by (intro exI [of _ "replicate 12 4"]) simp
  ultimately show ?thesis
    using direct_payload_authentic [of sample_ticket sample_sealed "'' n2 ''" 11 "''n1''" "''n2''" "[1, 2, 3]"]
    by (simp add: names sample_names trim)
qed

theorem direct_payload_addressing_witness:
  "OpenDirectPayload sample_sealed sample_ticket ''n1'' 12 = Fail ErrDirectPayloadAuthFail \<and>
   OpenDirectPayload sample_sealed sample_ticket ''n2'' 30000000010 = Fail (TicketFailure ErrProbeTicketExpired)"
proof -
  have i: "TicketIdentifier sample_ticket = Ok (hex_encode (Sum256 (replicate 32 9)))"
    by (simp add: TicketIdentifier_def sample_ticket_secret)
  have e: "\<not> ticket_expired sample_ticket 12" "ticket_expired sample_ticket 30000000010"
    by (simp_all add: ticket_expired_def sample_ticket_def)
  note app = direct_payload_addressing [OF sample_seal _ i i]
  show ?thesis
    using app [of 12 "''n1''"] app [of 30000000010 "''n2''"] e by (simp add: sample_names)
qed

end
