(* ===== verification/GoAddrParse.thy ===== *)
theory GoAddrParse
  imports GoAddrText
begin

text \<open>
  Parsing of addresses: \<open>netip.ParseAddr\<close>, \<open>ParsePrefix\<close> and \<open>ParseAddrPort\<close>, branch by branch;
  \<open>None\<close> stands for the error. The IPv4 text form parses back to its address.
\<close>

section \<open>Digits\<close>

definition dec_value :: "char \<Rightarrow> nat option" where
  "dec_value c = (let n = of_char c :: nat in if 48 \<le> n \<and> n \<le> 57 then Some (n - 48) else None)"

definition hex_val :: "char \<Rightarrow> nat option" where
  "hex_val c =
     (let n = of_char c :: nat
      in if 48 \<le> n \<and> n \<le> 57 then Some (n - 48)
      else if 97 \<le> n \<and> n \<le> 102 then Some (n - 87)
      else if 65 \<le> n \<and> n \<le> 70 then Some (n - 55) else None)"

definition digits_val :: "nat \<Rightarrow> nat list \<Rightarrow> nat" where
  "digits_val b ds = foldl (\<lambda>v d. v * b + d) 0 ds"

text \<open>\<open>strconv.ParseUint(s, 10, 16)\<close>.\<close>

definition ParseUint16 :: "string \<Rightarrow> nat option" where
  "ParseUint16 s =
     (if s = '''' \<or> (\<exists>c\<in>set s. dec_value c = None) then None
      else let n = digits_val 10 (map (the \<circ> dec_value) s) in if n \<le> 65535 then Some n else None)"

section \<open>\<open>ParseAddr\<close>\<close>

fun v4_fields :: "nat \<Rightarrow> nat \<Rightarrow> nat list \<Rightarrow> string \<Rightarrow> nat list option" where
  "v4_fields val digLen fs [] = (if length fs < 3 then None else Some (fs @ [val]))"
| "v4_fields val digLen fs (c # cs) =
     (case dec_value c of
        Some d \<Rightarrow>
          if digLen = 1 \<and> val = 0 then None
          else if val * 10 + d > 255 then None
          else v4_fields (val * 10 + d) (digLen + 1) fs cs
      | None \<Rightarrow>
          if c \<noteq> CHR ''.'' then None
          else if digLen = 0 \<or> cs = [] then None
          else if length fs = 3 then None
          else v4_fields 0 0 (fs @ [val]) cs)"

definition parseIPv4 :: "string \<Rightarrow> addr option" where
  "parseIPv4 s =
     (case v4_fields 0 0 [] s of
        Some [a, b, c, d] \<Rightarrow> Some (AddrFrom4 (of_nat a) (of_nat b) (of_nat c) (of_nat d))
      | _ \<Rightarrow> None)"

text \<open>The loop of \<open>parseIPv6\<close>: the bytes so far, the position of the ellipsis, the rest of the text.
  The first argument counts the groups that still fit.\<close>

fun v6_loop :: "nat \<Rightarrow> nat list \<Rightarrow> nat option \<Rightarrow> string \<Rightarrow> (nat list \<times> nat option \<times> string) option" where
  "v6_loop 0 ip ell s = Some (ip, ell, s)"
| "v6_loop (Suc k) ip ell s =
     (let ds = takeWhile (\<lambda>c. hex_val c \<noteq> None) s;
          acc = digits_val 16 (map (the \<circ> hex_val) ds); rest = drop (length ds) s
      in if ds = [] \<or> 4 < length ds then None
      else case rest of
        [] \<Rightarrow> Some (ip @ [acc div 256, acc mod 256], ell, [])
      | c # cs \<Rightarrow>
        if c = CHR ''.'' then
          (if ell = None \<and> length ip \<noteq> 12 then None
           else if length ip + 4 > 16 then None
           else case v4_fields 0 0 [] s of None \<Rightarrow> None | Some fs \<Rightarrow> Some (ip @ fs, ell, []))
        else if c \<noteq> CHR '':'' then None
        else (let ip = ip @ [acc div 256, acc mod 256] in
          case cs of
            [] \<Rightarrow> None
          | d # ds \<Rightarrow>
            if d \<noteq> CHR '':'' then v6_loop k ip ell cs
            else if ell \<noteq> None then None
            else if ds = [] then Some (ip, Some (length ip), [])
            else v6_loop k ip (Some (length ip)) ds))"

definition split_zone :: "string \<Rightarrow> string \<times> string option" where
  "split_zone s =
     (if CHR ''%'' \<in> set s
      then (takeWhile (\<lambda>c. c \<noteq> CHR ''%'') s, Some (tl (dropWhile (\<lambda>c. c \<noteq> CHR ''%'') s)))
      else (s, None))"

definition parseIPv6 :: "string \<Rightarrow> addr option" where
  "parseIPv6 s0 =
     (let (s, z) = split_zone s0; zone = (case z of None \<Rightarrow> '''' | Some x \<Rightarrow> x);
          word = (\<lambda>ip. word_of_int (int (digits_val 256 ip)) :: 128 word)
      in if z = Some '''' then None
      else if HasPrefix s ''::'' \<and> drop 2 s = '''' then Some (Addr6 0 zone)
      else case (if HasPrefix s ''::'' then v6_loop 8 [] (Some 0) (drop 2 s) else v6_loop 8 [] None s) of
        None \<Rightarrow> None
      | Some (ip, ell, rest) \<Rightarrow>
        if rest \<noteq> '''' then None
        else if length ip < 16
        then (case ell of
            None \<Rightarrow> None
          | Some e \<Rightarrow> Some (Addr6 (word (take e ip @ replicate (16 - length ip) 0 @ drop e ip)) zone))
        else if ell \<noteq> None then None
        else Some (Addr6 (word ip) zone))"

fun ParseAddr_from :: "string \<Rightarrow> string \<Rightarrow> addr option" where
  "ParseAddr_from s [] = None"
| "ParseAddr_from s (c # cs) =
     (if c = CHR ''.'' then parseIPv4 s
      else if c = CHR '':'' then parseIPv6 s
      else if c = CHR ''%'' then None
      else ParseAddr_from s cs)"

definition ParseAddr :: "string \<Rightarrow> addr option" where
  "ParseAddr s = ParseAddr_from s s"

section \<open>\<open>ParseAddrPort\<close> and \<open>ParsePrefix\<close>\<close>

definition split_last :: "char \<Rightarrow> string \<Rightarrow> (string \<times> string) option" where
  "split_last c s =
     (if c \<in> set s
      then Some (rev (tl (dropWhile (\<lambda>x. x \<noteq> c) (rev s))), rev (takeWhile (\<lambda>x. x \<noteq> c) (rev s)))
      else None)"

definition ParseAddrPort :: "string \<Rightarrow> (addr \<times> nat) option" where
  "ParseAddrPort s =
     (case split_last (CHR '':'') s of
        None \<Rightarrow> None
      | Some (ip, port) \<Rightarrow>
        if ip = '''' \<or> port = '''' then None
        else let v6 = (hd ip = CHR ''['')
        in if v6 \<and> (length ip < 2 \<or> last ip \<noteq> CHR '']'') then None
        else case (ParseUint16 port, ParseAddr (if v6 then butlast (tl ip) else ip)) of
            (Some n, Some a) \<Rightarrow>
              if v6 \<and> addr_Is4 a then None else if \<not> v6 \<and> \<not> addr_Is4 a then None else Some (a, n)
          | _ \<Rightarrow> None)"

definition ParsePrefix :: "string \<Rightarrow> ip_prefix option" where
  "ParsePrefix s =
     (case split_last (CHR ''/'') s of
        None \<Rightarrow> None
      | Some (ip, bits) \<Rightarrow>
        (case ParseAddr ip of
           None \<Rightarrow> None
         | Some a \<Rightarrow>
           if addr_hasZone a then None
           else if length bits > 1 \<and> (hd bits < CHR ''1'' \<or> hd bits > CHR ''9'') then None
           else if bits = '''' \<or> (\<exists>c\<in>set bits. dec_value c = None) then None
           else let n = digits_val 10 (map (the \<circ> dec_value) bits)
                in if int n > addr_BitLen a then None else Some (PrefixFrom a (int n))))"

section \<open>The IPv4 text form\<close>

lemma dec_value_digit: "d < 10 \<Longrightarrow> dec_value (dec_digit d) = Some d"
  by (simp add: dec_value_def dec_digit_def of_char_of take_bit_nat_eq_self)

lemma dec_value_dot: "dec_value (CHR ''.'') = None" "dec_value (CHR ''/'') = None" "dec_value (CHR '':'') = None"
  by code_simp+

lemma v4_fields_dec:
  "n \<le> 255 \<Longrightarrow> v4_fields 0 0 fs (dec_string n @ rest) = v4_fields n (length (dec_string n)) fs rest"
proof (induction n arbitrary: rest rule: dec_string.induct)
  case (1 n)
  show ?case
  proof (cases "n < 10")
    case True
    then show ?thesis by (subst (1 2) dec_string.simps) (simp add: dec_value_digit)
  next
    case False
    then have "v4_fields 0 0 fs (dec_string n @ rest) =
        v4_fields (n div 10) (length (dec_string (n div 10))) fs (dec_digit (n mod 10) # rest)"
      using 1 by (subst dec_string.simps) simp
    moreover have "n div 10 \<noteq> 0" "n div 10 * 10 + n mod 10 = n" using False by auto
    ultimately show ?thesis using False 1(2) by (subst (2) dec_string.simps) (simp add: dec_value_digit)
  qed
qed

lemma ParseAddr_from_digits:
  "\<forall>c\<in>set ds. dec_value c \<noteq> None \<Longrightarrow> ParseAddr_from s (ds @ CHR ''.'' # rest) = parseIPv4 s"
proof (induction ds)
  case (Cons d ds)
  then have "d \<noteq> CHR ''.''" "d \<noteq> CHR '':''" using dec_value_dot by auto
  moreover have "dec_value (CHR ''%'') = None" by code_simp
  then have "d \<noteq> CHR ''%''" using Cons.prems by auto
  ultimately show ?case using Cons by simp
qed simp

lemma dec_string_values: "c \<in> set (dec_string n) \<Longrightarrow> dec_value c \<noteq> None"
proof (induction n rule: dec_string.induct)
  case (1 n)
  then show ?case
    by (subst (asm) (2) dec_string.simps) (auto simp: dec_value_digit split: if_splits)
qed

lemma dec_string_pos: "0 < length (dec_string n)"
  by (subst dec_string.simps) simp

lemma unat_octet: "unat (w AND 0xff) \<le> 255" for w :: u32
proof -
  have "w AND 0xff \<le> 0xff" by (rule word_and_le1)
  then show ?thesis by (simp add: word_le_nat_alt)
qed

lemma ParseAddr_string4: "ParseAddr (string4 v) = Some (Addr4 v)"
proof -
  let ?a = "\<lambda>k. unat (drop_bit k v AND 0xff)"
  have eq: "string4 v = dec_string (?a 24) @ CHR ''.'' # dec_string (?a 16) @ CHR ''.'' # dec_string (?a 8) @
      CHR ''.'' # dec_string (unat (v AND 0xff)) @ []"
    by (simp add: string4_def)
  have "v4_fields 0 0 [] (string4 v) = Some [?a 24, ?a 16, ?a 8, unat (v AND 0xff)]"
    unfolding eq using dec_string_pos
    by (subst v4_fields_dec [OF unat_octet], simp add: dec_value_dot,
        subst v4_fields_dec [OF unat_octet], simp add: dec_value_dot,
        subst v4_fields_dec [OF unat_octet], simp add: dec_value_dot,
        subst v4_fields_dec [OF unat_octet [of v], of _ "[]", simplified], simp)
  moreover have "of_nat (unat (w AND 0xff)) = (ucast w :: u8)" for w :: u32
  proof -
    have "of_nat (unat (w AND 0xff)) = (ucast (w AND 0xff) :: u8)" by simp
    then show ?thesis by (simp only: octet)
  qed
  ultimately have "parseIPv4 (string4 v) = Some (Addr4 (be32 (ucast (drop_bit 24 v)) (ucast (drop_bit 16 v)) (ucast (drop_bit 8 v)) (ucast v)))"
    by (simp add: parseIPv4_def AddrFrom4_def)
  moreover have "ParseAddr (string4 v) = parseIPv4 (string4 v)"
    unfolding ParseAddr_def eq by (rule ParseAddr_from_digits) (auto dest: dec_string_values)
  ultimately show ?thesis by (simp add: be32_put)
qed

text \<open>An IPv4 UDP address prints to text that parses back.\<close>

lemma digits_val_append: "digits_val b (xs @ [x]) = digits_val b xs * b + x"
  by (simp add: digits_val_def)

lemma digits_val_dec_string: "digits_val 10 (map (the \<circ> dec_value) (dec_string n)) = n"
proof (induction n rule: dec_string.induct)
  case (1 n)
  show ?case
  proof (cases "n < 10")
    case True
    then show ?thesis by (subst dec_string.simps) (simp add: digits_val_def dec_value_digit)
  next
    case False
    then show ?thesis using 1 by (subst dec_string.simps) (simp add: digits_val_append dec_value_digit comp_def)
  qed
qed

lemma ParseUint16_dec_string: "n \<le> 65535 \<Longrightarrow> ParseUint16 (dec_string n) = Some n"
  using digits_val_dec_string [of n] by (auto simp: ParseUint16_def Let_def dec_string_values)

lemma split_last_append: "c \<notin> set t \<Longrightarrow> split_last c (s @ c # t) = Some (s, t)"
proof -
  assume "c \<notin> set t"
  then have "takeWhile (\<lambda>x. x \<noteq> c) (rev t @ c # rev s) = rev t"
    "dropWhile (\<lambda>x. x \<noteq> c) (rev t @ c # rev s) = c # rev s"
    by (induction t rule: rev_induct) auto
  then show ?thesis by (simp add: split_last_def)
qed

lemma dec_value_graphic: "dec_value c \<noteq> None \<Longrightarrow> graphic c"
  by (auto simp: dec_value_def graphic_def Let_def split: if_splits)

lemma string4_ends: "string4 v \<noteq> ''''" "dec_value (hd (string4 v)) \<noteq> None" "CHR '':'' \<notin> set (string4 v)"
proof -
  have "hd (dec_string n @ s) \<in> set (dec_string n)" for n s
    by (cases "dec_string n") (auto dest: arg_cong [of _ _ length] simp: dec_string_pos [of n, THEN less_imp_neq])
  then show "dec_value (hd (string4 v)) \<noteq> None" unfolding string4_def by (blast dest: dec_string_values)
  show "string4 v \<noteq> ''''" by (simp add: string4_def)
  show "CHR '':'' \<notin> set (string4 v)" by (auto simp: string4_def dest: dec_string_digits)
qed

lemma udp4_parses:
  fixes v :: u32
  assumes "0 \<le> port" "port < 65536"
  defines "s \<equiv> udp_String \<lparr>ua_IP = Addr4 v, ua_Port = port, ua_Zone = ''''\<rparr>"
  shows "ParseAddrPort s = Some (Addr4 v, nat port)" "TrimSpace s = s"
proof -
  have s: "s = string4 v @ CHR '':'' # dec_string (nat port)"
    using assms string4_ends(3) by (simp add: s_def udp_String_def JoinHostPort_def int_string_def)
  have "CHR '':'' \<notin> set (dec_string (nat port))" by (auto dest: dec_string_digits)
  then have split: "split_last (CHR '':'') s = Some (string4 v, dec_string (nat port))"
    unfolding s by (rule split_last_append)
  have "hd (string4 v) \<noteq> CHR ''[''" using string4_ends(2) [of v] by (auto simp: dec_value_def)
  then show "ParseAddrPort s = Some (Addr4 v, nat port)"
    using assms(1,2) by (simp add: ParseAddrPort_def split string4_ends(1) ParseUint16_dec_string ParseAddr_string4)
  have "last s \<in> set (dec_string (nat port))" by (simp add: s)
  then have "graphic (last s)" using dec_string_values dec_value_graphic by blast
  moreover have "graphic (hd s)" using string4_ends [of v] dec_value_graphic by (simp add: s)
  ultimately show "TrimSpace s = s" by (intro TrimSpace_graphic) (simp_all add: s)
qed

end
