(* ===== verification/P2PSelector.thy ===== *)
theory P2PSelector
  imports GoStrings GoAddrParse
begin

text \<open>
  Path selection, \<open>internal/p2p/selector.go\<close>, with the process-wide counters of
  \<open>internal/telemetry/p2p.go\<close> it increments: which peers may be reached directly, and until when.
\<close>

section \<open>Counters\<close>

type_synonym u64 = "64 word"

record p2p_counters =
  pc_directHealthyMarks :: u64
  pc_directTX :: u64
  pc_directRX :: u64
  pc_directFallbacks :: u64
  pc_replayDrops :: u64

record p2p_snapshot =
  ps_DirectHealthyMarks :: u64
  ps_DirectTX :: u64
  ps_DirectRX :: u64
  ps_DirectFallbacks :: u64
  ps_ReplayDrops :: u64

definition IncDirectHealthy :: "p2p_counters \<Rightarrow> p2p_counters" where
  "IncDirectHealthy c = c\<lparr>pc_directHealthyMarks := pc_directHealthyMarks c + 1\<rparr>"
definition IncDirectTX :: "p2p_counters \<Rightarrow> p2p_counters" where
  "IncDirectTX c = c\<lparr>pc_directTX := pc_directTX c + 1\<rparr>"
definition IncDirectRX :: "p2p_counters \<Rightarrow> p2p_counters" where
  "IncDirectRX c = c\<lparr>pc_directRX := pc_directRX c + 1\<rparr>"
definition IncDirectFallback :: "p2p_counters \<Rightarrow> p2p_counters" where
  "IncDirectFallback c = c\<lparr>pc_directFallbacks := pc_directFallbacks c + 1\<rparr>"
definition IncReplayDrop :: "p2p_counters \<Rightarrow> p2p_counters" where
  "IncReplayDrop c = c\<lparr>pc_replayDrops := pc_replayDrops c + 1\<rparr>"

definition Snapshot :: "p2p_counters \<Rightarrow> p2p_snapshot" where
  "Snapshot c = \<lparr>ps_DirectHealthyMarks = pc_directHealthyMarks c, ps_DirectTX = pc_directTX c,
     ps_DirectRX = pc_directRX c, ps_DirectFallbacks = pc_directFallbacks c,
     ps_ReplayDrops = pc_replayDrops c\<rparr>"

section \<open>The selector\<close>

record candidate =
  cd_NodeID :: string
  cd_VirtualIP :: string
  cd_Endpoint :: string
  cd_Kind :: string
  cd_ObservedAt :: time

abbreviation CandidateRelayObserved :: string where "CandidateRelayObserved \<equiv> ''relay_observed''"

text \<open>\<open>Selection\<close>: its \<open>Kind\<close> is \<open>relay\<close> or, with an endpoint, \<open>direct\<close>.\<close>

datatype selection = PathRelay | PathDirect (sel_Endpoint: string)

datatype selector_error = ErrNodeIDRequired | ErrBadEndpoint

record direct_state =
  di_endpoint :: string
  di_healthyUntil :: time

record selector =
  se_directTTL :: duration
  se_direct :: "string \<rightharpoonup> direct_state"

definition NewSelector :: "duration \<Rightarrow> selector" where
  "NewSelector directTTL =
     \<lparr>se_directTTL = (if directTTL \<le> 0 then 30 * Second else directTTL), se_direct = Map.empty\<rparr>"

definition MarkDirectHealthy ::
    "time \<Rightarrow> selector \<Rightarrow> p2p_counters \<Rightarrow> string \<Rightarrow> string \<Rightarrow> time
     \<Rightarrow> (selector_error, unit) result \<times> selector \<times> p2p_counters" where
  "MarkDirectHealthy now s c nodeID0 endpoint0 observedAt0 =
     (let nodeID = TrimSpace nodeID0; endpoint = TrimSpace endpoint0
      in if nodeID = '''' then (Fail ErrNodeIDRequired, s, c)
      else if ParseAddrPort endpoint = None then (Fail ErrBadEndpoint, s, c)
      else let observedAt = (if time_IsZero observedAt0 then now else observedAt0)
      in (Ok (),
          s\<lparr>se_direct := (se_direct s)(nodeID \<mapsto>
              \<lparr>di_endpoint = endpoint, di_healthyUntil = time_Add observedAt (se_directTTL s)\<rparr>)\<rparr>,
          IncDirectHealthy c))"

definition MarkDirectFailed :: "selector \<Rightarrow> string \<Rightarrow> selector" where
  "MarkDirectFailed s nodeID = s\<lparr>se_direct := (se_direct s)(TrimSpace nodeID := None)\<rparr>"

definition SelectPath :: "time \<Rightarrow> selector \<Rightarrow> string \<Rightarrow> selection \<times> selector" where
  "SelectPath now s nodeID =
     (case se_direct s (TrimSpace nodeID) of
        None \<Rightarrow> (PathRelay, s)
      | Some state \<Rightarrow>
        if \<not> time_Before now (di_healthyUntil state)
        then (PathRelay, s\<lparr>se_direct := (se_direct s)(TrimSpace nodeID := None)\<rparr>)
        else (PathDirect (di_endpoint state), s))"

section \<open>The selector against its history\<close>

text \<open>
  The specification keeps no map: what \<open>Select\<close> answers is decided by the last mark of the node
  in the history of calls.
\<close>

datatype selector_op =
    SelHealthy time string string time \<comment> \<open>clock, node, endpoint, observed at\<close>
  | SelFailed string
  | SelSelect time string

fun selector_step :: "selector \<times> p2p_counters \<Rightarrow> selector_op \<Rightarrow> selector \<times> p2p_counters" where
  "selector_step (s, c) (SelHealthy now n ep obs) = snd (MarkDirectHealthy now s c n ep obs)"
| "selector_step (s, c) (SelFailed n) = (MarkDirectFailed s n, c)"
| "selector_step (s, c) (SelSelect now n) = (snd (SelectPath now s n), c)"

abbreviation selector_run :: "selector \<times> p2p_counters \<Rightarrow> selector_op list \<Rightarrow> selector \<times> p2p_counters" where
  "selector_run \<equiv> foldl selector_step"

definition mark_ok :: "string \<Rightarrow> string \<Rightarrow> bool" where
  "mark_ok n ep \<longleftrightarrow> TrimSpace n \<noteq> '''' \<and> ParseAddrPort (TrimSpace ep) \<noteq> None"

fun last_mark :: "duration \<Rightarrow> string \<Rightarrow> selector_op list \<Rightarrow> direct_state option" where
  "last_mark ttl n [] = None"
| "last_mark ttl n (x # rest) =
     (case x of
        SelHealthy now m ep obs \<Rightarrow>
          if TrimSpace m = n \<and> mark_ok m ep
          then Some \<lparr>di_endpoint = TrimSpace ep, di_healthyUntil = (if obs = 0 then now else obs) + ttl\<rparr>
          else last_mark ttl n rest
      | SelFailed m \<Rightarrow> if TrimSpace m = n then None else last_mark ttl n rest
      | SelSelect now m \<Rightarrow> last_mark ttl n rest)"

fun op_time :: "selector_op \<Rightarrow> time option" where
  "op_time (SelSelect now n) = Some now"
| "op_time _ = None"

lemma MarkDirectHealthy_eq:
  "MarkDirectHealthy now s c n ep obs =
     (if mark_ok n ep
      then (Ok (), s\<lparr>se_direct := (se_direct s)(TrimSpace n \<mapsto>
              \<lparr>di_endpoint = TrimSpace ep, di_healthyUntil = (if obs = 0 then now else obs) + se_directTTL s\<rparr>)\<rparr>,
          IncDirectHealthy c)
      else (Fail (if TrimSpace n = '''' then ErrNodeIDRequired else ErrBadEndpoint), s, c))"
  by (simp add: MarkDirectHealthy_def mark_ok_def Let_def)

lemma selector_step_ttl: "se_directTTL (fst (selector_step sc x)) = se_directTTL (fst sc)"
  by (cases sc; cases x)
     (simp_all add: MarkDirectHealthy_eq MarkDirectFailed_def SelectPath_def split: option.split)

lemma selector_run_ttl: "se_directTTL (fst (selector_run sc ops)) = se_directTTL (fst sc)"
  by (induction ops arbitrary: sc) (auto simp: selector_step_ttl)

text \<open>The map holds the last mark, unless some \<open>Select\<close> found it expired.\<close>

definition marks_ok :: "time \<Rightarrow> selector \<Rightarrow> (string \<Rightarrow> direct_state option) \<Rightarrow> bool" where
  "marks_ok now s mark \<longleftrightarrow>
     (\<forall>n. se_direct s n = mark n \<or> se_direct s n = None \<and> (\<exists>st. mark n = Some st \<and> di_healthyUntil st \<le> now))"

lemma marks_ok_run:
  assumes "\<forall>t\<in>set (map op_time ops). t = None \<or> (\<exists>u. t = Some u \<and> u \<le> now)"
  shows "marks_ok now (fst (selector_run (NewSelector ttl, c) ops)) (\<lambda>n. last_mark (se_directTTL (NewSelector ttl)) n (rev ops))"
  using assms
proof (induction ops rule: rev_induct)
  case Nil
  show ?case by (simp add: marks_ok_def NewSelector_def)
next
  case (snoc x ops)
  obtain s d where run: "selector_run (NewSelector ttl, c) ops = (s, d)" by fastforce
  have IH: "marks_ok now s (\<lambda>n. last_mark (se_directTTL (NewSelector ttl)) n (rev ops))"
    using snoc run by auto
  have ttl: "se_directTTL s = se_directTTL (NewSelector ttl)"
    using selector_run_ttl [of "(NewSelector ttl, c)" ops] run by simp
  show ?case
  proof (cases x)
    case (SelHealthy t n ep obs)
    then show ?thesis using IH by (auto simp: run marks_ok_def MarkDirectHealthy_eq ttl)
  next
    case (SelFailed n)
    then show ?thesis using IH by (auto simp: run marks_ok_def MarkDirectFailed_def)
  next
    case (SelSelect t n)
    then have "t \<le> now" using snoc.prems by auto
    have s': "fst (selector_run (NewSelector ttl, c) (ops @ [x])) = snd (SelectPath t s n)"
      by (simp add: run SelSelect)
    show ?thesis
    proof (cases "se_direct s (TrimSpace n)")
      case None
      then show ?thesis using IH unfolding s' by (simp add: SelSelect SelectPath_def)
    next
      case (Some st)
      then have "last_mark (se_directTTL (NewSelector ttl)) (TrimSpace n) (rev ops) = Some st"
        using IH unfolding marks_ok_def by (metis option.distinct(1))
      then show ?thesis using IH Some \<open>t \<le> now\<close> unfolding s'
        by (auto simp: SelSelect SelectPath_def marks_ok_def)
    qed
  qed
qed

section \<open>Properties\<close>

text \<open>C18: The selector answers by its history alone: a peer is reached directly, at the endpoint of
  its last successful health mark, exactly if no failure mark came after it and its time to live
  has not run out; otherwise by the relay. The entries \<open>Select\<close> deletes on the way never change an
  answer, as long as the clock does not run backwards.\<close>

theorem selector_follows_marks:
  assumes "\<forall>t\<in>set (map op_time ops). t = None \<or> (\<exists>u. t = Some u \<and> u \<le> now)"
  shows "fst (SelectPath now (fst (selector_run (NewSelector ttl, c) ops)) n) =
    (case last_mark (se_directTTL (NewSelector ttl)) (TrimSpace n) (rev ops) of
       Some st \<Rightarrow> if now < di_healthyUntil st then PathDirect (di_endpoint st) else PathRelay
     | None \<Rightarrow> PathRelay)"
proof -
  let ?s = "fst (selector_run (NewSelector ttl, c) ops)"
  have "se_direct ?s (TrimSpace n) = last_mark (se_directTTL (NewSelector ttl)) (TrimSpace n) (rev ops) \<or>
      se_direct ?s (TrimSpace n) = None \<and>
        (\<exists>st. last_mark (se_directTTL (NewSelector ttl)) (TrimSpace n) (rev ops) = Some st \<and> di_healthyUntil st \<le> now)"
    using marks_ok_run [OF assms] by (simp add: marks_ok_def)
  then show ?thesis
    by (cases "last_mark (se_directTTL (NewSelector ttl)) (TrimSpace n) (rev ops)")
       (auto simp: SelectPath_def)
qed

theorem selector_follows_marks_witness:
  "\<exists>c :: p2p_counters. fst (SelectPath 40 (fst (selector_run (NewSelector 30, c)
      [SelHealthy 12 ''n'' ''1.2.3.4:5'' 0, SelSelect 20 ''n''])) ''n'') = PathDirect ''1.2.3.4:5''"
proof -
  have ep: "TrimSpace ''n'' = ''n''" "TrimSpace ''1.2.3.4:5'' = ''1.2.3.4:5''" by code_simp+
  have p: "split_last (CHR '':'') ''1.2.3.4:5'' = Some (''1.2.3.4'', ''5'')" "ParseUint16 ''5'' = Some 5"
    by (simp_all add: split_last_def ParseUint16_def digits_val_def dec_value_def)
  have "string4 0x01020304 = ''1.2.3.4''"
    by (simp add: string4_def dec_string.simps dec_digit_def) (simp add: char_of_def bit_Suc_0_iff)
  then have "ParseAddr ''1.2.3.4'' = Some (Addr4 0x01020304)" using ParseAddr_string4 [of "0x01020304"] by simp
  then have "mark_ok ''n'' ''1.2.3.4:5''" by (simp add: mark_ok_def ep ParseAddrPort_def p)
  then show ?thesis
    using selector_follows_marks [of "[SelHealthy 12 ''n'' ''1.2.3.4:5'' 0, SelSelect 20 ''n'']" 40 30 _ "''n''"]
    by (auto simp: ep NewSelector_def)
qed

end
