(* ===== verification/ClientRuntime.thy ===== *)
theory ClientRuntime
  imports P2PData P2PSelector MeshPeer PacketIPv4 RelayFrame
begin

text \<open>
  The client's side of direct paths: \<open>cmd/client/p2p_runtime.go\<close>, \<open>direct_runtime.go\<close> and
  \<open>direct_replay.go\<close>. Each operation takes the readings of the clock, the orders in which maps are
  visited, random bytes, and what the coordinator, the resolver and the socket answered as arguments,
  and returns its result, the new state and the datagrams it sent.
\<close>

section \<open>State\<close>

record pending_probe =
  pp_probe :: probe_frame
  pp_ticket :: probe_ticket
  pp_target :: string
  pp_sentAt :: time

text \<open>
  \<open>rt_replay\<close> is the runtime's entry of \<open>directReplayCaches\<close>, empty until it is first used, and
  \<open>rt_counters\<close> the process-wide counters.
\<close>

record p2p_runtime =
  rt_server :: string
  rt_nodeID :: string
  rt_token :: string
  rt_relay :: udp_addr
  rt_selector :: selector
  rt_tickets :: "string \<rightharpoonup> probe_ticket"
  rt_candidates :: "string \<rightharpoonup> candidate"
  rt_pending :: "string \<rightharpoonup> pending_probe"
  rt_lastIssued :: "string \<rightharpoonup> time"
  rt_replay :: "string \<rightharpoonup> time"
  rt_counters :: p2p_counters

datatype runtime_error =
    ProbeFailure probe_error
  | DirectFailure direct_error
  | SelectorFailure selector_error
  | PacketFailure packet_error
  | UnknownTicket string
  | NoPendingNonce
  | SendFailed
  | ResolveFailed
  | NoLiveCandidate string
  | BadCandidateIP string
  | VirtualIPMismatch
  | ErrDirectPayloadReplay
  | IssueFailed string

abbreviation p2pCandidateMaxAge :: duration where "p2pCandidateMaxAge \<equiv> 30 * Second"
abbreviation p2pPendingTTL :: duration where "p2pPendingTTL \<equiv> 10 * Second"
abbreviation p2pTicketIssueRetry :: duration where "p2pTicketIssueRetry \<equiv> 10 * Second"

definition newP2PRuntime :: "string \<Rightarrow> registration_view \<Rightarrow> udp_addr \<Rightarrow> p2p_counters \<Rightarrow> p2p_runtime" where
  "newP2PRuntime server registration relay counters =
     \<lparr>rt_server = TrimRight server ''/'', rt_nodeID = rv_NodeID registration,
      rt_token = rv_SessionToken registration, rt_relay = relay, rt_selector = NewSelector (30 * Second),
      rt_tickets = Map.empty, rt_candidates = Map.empty, rt_pending = Map.empty, rt_lastIssued = Map.empty,
      rt_replay = Map.empty, rt_counters = counters\<rparr>"

type_synonym sent = "(bytes \<times> udp_addr) list"

definition mark_healthy ::
    "time \<Rightarrow> p2p_runtime \<Rightarrow> string \<Rightarrow> udp_addr \<Rightarrow> time \<Rightarrow> (runtime_error, unit) result \<times> p2p_runtime" where
  "mark_healthy clock r node source now =
     (let (res, se, c) = MarkDirectHealthy clock (rt_selector r) (rt_counters r) node (udp_String source) now
      in (map_err SelectorFailure res, r\<lparr>rt_selector := se, rt_counters := c\<rparr>))"

section \<open>Probes received\<close>

text \<open>
  \<open>clock\<close> is the reading the selector would take if \<open>now\<close> were the zero time; \<open>wr\<close> tells whether
  the socket accepts the acknowledgement.
\<close>

definition HandleProbe ::
    "p2p_runtime \<Rightarrow> probe_frame \<Rightarrow> probe_ticket \<Rightarrow> time \<Rightarrow> bool \<Rightarrow> udp_addr
     \<Rightarrow> (runtime_error, unit) result \<times> sent" where
  "HandleProbe r f ticket now wr source =
     (if pf_TargetNode f \<noteq> rt_nodeID r then (Fail (ProbeFailure ErrProbeAuthFailed), [])
      else case rbind (VerifyProbe f ticket now) (\<lambda>_.
                rbind (NewProbeAck f ticket now) MarshalProbeFrame) of
        Fail e \<Rightarrow> (Fail (ProbeFailure e), [])
      | Panic \<Rightarrow> (Panic, [])
      | Ok wire \<Rightarrow> if wr then (Ok (), [(wire, source)]) else (Fail SendFailed, []))"

definition HandleAck ::
    "time \<Rightarrow> p2p_runtime \<Rightarrow> probe_frame \<Rightarrow> time \<Rightarrow> udp_addr \<Rightarrow> (runtime_error, unit) result \<times> p2p_runtime" where
  "HandleAck clock r f now source =
     (case rt_pending r (pf_Nonce f) of
        None \<Rightarrow> (Fail NoPendingNonce, r)
      | Some pending \<Rightarrow>
        (case VerifyProbeAck f (pp_probe pending) (pp_ticket pending) now of
           Fail e \<Rightarrow> (Fail (ProbeFailure e), r)
         | Panic \<Rightarrow> (Panic, r)
         | Ok _ \<Rightarrow>
           mark_healthy clock (r\<lparr>rt_pending := (rt_pending r)(pf_Nonce f := None)\<rparr>) (pp_target pending) source now))"

definition HandleDatagram ::
    "time \<Rightarrow> p2p_runtime \<Rightarrow> bytes \<Rightarrow> udp_addr \<Rightarrow> time \<Rightarrow> bool
     \<Rightarrow> (runtime_error, unit) result \<times> p2p_runtime \<times> sent" where
  "HandleDatagram clock r data source now wr =
     (case ParseProbeFrame data of
        Fail e \<Rightarrow> ((if e = ErrNotProbeDatagram then Ok () else Fail (ProbeFailure e)), r, [])
      | Panic \<Rightarrow> (Panic, r, [])
      | Ok f \<Rightarrow>
        (case rt_tickets r (pf_TicketID f) of
           None \<Rightarrow> (Fail (UnknownTicket (pf_TicketID f)), r, [])
         | Some ticket \<Rightarrow>
           if pf_Type f = ProbeTypeProbe then
             (let (res, out) = HandleProbe r f ticket now wr source in (res, r, out))
           else if pf_Type f = ProbeTypeAck then
             (let (res, r') = HandleAck clock r f now source in (res, r', []))
           else (Fail (ProbeFailure ErrInvalidProbeFrame), r, [])))"

section \<open>Polling the coordinator\<close>

text \<open>\<open>old\<close> is the order in which the runtime's tickets are visited; the merge does not depend on it.\<close>

definition keep_ticket :: "p2p_runtime \<Rightarrow> time \<Rightarrow> probe_ticket \<Rightarrow> bool" where
  "keep_ticket r now ticket \<longleftrightarrow>
     (pt_SourceNode ticket = rt_nodeID r \<or> pt_TargetNode ticket = rt_nodeID r) \<and> \<not> ticket_expired ticket now"

fun next_tickets :: "p2p_runtime \<Rightarrow> time \<Rightarrow> probe_ticket list \<Rightarrow> (string \<rightharpoonup> probe_ticket) \<Rightarrow> (string \<rightharpoonup> probe_ticket)" where
  "next_tickets r now [] m = m"
| "next_tickets r now (ticket # rest) m =
     (if \<not> keep_ticket r now ticket then next_tickets r now rest m
      else case TicketIdentifier ticket of
        Ok tid \<Rightarrow> next_tickets r now rest (m(tid \<mapsto> ticket))
      | _ \<Rightarrow> next_tickets r now rest m)"

definition replaceTickets :: "p2p_runtime \<Rightarrow> probe_ticket list \<Rightarrow> time \<Rightarrow> p2p_runtime" where
  "replaceTickets r tickets now =
     (let fetched = next_tickets r now tickets Map.empty;
          kept = delete_where (\<lambda>ticket. ticket_expired ticket now) (rt_tickets r)
      in r\<lparr>rt_tickets := kept ++ fetched,
           rt_pending := delete_where (\<lambda>p. time_Sub now (pp_sentAt p) \<ge> p2pPendingTTL) (rt_pending r)\<rparr>)"

definition keep_candidate :: "p2p_runtime \<Rightarrow> time \<Rightarrow> candidate \<Rightarrow> bool" where
  "keep_candidate r now c \<longleftrightarrow>
     \<not> (cd_NodeID c = '''' \<or> cd_NodeID c = rt_nodeID r \<or> TrimSpace (cd_Endpoint c) = '''') \<and>
     \<not> (time_IsZero (cd_ObservedAt c) \<or> time_Sub now (cd_ObservedAt c) > p2pCandidateMaxAge \<or>
        time_After (cd_ObservedAt c) (time_Add now (5 * Second)))"

definition replaceCandidates :: "p2p_runtime \<Rightarrow> candidate list \<Rightarrow> time \<Rightarrow> p2p_runtime" where
  "replaceCandidates r candidates now =
     r\<lparr>rt_candidates := foldl (\<lambda>m c. m(cd_NodeID c \<mapsto> c)) Map.empty (filter (keep_candidate r now) candidates)\<rparr>"

definition hasLiveSourceTicket :: "probe_ticket list \<Rightarrow> string \<Rightarrow> string \<Rightarrow> time \<Rightarrow> bool" where
  "hasLiveSourceTicket tickets source target now =
     list_ex (\<lambda>t. pt_SourceNode t = source \<and> pt_TargetNode t = target \<and> \<not> ticket_expired t now) tickets"

section \<open>Requests to the coordinator\<close>

text \<open>
  What a request came back with: nothing, or a status and the outcome of decoding the body. The
  decoded body counts only for a status of the 200s.
\<close>

datatype 'a http_reply = NoReply | HttpReply int "'a option"

definition getJSON :: "'a http_reply \<Rightarrow> 'a option" where
  "getJSON reply =
     (case reply of
        NoReply \<Rightarrow> None
      | HttpReply code body \<Rightarrow> if code < 200 \<or> code \<ge> 300 then None else body)"

definition issueTicket :: "(string \<Rightarrow> probe_ticket http_reply) \<Rightarrow> string \<Rightarrow> (runtime_error, probe_ticket) result" where
  "issueTicket post target =
     (case getJSON (post target) of None \<Rightarrow> Fail (IssueFailed target) | Some ticket \<Rightarrow> Ok ticket)"

text \<open>
  The loop of \<open>issueNeededTickets\<close> over the candidates. The live tickets and the times of the last
  requests are those at its start; the list in the result is the targets asked for.
\<close>

fun issue_loop ::
    "probe_ticket list \<Rightarrow> (string \<rightharpoonup> time) \<Rightarrow> time \<Rightarrow> (string \<Rightarrow> probe_ticket http_reply) \<Rightarrow> candidate list
     \<Rightarrow> p2p_runtime \<Rightarrow> (runtime_error, unit) result \<times> p2p_runtime \<times> string list" where
  "issue_loop tickets lastIssued now post [] r = (Ok (), r, [])"
| "issue_loop tickets lastIssued now post (c # rest) r =
     (let target = cd_NodeID c
      in if rt_nodeID r \<ge> target \<or> hasLiveSourceTicket tickets (rt_nodeID r) target now
      then issue_loop tickets lastIssued now post rest r
      else if (case lastIssued target of None \<Rightarrow> False | Some at0 \<Rightarrow> time_Sub now at0 < p2pTicketIssueRetry)
      then issue_loop tickets lastIssued now post rest r
      else case rbind (issueTicket post target) (\<lambda>ticket.
                map_err ProbeFailure (rbind (TicketIdentifier ticket) (\<lambda>tid. Ok (tid, ticket)))) of
        Fail e \<Rightarrow> (Fail e, r, [target])
      | Panic \<Rightarrow> (Panic, r, [target])
      | Ok (tid, ticket) \<Rightarrow>
        (let (res, r', asked) = issue_loop tickets lastIssued now post rest
               (r\<lparr>rt_tickets := (rt_tickets r)(tid \<mapsto> ticket), rt_lastIssued := (rt_lastIssued r)(target \<mapsto> now)\<rparr>)
         in (res, r', target # asked)))"

definition issueNeededTickets ::
    "p2p_runtime \<Rightarrow> time \<Rightarrow> string list \<Rightarrow> string list \<Rightarrow> (string \<Rightarrow> probe_ticket http_reply)
     \<Rightarrow> (runtime_error, unit) result \<times> p2p_runtime \<times> string list" where
  "issueNeededTickets r now ordC ordT post =
     issue_loop (range_values (rt_tickets r) ordT) (rt_lastIssued r) now post
       (range_values (rt_candidates r) ordC) r"

section \<open>Sending probes\<close>

definition sendProbe ::
    "p2p_runtime \<Rightarrow> probe_ticket \<Rightarrow> candidate \<Rightarrow> bytes option \<Rightarrow> (string \<Rightarrow> udp_addr option) \<Rightarrow> bool \<Rightarrow> time
     \<Rightarrow> (runtime_error, unit) result \<times> p2p_runtime \<times> sent" where
  "sendProbe r ticket c rnd resolve wr now =
     (case NewProbe ticket rnd of
        Fail e \<Rightarrow> (Fail (ProbeFailure e), r, [])
      | Panic \<Rightarrow> (Panic, r, [])
      | Ok probe \<Rightarrow>
        (case MarshalProbeFrame probe of
           Fail e \<Rightarrow> (Fail (ProbeFailure e), r, [])
         | Panic \<Rightarrow> (Panic, r, [])
         | Ok wire \<Rightarrow>
           (case resolve (cd_Endpoint c) of
              None \<Rightarrow> (Fail ResolveFailed, r, [])
            | Some endpoint \<Rightarrow>
              let pending = \<lparr>pp_probe = probe, pp_ticket = ticket, pp_target = pt_TargetNode ticket, pp_sentAt = now\<rparr>
              in if wr
                 then (Ok (), r\<lparr>rt_pending := (rt_pending r)(pf_Nonce probe \<mapsto> pending)\<rparr>, [(wire, endpoint)])
                 else (Fail SendFailed, r\<lparr>rt_pending := (rt_pending r)(pf_Nonce probe := None)\<rparr>, []))))"

text \<open>The tickets of this node, live, whose target is a candidate.\<close>

definition probe_pairs :: "p2p_runtime \<Rightarrow> time \<Rightarrow> string list \<Rightarrow> (probe_ticket \<times> candidate) list" where
  "probe_pairs r now ord =
     concat (map (\<lambda>ticket.
         if pt_SourceNode ticket \<noteq> rt_nodeID r \<or> ticket_expired ticket now then []
         else case rt_candidates r (pt_TargetNode ticket) of None \<Rightarrow> [] | Some c \<Rightarrow> [(ticket, c)])
       (range_values (rt_tickets r) ord))"

text \<open>A failed probe is logged and the loop goes on; the environment is indexed by the pair.\<close>

fun probe_loop ::
    "(nat \<Rightarrow> bytes option) \<Rightarrow> (string \<Rightarrow> udp_addr option) \<Rightarrow> (nat \<Rightarrow> bool) \<Rightarrow> (nat \<Rightarrow> time) \<Rightarrow> nat
     \<Rightarrow> (probe_ticket \<times> candidate) list \<Rightarrow> p2p_runtime \<Rightarrow> p2p_runtime \<times> sent" where
  "probe_loop rnd resolve wr clock n [] r = (r, [])"
| "probe_loop rnd resolve wr clock n ((ticket, c) # rest) r =
     (let (_, r, out) = sendProbe r ticket c (rnd n) resolve (wr n) (clock n);
          (r, out') = probe_loop rnd resolve wr clock (Suc n) rest r
      in (r, out @ out'))"

definition sendProbes ::
    "p2p_runtime \<Rightarrow> time \<Rightarrow> string list \<Rightarrow> (nat \<Rightarrow> bytes option) \<Rightarrow> (string \<Rightarrow> udp_addr option) \<Rightarrow> (nat \<Rightarrow> bool)
     \<Rightarrow> (nat \<Rightarrow> time) \<Rightarrow> p2p_runtime \<times> sent" where
  "sendProbes r now ord rnd resolve wr clock = probe_loop rnd resolve wr clock 0 (probe_pairs r now ord) r"

section \<open>One poll\<close>

text \<open>What a poll meets: the coordinator's answers, the readings of the clock and the rest.\<close>

record poll_env =
  pe_tickets :: "probe_ticket list http_reply"
  pe_candidates :: "candidate list http_reply"
  pe_post :: "string \<Rightarrow> probe_ticket http_reply"
  pe_times :: "time \<times> time \<times> time \<times> time" \<comment> \<open>in the four steps of the cycle\<close>
  pe_ordC :: "string list"
  pe_ordT :: "string list"
  pe_ordP :: "string list"
  pe_rnd :: "nat \<Rightarrow> bytes option"
  pe_resolve :: "string \<Rightarrow> udp_addr option"
  pe_wr :: "nat \<Rightarrow> bool"
  pe_clock :: "nat \<Rightarrow> time"

definition runPollCycle :: "poll_env \<Rightarrow> p2p_runtime \<Rightarrow> p2p_runtime \<times> sent" where
  "runPollCycle e r =
     (let (t1, t2, t3, t4) = pe_times e
      in case getJSON (pe_tickets e) of
        None \<Rightarrow> (r, [])
      | Some tickets \<Rightarrow>
        let r = replaceTickets r tickets t1
        in case getJSON (pe_candidates e) of
          None \<Rightarrow> (r, [])
        | Some candidates \<Rightarrow>
          let r = replaceCandidates r candidates t2;
              (_, r, _) = issueNeededTickets r t3 (pe_ordC e) (pe_ordT e) (pe_post e)
          in sendProbes r t4 (pe_ordP e) (pe_rnd e) (pe_resolve e) (pe_wr e) (pe_clock e))"

definition relayHello :: "p2p_runtime \<Rightarrow> bool \<Rightarrow> sent" where
  "relayHello r wr =
     (case MarshalHello (rt_token r) of Ok hello \<Rightarrow> if wr then [(hello, rt_relay r)] else [] | _ \<Rightarrow> [])"

text \<open>The two loops of the runtime as far as the ticks in the lists: a cycle at once and one per tick, and a
  relay hello per tick unless the token is too long for one.\<close>

fun pollTicks :: "poll_env list \<Rightarrow> p2p_runtime \<Rightarrow> p2p_runtime \<times> sent" where
  "pollTicks [] r = (r, [])"
| "pollTicks (e # es) r = (let (r, out) = runPollCycle e r; (r, rest) = pollTicks es r in (r, out @ rest))"

definition pollLoop :: "poll_env \<Rightarrow> poll_env list \<Rightarrow> p2p_runtime \<Rightarrow> p2p_runtime \<times> sent" where
  "pollLoop first ticks r = pollTicks (first # ticks) r"

definition relayHelloLoop :: "p2p_runtime \<Rightarrow> bool list \<Rightarrow> sent" where
  "relayHelloLoop r ticks = concat (map (relayHello r) ticks)"

text \<open>\<open>Selection\<close> asks the selector.\<close>

definition Selection :: "p2p_runtime \<Rightarrow> time \<Rightarrow> string \<Rightarrow> selection \<times> p2p_runtime" where
  "Selection r clock nodeID = (let (sel, s) = SelectPath clock (rt_selector r) nodeID in (sel, r\<lparr>rt_selector := s\<rparr>))"

section \<open>Direct payloads\<close>

definition candidateForVirtualIP :: "p2p_runtime \<Rightarrow> string list \<Rightarrow> addr \<Rightarrow> candidate option" where
  "candidateForVirtualIP r ord ip =
     find (\<lambda>c. cd_VirtualIP c = addr_String ip) (range_values (rt_candidates r) ord)"

definition liveTicketForPeer :: "p2p_runtime \<Rightarrow> string list \<Rightarrow> string \<Rightarrow> time \<Rightarrow> probe_ticket option" where
  "liveTicketForPeer r ord peerNode now =
     find (\<lambda>t. \<not> ticket_expired t now \<and> ticketMatchesPair t (rt_nodeID r) peerNode) (range_values (rt_tickets r) ord)"

definition count_fallback :: "p2p_runtime \<Rightarrow> p2p_runtime" where
  "count_fallback r = r\<lparr>rt_counters := IncDirectFallback (rt_counters r)\<rparr>"

text \<open>\<open>Ok True\<close> when the packet went out; after \<open>Ok False\<close> and any error the caller uses the relay.\<close>

definition SendDirectPayload ::
    "p2p_runtime \<Rightarrow> string list \<Rightarrow> string list \<Rightarrow> (string \<Rightarrow> udp_addr option) \<Rightarrow> bytes option \<Rightarrow> bool \<Rightarrow> time \<Rightarrow> time
     \<Rightarrow> addr \<Rightarrow> bytes \<Rightarrow> (runtime_error, bool) result \<times> p2p_runtime \<times> sent" where
  "SendDirectPayload r ordC ordT resolve rnd wr now clock destinationIP payload =
     (case candidateForVirtualIP r ordC destinationIP of
        None \<Rightarrow> (Ok False, r, [])
      | Some c \<Rightarrow>
        let (selection, se) = SelectPath clock (rt_selector r) (cd_NodeID c); r = r\<lparr>rt_selector := se\<rparr>
        in case selection of
          PathRelay \<Rightarrow> (Ok False, r, [])
        | PathDirect ep \<Rightarrow>
          if TrimSpace ep = '''' then (Ok False, r, [])
          else case liveTicketForPeer r ordT (cd_NodeID c) now of
            None \<Rightarrow> (Ok False, count_fallback r, [])
          | Some ticket \<Rightarrow>
            (case P2PData.SealDirectPayload ticket (rt_nodeID r) (cd_NodeID c) payload now rnd of
               Fail e \<Rightarrow>
                 ((if e = TicketFailure ErrProbeTicketExpired then Ok False else Fail (DirectFailure e)),
                  count_fallback r, [])
             | Panic \<Rightarrow> (Panic, r, [])
             | Ok wire \<Rightarrow>
               let failed = (count_fallback r)\<lparr>rt_selector := MarkDirectFailed (rt_selector r) (cd_NodeID c)\<rparr>
               in case resolve ep of
                 None \<Rightarrow> (Fail ResolveFailed, failed, [])
               | Some endpoint \<Rightarrow>
                 if \<not> wr then (Fail SendFailed, failed, [])
                 else (Ok True, r\<lparr>rt_counters := IncDirectTX (rt_counters r)\<rparr>, [(wire, endpoint)])))"

definition acceptDirectReplayKey :: "p2p_runtime \<Rightarrow> string \<Rightarrow> time \<Rightarrow> time \<Rightarrow> bool \<times> p2p_runtime" where
  "acceptDirectReplayKey r key expiresAt0 now =
     (let expiresAt = (if time_IsZero expiresAt0 \<or> \<not> time_Before now expiresAt0
                       then time_Add now (30 * Second) else expiresAt0);
          entries = delete_where (\<lambda>expiry. \<not> time_Before now expiry) (rt_replay r)
      in if entries key \<noteq> None then (False, r\<lparr>rt_replay := entries\<rparr>)
         else (True, r\<lparr>rt_replay := entries(key \<mapsto> expiresAt)\<rparr>))"

text \<open>
  The checks of \<open>HandleDirectPayload\<close>, which change nothing: \<open>Ok None\<close> for a datagram of another
  kind, otherwise the source node, the packet, the replay key and the ticket.
\<close>

definition of_option :: "'e \<Rightarrow> 'a option \<Rightarrow> ('e, 'a) result" where
  "of_option e x = (case x of None \<Rightarrow> Fail e | Some v \<Rightarrow> Ok v)"

definition checkDirectPayload ::
    "p2p_runtime \<Rightarrow> bytes \<Rightarrow> addr \<Rightarrow> time
     \<Rightarrow> (runtime_error, (string \<times> bytes \<times> string \<times> probe_ticket) option) result" where
  "checkDirectPayload r data localVirtualIP now =
     (if DirectPayloadTicketID data = Fail ErrNotDirectPayload then Ok None
      else rbind (map_err DirectFailure (DirectPayloadTicketID data)) (\<lambda>ticketID.
        rbind (of_option (UnknownTicket ticketID) (rt_tickets r ticketID)) (\<lambda>ticket.
        rbind (map_err DirectFailure (OpenDirectPayload data ticket (rt_nodeID r) now)) (\<lambda>(sourceNode, _, payload).
        rbind (of_option (NoLiveCandidate sourceNode) (rt_candidates r sourceNode)) (\<lambda>candidate.
        rbind (of_option (BadCandidateIP sourceNode) (ParseAddr (cd_VirtualIP candidate))) (\<lambda>expectedSourceIP.
        rbind (map_err PacketFailure (IPv4Endpoints payload)) (\<lambda>(sourceIP, destinationIP).
        if sourceIP \<noteq> expectedSourceIP \<or> destinationIP \<noteq> localVirtualIP then Fail VirtualIPMismatch
        else rbind (map_err DirectFailure (DirectPayloadReplayKey data)) (\<lambda>replayKey.
          Ok (Some (sourceNode, payload, replayKey, ticket))))))))))"

text \<open>\<open>Ok None\<close> again for another kind, \<open>Ok (Some p)\<close> for a packet to write to the interface.\<close>

definition HandleDirectPayload ::
    "time \<Rightarrow> p2p_runtime \<Rightarrow> bytes \<Rightarrow> udp_addr \<Rightarrow> addr \<Rightarrow> time \<Rightarrow> (runtime_error, bytes option) result \<times> p2p_runtime" where
  "HandleDirectPayload clock r data source localVirtualIP now =
     (case checkDirectPayload r data localVirtualIP now of
        Panic \<Rightarrow> (Panic, r)
      | Fail e \<Rightarrow> (Fail e, r)
      | Ok None \<Rightarrow> (Ok None, r)
      | Ok (Some (sourceNode, payload, replayKey, ticket)) \<Rightarrow>
        (case acceptDirectReplayKey r replayKey (pt_ExpiresAt ticket) now of
           (False, r) \<Rightarrow> (Fail ErrDirectPayloadReplay, r\<lparr>rt_counters := IncReplayDrop (rt_counters r)\<rparr>)
         | (True, r) \<Rightarrow>
           (case mark_healthy clock r sourceNode source now of
              (Ok _, r) \<Rightarrow> (Ok (Some payload), r\<lparr>rt_counters := IncDirectRX (rt_counters r)\<rparr>)
            | (Fail e, r) \<Rightarrow> (Fail e, r)
            | (Panic, r) \<Rightarrow> (Panic, r))))"

end
