(* ===== verification/ClientPaths.thy ===== *)
theory ClientPaths
  imports ClientRuntime
begin

text \<open>
  What the client's direct paths guarantee: what it takes from the network, that it takes nothing
  twice, how a direct path comes to be and what travels on it.
\<close>

section \<open>Sequences of operations\<close>

datatype runtime_event =
    EvPoll poll_env
  | EvDatagram time bytes udp_addr time bool
  | EvDirect time bytes udp_addr addr time
  | EvSend "string list" "string list" "string \<Rightarrow> udp_addr option" "bytes option" bool time time addr bytes
  | EvSelection time string

fun runtime_step :: "p2p_runtime \<Rightarrow> runtime_event \<Rightarrow> p2p_runtime" where
  "runtime_step r (EvPoll e) = fst (runPollCycle e r)"
| "runtime_step r (EvDatagram clock data source now wr) = fst (snd (HandleDatagram clock r data source now wr))"
| "runtime_step r (EvDirect clock data source local now) = snd (HandleDirectPayload clock r data source local now)"
| "runtime_step r (EvSend ordC ordT resolve rnd wr now clock dst payload) =
     fst (snd (SendDirectPayload r ordC ordT resolve rnd wr now clock dst payload))"
| "runtime_step r (EvSelection clock node) = r\<lparr>rt_selector := snd (SelectPath clock (rt_selector r) node)\<rparr>"

abbreviation runtime_run :: "p2p_runtime \<Rightarrow> runtime_event list \<Rightarrow> p2p_runtime" where
  "runtime_run \<equiv> foldl runtime_step"

section \<open>What each operation leaves alone\<close>

text \<open>Only the selector, the counters and the pending probes may differ; or only the tickets.\<close>

definition only_paths :: "p2p_runtime \<Rightarrow> p2p_runtime \<Rightarrow> bool" where
  "only_paths r r' \<longleftrightarrow> rt_server r' = rt_server r \<and> rt_nodeID r' = rt_nodeID r \<and> rt_token r' = rt_token r \<and>
     rt_relay r' = rt_relay r \<and> rt_tickets r' = rt_tickets r \<and> rt_candidates r' = rt_candidates r \<and>
     rt_lastIssued r' = rt_lastIssued r \<and> rt_replay r' = rt_replay r"

definition only_tickets :: "p2p_runtime \<Rightarrow> p2p_runtime \<Rightarrow> bool" where
  "only_tickets r r' \<longleftrightarrow> rt_server r' = rt_server r \<and> rt_nodeID r' = rt_nodeID r \<and> rt_token r' = rt_token r \<and>
     rt_relay r' = rt_relay r \<and> rt_selector r' = rt_selector r \<and> rt_candidates r' = rt_candidates r \<and>
     rt_pending r' = rt_pending r \<and> rt_replay r' = rt_replay r \<and> rt_counters r' = rt_counters r"

lemma only_paths_refl [simp]: "only_paths r r" by (simp add: only_paths_def)
lemma only_paths_trans: "only_paths r s \<Longrightarrow> only_paths s t \<Longrightarrow> only_paths r t" by (simp add: only_paths_def)
lemma only_tickets_refl [simp]: "only_tickets r r" by (simp add: only_tickets_def)
lemma only_tickets_trans: "only_tickets r s \<Longrightarrow> only_tickets s t \<Longrightarrow> only_tickets r t" by (simp add: only_tickets_def)

lemma mark_healthy_Ok:
  "mark_healthy clock r n s t = (Ok (), r') \<longleftrightarrow> mark_ok n (udp_String s) \<and>
     r' = r\<lparr>rt_selector := (rt_selector r)\<lparr>se_direct := (se_direct (rt_selector r))(TrimSpace n \<mapsto>
              \<lparr>di_endpoint = TrimSpace (udp_String s),
               di_healthyUntil = (if t = 0 then clock else t) + se_directTTL (rt_selector r)\<rparr>)\<rparr>,
            rt_counters := IncDirectHealthy (rt_counters r)\<rparr>"
  by (auto simp: mark_healthy_def MarkDirectHealthy_eq)

lemma mark_healthy_not_Panic: "fst (mark_healthy clock r n s t) \<noteq> Panic"
  by (simp add: mark_healthy_def MarkDirectHealthy_eq)

lemma mark_healthy_frame: "only_paths r (snd (mark_healthy clock r n s t))"
  by (simp add: mark_healthy_def only_paths_def split: prod.splits)

lemma mark_healthy_pending [simp]: "rt_pending (snd (mark_healthy clock r n s t)) = rt_pending r"
  by (simp add: mark_healthy_def split: prod.splits)

lemma HandleAck_frame: "only_paths r (snd (HandleAck clock r f now s))"
proof -
  have "only_paths r (snd (mark_healthy clock (r\<lparr>rt_pending := P\<rparr>) n s now))" for P n
    by (rule only_paths_trans [OF _ mark_healthy_frame]) (simp add: only_paths_def)
  then show ?thesis by (simp add: HandleAck_def split: option.split result.split)
qed

lemma HandleDatagram_frame: "only_paths r (fst (snd (HandleDatagram clock r data s now wr)))"
  using HandleAck_frame [of r clock _ now s]
  by (auto simp: HandleDatagram_def split: result.split option.split prod.split) (metis snd_conv)

lemma issue_loop_frame: "only_tickets r (fst (snd (issue_loop ts li now post cs r)))"
proof (induction cs arbitrary: r)
  case (Cons c cs)
  have "only_tickets r (fst (snd (issue_loop ts li now post cs (r\<lparr>rt_tickets := T, rt_lastIssued := L\<rparr>))))" for T L
    by (rule only_tickets_trans [OF _ Cons.IH]) (simp add: only_tickets_def)
  with Cons.IH show ?case by (simp add: Let_def split_beta split: result.split option.split)
qed simp

lemma issueNeededTickets_frame: "only_tickets r (fst (snd (issueNeededTickets r now ordC ordT post)))"
  by (simp add: issueNeededTickets_def issue_loop_frame)

lemma sendProbe_frame: "only_paths r (fst (snd (sendProbe r t c rnd resolve wr now)))"
  by (simp add: sendProbe_def Let_def only_paths_def split: result.split option.split)

lemma sendProbe_selector: "sendProbe r t c rnd resolve wr now = (res, r', out) \<Longrightarrow> rt_selector r' = rt_selector r"
  by (auto simp: sendProbe_def Let_def split: result.splits option.splits if_splits)

lemma probe_loop_frame: "only_paths r (fst (probe_loop rnd resolve wr clock n ps r))"
proof (induction ps arbitrary: n r)
  case (Cons p ps)
  obtain t c where p: "p = (t, c)" by fastforce
  show ?case
    using only_paths_trans [OF sendProbe_frame Cons.IH] by (simp add: p split_beta)
qed simp

lemma SendDirectPayload_frame: "only_paths r (fst (snd (SendDirectPayload r ordC ordT resolve rnd wr now clock dst payload)))"
  by (auto simp: SendDirectPayload_def only_paths_def count_fallback_def Let_def split_beta
      split: option.split selection.split result.split)

section \<open>Packets received directly\<close>

lemma of_option_Ok [simp]: "of_option e x = Ok v \<longleftrightarrow> x = Some v"
  by (simp add: of_option_def split: option.split)

lemma checkDirectPayload_Some:
  "checkDirectPayload r data local now = Ok (Some (s, p, key, ticket)) \<longleftrightarrow>
     (\<exists>tid t c sip. DirectPayloadTicketID data = Ok tid \<and> rt_tickets r tid = Some ticket \<and>
        OpenDirectPayload data ticket (rt_nodeID r) now = Ok (s, t, p) \<and> rt_candidates r s = Some c \<and>
        ParseAddr (cd_VirtualIP c) = Some sip \<and> IPv4Endpoints p = Ok (sip, local) \<and>
        DirectPayloadReplayKey data = Ok key)"
  by (cases "DirectPayloadTicketID data") (auto simp: checkDirectPayload_def rbind_Ok_iff split: if_splits)

lemma HandleDirectPayload_Some:
  "HandleDirectPayload clock r data src local now = (Ok (Some p), r') \<longleftrightarrow>
     (\<exists>s key ticket r1 r2. checkDirectPayload r data local now = Ok (Some (s, p, key, ticket)) \<and>
        acceptDirectReplayKey r key (pt_ExpiresAt ticket) now = (True, r1) \<and>
        mark_healthy clock r1 s src now = (Ok (), r2) \<and> r' = r2\<lparr>rt_counters := IncDirectRX (rt_counters r2)\<rparr>)"
  unfolding HandleDirectPayload_def
  by (auto split: result.split option.split prod.split bool.split)

lemma HandleDirectPayload_cases:
  assumes "HandleDirectPayload clock r data src local now = (res, r')"
  obtains (other) "r' = r" "\<And>p. res \<noteq> Ok (Some p)"
  | (replayed) s p key ticket where "checkDirectPayload r data local now = Ok (Some (s, p, key, ticket))"
      "acceptDirectReplayKey r key (pt_ExpiresAt ticket) now = (False, r'\<lparr>rt_counters := rt_counters r\<rparr>)"
      "res = Fail ErrDirectPayloadReplay"
  | (unmarked) s p key ticket r1 where "checkDirectPayload r data local now = Ok (Some (s, p, key, ticket))"
      "acceptDirectReplayKey r key (pt_ExpiresAt ticket) now = (True, r1)"
      "r' = snd (mark_healthy clock r1 s src now)" "\<not> mark_ok s (udp_String src)" "\<And>p. res \<noteq> Ok (Some p)"
  | (accepted) s p key ticket r1 where "checkDirectPayload r data local now = Ok (Some (s, p, key, ticket))"
      "acceptDirectReplayKey r key (pt_ExpiresAt ticket) now = (True, r1)" "mark_ok s (udp_String src)"
      "r' = (snd (mark_healthy clock r1 s src now))\<lparr>rt_counters := rt_counters r'\<rparr>" "res = Ok (Some p)"
proof (cases "checkDirectPayload r data local now")
  case (Ok x)
  show thesis
  proof (cases x)
    case None
    then show thesis using assms Ok by (intro other) (auto simp: HandleDirectPayload_def)
  next
    case (Some y)
    obtain s p key ticket where y: "y = (s, p, key, ticket)" by (cases y) auto
    obtain fresh r1 where a: "acceptDirectReplayKey r key (pt_ExpiresAt ticket) now = (fresh, r1)" by fastforce
    have counters: "rt_counters r1 = rt_counters r"
      using a by (auto simp: acceptDirectReplayKey_def Let_def split: if_splits)
    have check: "checkDirectPayload r data local now = Ok (Some (s, p, key, ticket))" by (simp add: Ok Some y)
    show thesis
    proof (cases fresh)
      case False
      then have r': "r' = r1\<lparr>rt_counters := IncReplayDrop (rt_counters r1)\<rparr>" and "res = Fail ErrDirectPayloadReplay"
        using assms a by (auto simp: HandleDirectPayload_def check)
      moreover have "r'\<lparr>rt_counters := rt_counters r\<rparr> = r1" using counters by (simp add: r')
      ultimately show thesis using replayed [OF check] a False by simp
    next
      case True
      show thesis
      proof (cases "mark_ok s (udp_String src)")
        case mark: True
        then obtain r2 where r2: "mark_healthy clock r1 s src now = (Ok (), r2)" by (simp add: mark_healthy_def MarkDirectHealthy_eq)
        have "r' = (snd (mark_healthy clock r1 s src now))\<lparr>rt_counters := rt_counters r'\<rparr>" "res = Ok (Some p)"
          using assms a True by (auto simp: HandleDirectPayload_def check r2)
        then show thesis using accepted [OF check _ mark] a True by simp
      next
        case mark: False
        then obtain e r2 where r2: "mark_healthy clock r1 s src now = (Fail e, r2)" by (simp add: mark_healthy_def MarkDirectHealthy_eq)
        then show thesis using unmarked [OF check] assms a True mark by (auto simp: HandleDirectPayload_def check)
      qed
    qed
  qed
qed (use assms other in \<open>auto simp: HandleDirectPayload_def\<close>)

definition replay_sweep :: "time \<Rightarrow> p2p_runtime \<Rightarrow> p2p_runtime" where
  "replay_sweep now r = r\<lparr>rt_replay := delete_where (\<lambda>expiry. \<not> now < expiry) (rt_replay r)\<rparr>"

interpretation replay_store: expiring_store rt_replay "\<lambda>expiry. expiry" replay_sweep
  by unfold_locales (simp add: replay_sweep_def)

lemma acceptDirectReplayKey_eq:
  "acceptDirectReplayKey r key e now =
     (let s = replay_sweep now r
      in if rt_replay s key \<noteq> None then (False, s)
         else (True, s\<lparr>rt_replay := (rt_replay s)(key \<mapsto> (if e = 0 \<or> \<not> now < e then now + 30 * Second else e))\<rparr>))"
  by (simp add: acceptDirectReplayKey_def replay_sweep_def Let_def)

lemma accept_keeps:
  "rt_replay r k = Some e \<Longrightarrow> now < e \<Longrightarrow> rt_replay (snd (acceptDirectReplayKey r key x now)) k = Some e"
  using replay_store.sweep_live [of now r k e] by (auto simp: acceptDirectReplayKey_eq Let_def)

lemma accept_refuses:
  "rt_replay r key = Some e \<Longrightarrow> now < e \<Longrightarrow> fst (acceptDirectReplayKey r key x now) = False"
  using replay_store.sweep_live [of now r key e] by (auto simp: acceptDirectReplayKey_eq Let_def)

lemma accept_frame: "acceptDirectReplayKey r key e now = (b, r1) \<Longrightarrow>
    rt_tickets r1 = rt_tickets r \<and> rt_candidates r1 = rt_candidates r \<and> rt_nodeID r1 = rt_nodeID r \<and>
    rt_pending r1 = rt_pending r \<and> rt_selector r1 = rt_selector r"
  by (auto simp: acceptDirectReplayKey_eq replay_sweep_def Let_def split: if_splits)

text \<open>Whatever a direct datagram does, it touches neither the tickets nor the candidates, and a
  replay key that is not out of date stays.\<close>

lemma HandleDirectPayload_frame:
  assumes "HandleDirectPayload clock r data src local now = (res, r')"
  shows "rt_tickets r' = rt_tickets r" "rt_candidates r' = rt_candidates r" "rt_nodeID r' = rt_nodeID r"
    "rt_pending r' = rt_pending r" "rt_replay r k = Some e \<Longrightarrow> now < e \<Longrightarrow> rt_replay r' k = Some e"
proof -
  have "rt_tickets r' = rt_tickets r \<and> rt_candidates r' = rt_candidates r \<and> rt_nodeID r' = rt_nodeID r \<and>
    rt_pending r' = rt_pending r \<and> (rt_replay r k = Some e \<longrightarrow> now < e \<longrightarrow> rt_replay r' k = Some e)"
    using assms
  proof (cases rule: HandleDirectPayload_cases)
    case (replayed s p key ticket)
    then show ?thesis
      using accept_frame [OF replayed(2)] accept_keeps [of r k e now key "pt_ExpiresAt ticket"] by simp
  next
    case (unmarked s p key ticket r1)
    then show ?thesis
      using accept_frame [OF unmarked(2)] accept_keeps [of r k e now key "pt_ExpiresAt ticket"]
        mark_healthy_frame [of r1 clock s src now] by (simp add: only_paths_def)
  next
    case (accepted s p key ticket r1)
    let ?m = "snd (mark_healthy clock r1 s src now)"
    have "rt_tickets r' = rt_tickets ?m" "rt_candidates r' = rt_candidates ?m" "rt_nodeID r' = rt_nodeID ?m"
      "rt_pending r' = rt_pending ?m" "rt_replay r' = rt_replay ?m"
      by (subst accepted(4), simp)+
    then show ?thesis
      using accept_frame [OF accepted(2)] accept_keeps [of r k e now key "pt_ExpiresAt ticket"] accepted(2)
        mark_healthy_frame [of r1 clock s src now] by (simp add: only_paths_def)
  qed simp
  then show "rt_tickets r' = rt_tickets r" "rt_candidates r' = rt_candidates r" "rt_nodeID r' = rt_nodeID r"
    "rt_pending r' = rt_pending r" "rt_replay r k = Some e \<Longrightarrow> now < e \<Longrightarrow> rt_replay r' k = Some e"
    by auto
qed

section \<open>Nothing is taken twice\<close>

text \<open>
  \<open>E\<close> gives every ticket identifier the expiry its tickets carry: the coordinator never issues two
  tickets with one secret.
\<close>

definition expires_as :: "(string \<Rightarrow> time) \<Rightarrow> probe_ticket \<Rightarrow> bool" where
  "expires_as E ticket \<longleftrightarrow> (\<forall>tid. TicketIdentifier ticket = Ok tid \<longrightarrow> pt_ExpiresAt ticket = E tid)"

definition tickets_ok :: "(string \<Rightarrow> time) \<Rightarrow> p2p_runtime \<Rightarrow> bool" where
  "tickets_ok E r \<longleftrightarrow> (\<forall>tid t. rt_tickets r tid = Some t \<longrightarrow> TicketIdentifier t = Ok tid \<and> expires_as E t)"

definition poll_ok :: "(string \<Rightarrow> time) \<Rightarrow> poll_env \<Rightarrow> bool" where
  "poll_ok E e \<longleftrightarrow> (\<forall>ts. getJSON (pe_tickets e) = Some ts \<longrightarrow> list_all (expires_as E) ts) \<and>
     (\<forall>target t. getJSON (pe_post e target) = Some t \<longrightarrow> expires_as E t)"

text \<open>An event whose tickets have the expiries of \<open>E\<close> and whose direct datagram comes by \<open>now\<close>.\<close>

fun event_ok :: "(string \<Rightarrow> time) \<Rightarrow> time \<Rightarrow> runtime_event \<Rightarrow> bool" where
  "event_ok E now (EvPoll e) = poll_ok E e"
| "event_ok E now (EvDirect clock data source local t) = (t \<le> now)"
| "event_ok E now _ = True"

lemma newP2PRuntime_ok: "tickets_ok E (newP2PRuntime server reg relay k)"
  by (simp add: tickets_ok_def newP2PRuntime_def)

lemma next_tickets_ok:
  "next_tickets r now ts m tid = Some t \<Longrightarrow> m tid = Some t \<or> TicketIdentifier t = Ok tid \<and> t \<in> set ts \<and> keep_ticket r now t"
proof (induction ts arbitrary: m)
  case (Cons u ts)
  then show ?case by (fastforce split: if_splits result.splits)
qed simp

lemma replaceTickets_ok:
  "tickets_ok E r \<Longrightarrow> list_all (expires_as E) ts \<Longrightarrow> tickets_ok E (replaceTickets r ts now)"
  by (auto simp: tickets_ok_def replaceTickets_def list_all_iff Let_def map_add_Some_iff dest!: next_tickets_ok)

lemma issue_loop_ok:
  "tickets_ok E r \<Longrightarrow> (\<And>target t. getJSON (post target) = Some t \<Longrightarrow> expires_as E t) \<Longrightarrow>
     tickets_ok E (fst (snd (issue_loop ts li now post cs r)))"
proof (induction cs arbitrary: r)
  case (Cons c cs)
  have "tickets_ok E (r\<lparr>rt_tickets := (rt_tickets r)(tid \<mapsto> t), rt_lastIssued := L\<rparr>)"
    if "getJSON (post target) = Some t" "TicketIdentifier t = Ok tid" for target t tid L
    using Cons.prems that by (auto simp: tickets_ok_def)
  note new = Cons.IH [OF this Cons.prems(2)] and old = Cons.IH [OF Cons.prems]
  show ?case
    using new old Cons.prems(1)
    by (auto simp: Let_def split_beta issueTicket_def split: result.split option.split)
       (auto simp: rbind_Ok_iff split: option.splits dest!: map_err_simps(1) [THEN iffD1])
qed simp

lemma runPollCycle_ok:
  assumes ok: "tickets_ok E r" and poll: "poll_ok E e"
  shows "tickets_ok E (fst (runPollCycle e r)) \<and> rt_replay (fst (runPollCycle e r)) = rt_replay r"
proof -
  obtain t1 t2 t3 t4 where t: "pe_times e = (t1, t2, t3, t4)" by (metis prod_cases4)
  have post: "\<And>target t. getJSON (pe_post e target) = Some t \<Longrightarrow> expires_as E t"
    using poll by (auto simp: poll_ok_def)
  have repl: "rt_replay (replaceTickets r ts t1) = rt_replay r" for ts
    by (simp add: replaceTickets_def Let_def)
  show ?thesis
  proof (cases "getJSON (pe_tickets e)")
    case (Some ts)
    then have ok1: "tickets_ok E (replaceTickets r ts t1)"
      using poll by (intro replaceTickets_ok [OF ok]) (simp add: poll_ok_def)
    show ?thesis
    proof (cases "getJSON (pe_candidates e)")
      case None
      then show ?thesis using Some t ok1 repl by (simp add: runPollCycle_def Let_def)
    next
      case (Some cs)
      let ?r2 = "replaceCandidates (replaceTickets r ts t1) cs t2"
      let ?r3 = "fst (snd (issueNeededTickets ?r2 t3 (pe_ordC e) (pe_ordT e) (pe_post e)))"
      have "tickets_ok E ?r2" using ok1 by (simp add: tickets_ok_def replaceCandidates_def)
      then have "tickets_ok E ?r3" unfolding issueNeededTickets_def by (rule issue_loop_ok) (rule post)
      moreover have "rt_replay ?r3 = rt_replay r"
        using issueNeededTickets_frame [of ?r2 t3 "pe_ordC e" "pe_ordT e" "pe_post e"] repl
        by (simp add: only_tickets_def replaceCandidates_def)
      moreover have "fst (runPollCycle e r) = fst (sendProbes ?r3 t4 (pe_ordP e) (pe_rnd e) (pe_resolve e) (pe_wr e) (pe_clock e))"
        using \<open>getJSON (pe_tickets e) = Some ts\<close> Some by (simp add: runPollCycle_def Let_def t split_beta)
      ultimately show ?thesis
        using probe_loop_frame [of ?r3]
        by (simp add: sendProbes_def only_paths_def tickets_ok_def)
    qed
  qed (simp add: runPollCycle_def t ok)
qed

lemma runtime_step_ok:
  assumes ok: "tickets_ok E r" and ev: "event_ok E now ev"
  shows "tickets_ok E (runtime_step r ev) \<and>
    (\<forall>k e. rt_replay r k = Some e \<longrightarrow> now < e \<longrightarrow> rt_replay (runtime_step r ev) k = Some e)"
proof (cases ev)
  case (EvPoll p)
  then show ?thesis using runPollCycle_ok [OF ok, of p] ev by simp
next
  case (EvDatagram clock data source t wr)
  then show ?thesis using HandleDatagram_frame [of r clock data source t wr] ok
    by (simp add: only_paths_def tickets_ok_def)
next
  case (EvDirect clock data source local t)
  obtain res r' where h: "HandleDirectPayload clock r data source local t = (res, r')" by fastforce
  have "t \<le> now" using EvDirect ev by simp
  then show ?thesis using HandleDirectPayload_frame [OF h] ok EvDirect h by (simp add: tickets_ok_def)
next
  case (EvSend ordC ordT resolve rnd wr t clock dst payload)
  then show ?thesis using SendDirectPayload_frame [of r ordC ordT resolve rnd wr t clock dst payload] ok
    by (simp add: only_paths_def tickets_ok_def)
qed (use ok in \<open>simp add: tickets_ok_def\<close>)

lemma runtime_run_ok:
  "tickets_ok E r \<Longrightarrow> list_all (event_ok E now) evs \<Longrightarrow>
     tickets_ok E (runtime_run r evs) \<and>
     (\<forall>k e. rt_replay r k = Some e \<longrightarrow> now < e \<longrightarrow> rt_replay (runtime_run r evs) k = Some e)"
  by (induction evs arbitrary: r) (auto dest: runtime_step_ok)

text \<open>C24: A datagram that was taken once is never taken again, whatever happens in between, even if
  the path to the peer, the candidates and the tickets change, as long as tickets carry the expiry
  they were issued with and the clock does not run backwards.\<close>

theorem client_takes_nothing_twice:
  assumes ok: "tickets_ok E r" and first: "HandleDirectPayload clock r data src local now = (Ok (Some p), r1)"
    and ident: "DirectPayloadTicketID data = Ok tid" "E tid \<noteq> 0"
    and between: "list_all (event_ok E now') evs"
  shows "fst (HandleDirectPayload clock' (runtime_run r1 evs) data src' local' now') \<noteq> Ok (Some p')"
proof
  assume again: "fst (HandleDirectPayload clock' (runtime_run r1 evs) data src' local' now') = Ok (Some p')"
  obtain ticket key s t m1 m2 where one: "rt_tickets r tid = Some ticket"
    "OpenDirectPayload data ticket (rt_nodeID r) now = Ok (s, t, p)" "DirectPayloadReplayKey data = Ok key"
    "acceptDirectReplayKey r key (pt_ExpiresAt ticket) now = (True, m1)" "mark_healthy clock m1 s src now = (Ok (), m2)"
    "r1 = m2\<lparr>rt_counters := IncDirectRX (rt_counters m2)\<rparr>"
    using first ident(1) by (auto simp: HandleDirectPayload_Some checkDirectPayload_Some)
  have e: "pt_ExpiresAt ticket = E tid" using ok one(1) by (auto simp: tickets_ok_def expires_as_def)
  have "now < E tid" using one(2) ident(2) by (auto simp: OpenDirectPayload_Ok ticket_expired_def e)
  then have "rt_replay m1 key = Some (E tid)"
    using one(4) ident(2) by (auto simp: acceptDirectReplayKey_eq e Let_def split: if_splits)
  then have k: "rt_replay r1 key = Some (E tid)"
    using mark_healthy_frame [of m1 clock s src now] one(5,6) by (simp add: only_paths_def)
  have ok1: "tickets_ok E r1" using ok HandleDirectPayload_frame(1) [OF first] by (simp add: tickets_ok_def)
  let ?r2 = "runtime_run r1 evs"
  obtain ticket' s' t' m3 where two: "rt_tickets ?r2 tid = Some ticket'"
    "OpenDirectPayload data ticket' (rt_nodeID ?r2) now' = Ok (s', t', p')"
    "acceptDirectReplayKey ?r2 key (pt_ExpiresAt ticket') now' = (True, m3)"
  proof -
    obtain r3 where "HandleDirectPayload clock' ?r2 data src' local' now' = (Ok (Some p'), r3)"
      using again by (metis prod.collapse)
    then show thesis using that ident(1) one(3) by (auto simp: HandleDirectPayload_Some checkDirectPayload_Some)
  qed
  show False
  proof (cases "now' < E tid")
    case True
    with runtime_run_ok [OF ok1 between] k have "rt_replay ?r2 key = Some (E tid)" by simp
    from accept_refuses [OF this True] two(3) show False by (metis fst_conv)
  next
    case False
    have "tickets_ok E ?r2" using runtime_run_ok [OF ok1 between] by simp
    then have "pt_ExpiresAt ticket' = E tid" using two(1) by (auto simp: tickets_ok_def expires_as_def)
    then show False using two(2) False ident(2) by (simp add: OpenDirectPayload_Ok ticket_expired_def)
  qed
qed

section \<open>What is taken, and what it changes\<close>

lemma mark_healthy_selector:
  "\<not> mark_ok n (udp_String s) \<Longrightarrow> rt_selector (snd (mark_healthy clock r n s t)) = rt_selector r"
  by (simp add: mark_healthy_def MarkDirectHealthy_eq)

lemma mark_healthy_done:
  "mark_ok n (udp_String s) \<Longrightarrow> mark_healthy clock r n s t = (Ok (), snd (mark_healthy clock r n s t))"
  by (simp add: mark_healthy_def MarkDirectHealthy_eq)

text \<open>C23: A datagram becomes a packet for the interface only if it is, byte for byte, what a peer that
  holds one of this node's live tickets seals for this node, the peer is a current candidate, the
  packet's source is the peer's mesh address and its destination the local one; then, and only then,
  the datagram's sender becomes the peer's direct path.\<close>

theorem client_takes_only_peer_packets:
  "case HandleDirectPayload clock r data src local now of
     (Ok (Some p), r') \<Rightarrow>
       (\<exists>tid ticket secret nonce s c sip. rt_tickets r tid = Some ticket \<and> \<not> ticket_expired ticket now \<and>
          ticketMatchesPair ticket s (TrimSpace (rt_nodeID r)) \<and> probeTicketSecret ticket = Ok secret \<and>
          length nonce = 12 \<and> data = direct_frame (Sum256 secret) nonce s (TrimSpace (rt_nodeID r))
            (gcm_seal secret nonce p (directPayloadAAD (Sum256 secret) s (TrimSpace (rt_nodeID r)))) \<and>
          rt_candidates r s = Some c \<and> ParseAddr (cd_VirtualIP c) = Some sip \<and> IPv4Endpoints p = Ok (sip, local) \<and>
          se_direct (rt_selector r') = (se_direct (rt_selector r))(TrimSpace s \<mapsto>
            \<lparr>di_endpoint = TrimSpace (udp_String src),
             di_healthyUntil = (if now = 0 then clock else now) + se_directTTL (rt_selector r)\<rparr>))
   | (_, r') \<Rightarrow> rt_selector r' = rt_selector r"
proof -
  obtain res r' where h: "HandleDirectPayload clock r data src local now = (res, r')" by fastforce
  from h show ?thesis
  proof (cases rule: HandleDirectPayload_cases)
    case (replayed s p key ticket)
    then show ?thesis using accept_frame [OF replayed(2)] by (simp add: h)
  next
    case (unmarked s p key ticket r1)
    then have "rt_selector r' = rt_selector r"
      using accept_frame [OF unmarked(2)] by (simp add: mark_healthy_selector)
    then show ?thesis using unmarked(5) by (simp add: h split: result.split option.split)
  next
    case (accepted s p key ticket r1)
    obtain r2 where m: "mark_healthy clock r1 s src now = (Ok (), r2)"
      using mark_healthy_done [OF accepted(3)] by blast
    then have "rt_selector r' = rt_selector r2" by (subst accepted(4)) simp
    then have sel: "se_direct (rt_selector r') = (se_direct (rt_selector r))(TrimSpace s \<mapsto>
        \<lparr>di_endpoint = TrimSpace (udp_String src),
         di_healthyUntil = (if now = 0 then clock else now) + se_directTTL (rt_selector r)\<rparr>)"
      using m accept_frame [OF accepted(2)] by (simp add: mark_healthy_Ok)
    show ?thesis
      using accepted(1) sel unfolding h accepted(5)
      by (simp add: checkDirectPayload_Some OpenDirectPayload_Ok) blast
  next
    case other
    then show ?thesis by (simp add: h split: result.split option.split)
  qed
qed

text \<open>A probe exchange opens a path only once: a datagram changes the selector only if it is an
  acknowledgement that verifies for a probe this node has pending under its nonce; the path is then
  to that probe's target at the datagram's sender, and the nonce is used up, so the same datagram
  from anywhere, at any time, is refused.\<close>

theorem ack_opens_path_once:
  assumes h: "HandleDatagram clock r data src now wr = (res, r', out)" and changed: "rt_selector r' \<noteq> rt_selector r"
  shows "\<exists>f pending. ParseProbeFrame data = Ok f \<and> rt_pending r (pf_Nonce f) = Some pending \<and>
    VerifyProbeAck f (pp_probe pending) (pp_ticket pending) now = Ok () \<and>
    se_direct (rt_selector r') = (se_direct (rt_selector r))(TrimSpace (pp_target pending) \<mapsto>
      \<lparr>di_endpoint = TrimSpace (udp_String src),
       di_healthyUntil = (if now = 0 then clock else now) + se_directTTL (rt_selector r)\<rparr>) \<and>
    rt_pending r' = (rt_pending r)(pf_Nonce f := None) \<and> out = [] \<and>
    fst (HandleDatagram clock' r' data src' now' wr') = Fail NoPendingNonce"
proof -
  obtain f ticket where f: "ParseProbeFrame data = Ok f" "rt_tickets r (pf_TicketID f) = Some ticket"
    and type: "pf_Type f \<noteq> ProbeTypeProbe" "pf_Type f = ProbeTypeAck"
    and ack: "HandleAck clock r f now src = (res, r')" and out: "out = []"
    using h changed by (auto simp: HandleDatagram_def split: result.splits option.splits if_splits prod.splits)
  obtain pending where p: "rt_pending r (pf_Nonce f) = Some pending"
    using ack changed by (cases "rt_pending r (pf_Nonce f)") (auto simp: HandleAck_def)
  let ?r = "r\<lparr>rt_pending := (rt_pending r)(pf_Nonce f := None)\<rparr>"
  have verified: "VerifyProbeAck f (pp_probe pending) (pp_ticket pending) now = Ok ()"
    and m: "mark_healthy clock ?r (pp_target pending) src now = (res, r')"
    using ack changed p by (auto simp: HandleAck_def split: result.splits)
  have "mark_ok (pp_target pending) (udp_String src)"
    using mark_healthy_selector [of "pp_target pending" src clock ?r now] m changed by auto
  then have "mark_healthy clock ?r (pp_target pending) src now = (Ok (), r')"
    using mark_healthy_done [of "pp_target pending" src clock ?r now] m by simp
  then have r': "r' = ?r\<lparr>rt_selector := rt_selector r', rt_counters := rt_counters r'\<rparr>"
    and sel: "se_direct (rt_selector r') = (se_direct (rt_selector r))(TrimSpace (pp_target pending) \<mapsto>
      \<lparr>di_endpoint = TrimSpace (udp_String src),
       di_healthyUntil = (if now = 0 then clock else now) + se_directTTL (rt_selector r)\<rparr>)"
    by (simp_all add: mark_healthy_Ok)
  have "rt_pending r' = (rt_pending r)(pf_Nonce f := None)" "rt_tickets r' = rt_tickets r" by (subst r', simp)+
  moreover from this have "fst (HandleDatagram clock' r' data src' now' wr') = Fail NoPendingNonce"
    using f type by (simp add: HandleDatagram_def HandleAck_def)
  ultimately show ?thesis using f(1) p verified sel out by blast
qed

lemma issue_loop_asked:
  assumes "issue_loop ts li now post cs q = (res, q', asked)" "distinct (map cd_NodeID cs)"
  shows "distinct asked \<and> set asked \<subseteq> cd_NodeID ` set cs \<and>
    (\<forall>n\<in>set asked. rt_nodeID q < n \<and> \<not> hasLiveSourceTicket ts (rt_nodeID q) n now \<and>
       (\<forall>t. li n = Some t \<longrightarrow> p2pTicketIssueRetry \<le> time_Sub now t))"
  using assms
proof (induction cs arbitrary: q res q' asked)
  case (Cons c cs)
  let ?n = "cd_NodeID c" and ?loop = "issue_loop ts li now post cs"
  have new: "?n \<notin> cd_NodeID ` set cs" "distinct (map cd_NodeID cs)" using Cons.prems(2) by auto
  show ?case
  proof (cases "?loop q = (res, q', asked)")
    case True
    from Cons.IH [OF this new(2)] show ?thesis by auto
  next
    case False
    then have may: "rt_nodeID q < ?n" "\<not> hasLiveSourceTicket ts (rt_nodeID q) ?n now"
      "\<forall>t. li ?n = Some t \<longrightarrow> p2pTicketIssueRetry \<le> time_Sub now t"
      using Cons.prems(1) by (auto simp: Let_def not_le not_less split: if_splits option.splits)
    have "asked = [?n] \<or> (\<exists>tid t res asked'. asked = ?n # asked' \<and>
        ?loop (q\<lparr>rt_tickets := (rt_tickets q)(tid \<mapsto> t), rt_lastIssued := (rt_lastIssued q)(?n \<mapsto> now)\<rparr>) = (res, q', asked'))"
      using Cons.prems(1) False by (auto simp: Let_def split: if_splits result.splits prod.splits option.splits)
    then show ?thesis
    proof (elim disjE exE conjE)
      fix tid t res asked'
      assume *: "asked = ?n # asked'" "?loop (q\<lparr>rt_tickets := (rt_tickets q)(tid \<mapsto> t),
        rt_lastIssued := (rt_lastIssued q)(?n \<mapsto> now)\<rparr>) = (res, q', asked')"
      from Cons.IH [OF *(2) new(2)] may new(1) show ?thesis unfolding *(1) by auto
    qed (use may in auto)
  qed
qed simp


section \<open>From one peer to the other\<close>

lemma SendDirectPayload_sent:
  assumes "SendDirectPayload r ordC ordT resolve rnd wr now clock dst payload = (Ok True, r', out)"
  obtains c se ep ticket wire endpoint where "candidateForVirtualIP r ordC dst = Some c"
    "SelectPath clock (rt_selector r) (cd_NodeID c) = (PathDirect ep, se)"
    "liveTicketForPeer r ordT (cd_NodeID c) now = Some ticket"
    "SealDirectPayload ticket (rt_nodeID r) (cd_NodeID c) payload now rnd = Ok wire"
    "resolve ep = Some endpoint" "out = [(wire, endpoint)]" "wr"
  using assms
  by (auto simp: SendDirectPayload_def Let_def liveTicketForPeer_def split: option.splits selection.splits result.splits
      prod.splits if_splits)

lemma udp4_mark_ok:
  "TrimSpace n \<noteq> '''' \<Longrightarrow> 0 \<le> port \<Longrightarrow> port < 65536 \<Longrightarrow>
     mark_ok n (udp_String \<lparr>ua_IP = Addr4 v, ua_Port = port, ua_Zone = ''''\<rparr>)"
  using udp4_parses [of port v] by (simp add: mark_ok_def)

lemma sealed_delivery:
  assumes seal: "SealDirectPayload ticket n (rt_nodeID b) payload t1 (Some nonce) = Ok wire"
    and ticket: "TicketIdentifier ticket = Ok tid" "rt_tickets b tid = Some ticket" "\<not> ticket_expired ticket t2"
    and names: "TrimSpace n = n" "TrimSpace (rt_nodeID b) = rt_nodeID b"
    and from_a: "rt_candidates b n = Some ca" "ParseAddr (cd_VirtualIP ca) = Some sip" "IPv4Endpoints payload = Ok (sip, dst)"
    and fresh: "length nonce = 12" "rt_replay b (tid @ hex_encode nonce) = None"
    and src: "src = \<lparr>ua_IP = Addr4 v, ua_Port = port, ua_Zone = ''''\<rparr>" "0 \<le> port" "port < 65536"
    and later: "t2 \<noteq> 0" "t3 < t2 + se_directTTL (rt_selector b)"
  obtains b' where "DirectPayloadTicketID wire = Ok tid"
    "HandleDirectPayload clock' b wire src dst t2 = (Ok (Some payload), b')"
    "fst (SelectPath t3 (rt_selector b') n) = PathDirect (udp_String src)"
proof -
  let ?b = "rt_nodeID b"
  from seal obtain secret where s: "n \<noteq> ''''" "?b \<noteq> ''''" "ticketMatchesPair ticket n ?b" "length n \<le> 65535"
    "length ?b \<le> 65535" "length payload \<le> 65535" "probeTicketSecret ticket = Ok secret"
    and wire: "wire = direct_frame (Sum256 secret) nonce n ?b
      (gcm_seal secret nonce payload (directPayloadAAD (Sum256 secret) n ?b))"
    by (auto simp: SealDirectPayload_Ok [OF names [symmetric]])
  have tid: "tid = hex_encode (Sum256 secret)" using ticket(1) s(7) by (simp add: TicketIdentifier_def)
  have ids: "DirectPayloadTicketID wire = Ok tid" "DirectPayloadReplayKey wire = Ok (tid @ hex_encode nonce)"
    using direct_frame_ids [of "Sum256 secret" nonce n ?b] s fresh(1) by (simp_all add: wire tid gcm.length_seal)
  have "OpenDirectPayload wire ticket ?b t2 = Ok (n, ?b, payload)"
    using s ticket(3) names fresh(1) wire by (auto simp: OpenDirectPayload_Ok)
  then have check: "checkDirectPayload b wire dst t2 = Ok (Some (n, payload, tid @ hex_encode nonce, ticket))"
    using ids ticket(2) from_a by (auto simp: checkDirectPayload_Some)
  have acc: "acceptDirectReplayKey b (tid @ hex_encode nonce) (pt_ExpiresAt ticket) t2 =
      (True, snd (acceptDirectReplayKey b (tid @ hex_encode nonce) (pt_ExpiresAt ticket) t2))" (is "_ = (True, ?b1)")
    using fresh(2) by (simp add: acceptDirectReplayKey_def delete_where_def)
  have ok: "mark_ok n (udp_String src)" unfolding src(1) by (rule udp4_mark_ok) (use names s src in simp_all)
  obtain b2 where mark: "mark_healthy clock' ?b1 n src t2 = (Ok (), b2)" using mark_healthy_done [OF ok] by blast
  let ?b' = "b2\<lparr>rt_counters := IncDirectRX (rt_counters b2)\<rparr>"
  have "HandleDirectPayload clock' b wire src dst t2 = (Ok (Some payload), ?b')"
    using check acc mark by (auto simp: HandleDirectPayload_Some)
  moreover have "fst (SelectPath t3 (rt_selector ?b') n) = PathDirect (udp_String src)"
    using mark accept_frame [OF acc] later names(1) udp4_parses(2) [OF src(2,3), of v]
    by (simp add: mark_healthy_Ok SelectPath_def src(1))
  ultimately show thesis using that ids(1) by blast
qed

text \<open>C25: When a packet goes out directly, one datagram goes to the endpoint the selector chose, and
  the peer, holding the same live ticket and knowing the sender's mesh address, takes out the very
  same packet and from then on, for the time to live of a path, sends back on the path the datagram
  came by.\<close>

theorem direct_delivery:
  assumes send: "SendDirectPayload a ordC ordT resolve (Some nonce) wr t1 clock dst payload = (Ok True, a', out)"
    and to_b: "candidateForVirtualIP a ordC dst = Some cb" "cd_NodeID cb = rt_nodeID b"
    and ticket: "liveTicketForPeer a ordT (rt_nodeID b) t1 = Some ticket" "TicketIdentifier ticket = Ok tid"
      "rt_tickets b tid = Some ticket" "\<not> ticket_expired ticket t2"
    and names: "TrimSpace (rt_nodeID a) = rt_nodeID a" "TrimSpace (rt_nodeID b) = rt_nodeID b"
    and from_a: "rt_candidates b (rt_nodeID a) = Some ca" "ParseAddr (cd_VirtualIP ca) = Some sip"
      "IPv4Endpoints payload = Ok (sip, dst)"
    and fresh: "length nonce = 12" "rt_replay b (tid @ hex_encode nonce) = None"
    and src: "src = \<lparr>ua_IP = Addr4 v, ua_Port = port, ua_Zone = ''''\<rparr>" "0 \<le> port" "port < 65536"
    and later: "t2 \<noteq> 0" "t3 < t2 + se_directTTL (rt_selector b)"
  shows "\<exists>wire ep endpoint b'. fst (SelectPath clock (rt_selector a) (rt_nodeID b)) = PathDirect ep \<and>
    resolve ep = Some endpoint \<and> out = [(wire, endpoint)] \<and>
    HandleDirectPayload clock' b wire src dst t2 = (Ok (Some payload), b') \<and>
    fst (SelectPath t3 (rt_selector b') (rt_nodeID a)) = PathDirect (udp_String src)"
proof -
  obtain se ep wire endpoint where s: "SelectPath clock (rt_selector a) (rt_nodeID b) = (PathDirect ep, se)"
    "SealDirectPayload ticket (rt_nodeID a) (rt_nodeID b) payload t1 (Some nonce) = Ok wire"
    "resolve ep = Some endpoint" "out = [(wire, endpoint)]"
    using send to_b ticket(1) by (auto elim!: SendDirectPayload_sent)
  obtain b' where "HandleDirectPayload clock' b wire src dst t2 = (Ok (Some payload), b')"
    "fst (SelectPath t3 (rt_selector b') (rt_nodeID a)) = PathDirect (udp_String src)"
    by (rule sealed_delivery [OF s(2) ticket(2-4) names from_a fresh src later])
  with s show ?thesis by (metis fst_conv)
qed

lemma HandleDatagram_ack:
  assumes "ParseProbeFrame data = Ok f" "pf_Type f = ProbeTypeAck" "rt_tickets r (pf_TicketID f) \<noteq> None"
    and "rt_pending r (pf_Nonce f) = Some pending" "VerifyProbeAck f (pp_probe pending) (pp_ticket pending) now = Ok ()"
    and "mark_ok (pp_target pending) (udp_String src)"
  obtains r' where "HandleDatagram clock r data src now wr = (Ok (), r', [])"
    "mark_healthy clock (r\<lparr>rt_pending := (rt_pending r)(pf_Nonce f := None)\<rparr>) (pp_target pending) src now = (Ok (), r')"
proof -
  obtain r' where m: "mark_healthy clock (r\<lparr>rt_pending := (rt_pending r)(pf_Nonce f := None)\<rparr>) (pp_target pending) src now =
      (Ok (), r')" using mark_healthy_done [OF assms(6)] by blast
  then show thesis using that assms by (auto simp: HandleDatagram_def HandleAck_def)
qed

lemma probe_answered:
  assumes probe: "sendProbe a ticket c (Some r) resolve True t0 = (Ok (), a1, out)"
    and held: "TicketIdentifier ticket = Ok tid" "rt_tickets a tid = Some ticket" "rt_tickets b tid = Some ticket"
    and target: "pt_TargetNode ticket = rt_nodeID b"
    and live: "\<not> ticket_expired ticket t1" "\<not> ticket_expired ticket t2"
    and utf8: "valid_utf8 (bytes_of (pt_SourceNode ticket))" "valid_utf8 (bytes_of (pt_TargetNode ticket))"
    and epB: "epB = \<lparr>ua_IP = Addr4 v, ua_Port = port, ua_Zone = ''''\<rparr>" "0 \<le> port" "port < 65536"
    and later: "t2 \<noteq> 0" "t3 < t2 + se_directTTL (rt_selector a)"
  shows "\<exists>w w' endpoint a2. resolve (cd_Endpoint c) = Some endpoint \<and> out = [(w, endpoint)] \<and>
    HandleDatagram clock b w epA t1 True = (Ok (), b, [(w', epA)]) \<and>
    HandleDatagram clock' a1 w' epB t2 wr = (Ok (), a2, []) \<and>
    fst (SelectPath t3 (rt_selector a2) (pt_TargetNode ticket)) = PathDirect (udp_String epB) \<and>
    se_direct (rt_selector a2) = (se_direct (rt_selector a1))(TrimSpace (pt_TargetNode ticket) \<mapsto>
      \<lparr>di_endpoint = udp_String epB, di_healthyUntil = t2 + se_directTTL (rt_selector a)\<rparr>)"
proof -
  obtain p w endpoint where s: "NewProbe ticket (Some r) = Ok p" "MarshalProbeFrame p = Ok w"
    "resolve (cd_Endpoint c) = Some endpoint" "out = [(w, endpoint)]"
    "a1 = a\<lparr>rt_pending := (rt_pending a)(pf_Nonce p \<mapsto>
       \<lparr>pp_probe = p, pp_ticket = ticket, pp_target = pt_TargetNode ticket, pp_sentAt = t0\<rparr>)\<rparr>"
    using probe by (auto simp: sendProbe_def Let_def split: result.splits option.splits)
  obtain secret w' where x: "probeTicketSecret ticket = Ok secret" "validateProbeShape p = Ok ()"
    "p = signed_frame secret (probe_of ticket secret (hex_encode r))" "ParseProbeFrame w = Ok p"
    "VerifyProbe p ticket t1 = Ok ()" "NewProbeAck p ticket t1 = Ok (signed_frame secret (ack_of p))"
    "MarshalProbeFrame (signed_frame secret (ack_of p)) = Ok w'"
    "ParseProbeFrame w' = Ok (signed_frame secret (ack_of p))"
    "VerifyProbeAck (signed_frame secret (ack_of p)) p ticket t2 = Ok ()"
    using probe_exchange [OF s(1) live utf8] s(2) by (metis result.inject(1))
  have p: "pf_Type p = ProbeTypeProbe" "pf_TargetNode p = pt_TargetNode ticket" "pf_TicketID p = tid"
    using held(1) x(1) by (subst x(3), simp add: probe_of_def TicketIdentifier_def)+
  have "HandleDatagram clock b w epA t1 True = (Ok (), b, [(w', epA)])"
    by (simp add: HandleDatagram_def HandleProbe_def x(4-7) p held(3) target)
  moreover
  let ?n = "pt_TargetNode ticket"
  have ack: "pf_Type (ack_of p) = ProbeTypeAck" "pf_TicketID (ack_of p) = tid" "pf_Nonce (ack_of p) = pf_Nonce p"
    by (simp_all add: ack_of_def p)
  have "TrimSpace ?n \<noteq> ''''" using x(2) by (simp add: validateProbeShape_Ok p)
  then have ok: "mark_ok ?n (udp_String epB)" unfolding epB(1) by (rule udp4_mark_ok) (use epB in simp_all)
  obtain a2 where "HandleDatagram clock' a1 w' epB t2 wr = (Ok (), a2, [])"
    and m: "mark_healthy clock' (a1\<lparr>rt_pending := (rt_pending a1)(pf_Nonce p := None)\<rparr>) ?n epB t2 = (Ok (), a2)"
    by (rule HandleDatagram_ack [OF x(8), where pending = "\<lparr>pp_probe = p, pp_ticket = ticket, pp_target = ?n, pp_sentAt = t0\<rparr>"
          and r = a1 and now = t2 and src = epB and wr = wr and clock = clock'])
      (use held(2) ok x(9) ack in \<open>simp_all add: s(5)\<close>)
  moreover have "fst (SelectPath t3 (rt_selector a2) ?n) = PathDirect (udp_String epB)"
    using m later udp4_parses(2) [OF epB(2,3), of v] by (auto simp: mark_healthy_Ok SelectPath_def s(5) epB(1))
  moreover have "se_direct (rt_selector a2) = (se_direct (rt_selector a1))(TrimSpace ?n \<mapsto>
      \<lparr>di_endpoint = udp_String epB, di_healthyUntil = t2 + se_directTTL (rt_selector a)\<rparr>)"
    using m later udp4_parses(2) [OF epB(2,3), of v] by (auto simp: mark_healthy_Ok s(5) epB(1))
  ultimately show ?thesis using s(3,4) by blast
qed

text \<open>One exchange of probes opens the path: when the ticket's source sends a probe to the target's
  endpoint, the target answers the datagram to where it came from, and the answer makes the source
  select the direct path to the target, at the endpoint the answer came from, for a path's time to
  live.\<close>

theorem probe_opens_path:
  assumes probe: "sendProbe a ticket c (Some r) resolve True t0 = (Ok (), a1, out)"
    and held: "TicketIdentifier ticket = Ok tid" "rt_tickets a tid = Some ticket" "rt_tickets b tid = Some ticket"
    and target: "pt_TargetNode ticket = rt_nodeID b"
    and live: "\<not> ticket_expired ticket t1" "\<not> ticket_expired ticket t2"
    and utf8: "valid_utf8 (bytes_of (pt_SourceNode ticket))" "valid_utf8 (bytes_of (pt_TargetNode ticket))"
    and epB: "epB = \<lparr>ua_IP = Addr4 v, ua_Port = port, ua_Zone = ''''\<rparr>" "0 \<le> port" "port < 65536"
    and later: "t2 \<noteq> 0" "t3 < t2 + se_directTTL (rt_selector a)"
  shows "\<exists>w w' endpoint a2. resolve (cd_Endpoint c) = Some endpoint \<and> out = [(w, endpoint)] \<and>
    HandleDatagram clock b w epA t1 True = (Ok (), b, [(w', epA)]) \<and>
    HandleDatagram clock' a1 w' epB t2 wr = (Ok (), a2, []) \<and>
    fst (SelectPath t3 (rt_selector a2) (pt_TargetNode ticket)) = PathDirect (udp_String epB)"
  using probe_answered [OF probe held target live utf8 epB later, of clock epA clock' wr] by blast

section \<open>Two clients\<close>

definition sample_id :: string where "sample_id = hex_encode (Sum256 (replicate 32 9))"

definition sample_client :: "string \<Rightarrow> candidate \<Rightarrow> p2p_runtime" where
  "sample_client n c =
     (newP2PRuntime '''' (Registration \<lparr>pr_NodeID = n, pr_VirtualIP = NoAddr, pr_SessionToken = '''', pr_LastSeen = 0\<rparr>
         (Prefix NoAddr 0)) \<lparr>ua_IP = NoAddr, ua_Port = 0, ua_Zone = ''''\<rparr>
         \<lparr>pc_directHealthyMarks = 0, pc_directTX = 0, pc_directRX = 0, pc_directFallbacks = 0, pc_replayDrops = 0\<rparr>)
       \<lparr>rt_tickets := [sample_id \<mapsto> sample_ticket], rt_candidates := [cd_NodeID c \<mapsto> c]\<rparr>"

definition sample_candidate :: "string \<Rightarrow> u32 \<Rightarrow> candidate" where
  "sample_candidate n v = \<lparr>cd_NodeID = n, cd_VirtualIP = string4 v, cd_Endpoint = ''1.2.3.4:5'',
     cd_Kind = CandidateRelayObserved, cd_ObservedAt = 5\<rparr>"

abbreviation "client1 \<equiv> sample_client ''n1'' (sample_candidate ''n2'' 0x0A420003)"
abbreviation "client2 \<equiv> sample_client ''n2'' (sample_candidate ''n1'' 0x0A420002)"

definition sample_udp :: udp_addr where "sample_udp = \<lparr>ua_IP = Addr4 0x01020304, ua_Port = 5, ua_Zone = ''''\<rparr>"

definition sample_packet :: bytes where
  "sample_packet = [0x45, 0, 0, 20, 0, 0, 0, 0, 64, 0, 0, 0, 10, 66, 0, 2, 10, 66, 0, 3]"

lemma sample_client_simps [simp]:
  "rt_nodeID (sample_client n c) = n" "rt_tickets (sample_client n c) = [sample_id \<mapsto> sample_ticket]"
  "rt_candidates (sample_client n c) = [cd_NodeID c \<mapsto> c]" "rt_pending (sample_client n c) = Map.empty"
  "rt_replay (sample_client n c) = Map.empty" "rt_lastIssued (sample_client n c) = Map.empty"
  "rt_selector (sample_client n c) = NewSelector (30 * Second)"
  by (simp_all add: sample_client_def newP2PRuntime_def Registration_def)

lemma sample_identifier: "TicketIdentifier sample_ticket = Ok sample_id"
  by (simp add: TicketIdentifier_def sample_ticket_secret sample_id_def)

lemma sample_facts:
  "\<not> ticket_expired sample_ticket 12" "\<not> ticket_expired sample_ticket 13"
  "pt_SourceNode sample_ticket = ''n1''" "pt_TargetNode sample_ticket = ''n2''"
  "valid_utf8 (bytes_of (pt_SourceNode sample_ticket))" "valid_utf8 (bytes_of (pt_TargetNode sample_ticket))"
  "se_directTTL (NewSelector (30 * Second)) = 30000000000"
  "IPv4Endpoints sample_packet = Ok (Addr4 0x0A420002, Addr4 0x0A420003)"
  using sample_names
  by (simp_all add: ticket_expired_def sample_ticket_def
      NewSelector_def Second_def IPv4Endpoints_def ipv4HeaderLength_def idx_def sample_packet_def AddrFrom4_def be32_def)

lemma sample_exchange:
  obtains a1 w where "sendProbe client1 sample_ticket (sample_candidate ''n2'' 0x0A420003) (Some (replicate 16 5))
      (\<lambda>_. Some sample_udp) True 11 = (Ok (), a1, [(w, sample_udp)])"
proof -
  have "MarshalProbeFrame sample_probe = Ok (probeWirePrefix @ marshal_probe_json sample_probe)"
    using sample_shape by (simp add: MarshalProbeFrame_def sample_probe_def iffD2 [OF signed_shape])
  then show thesis using that sample_probe_new by (simp add: sendProbe_def Let_def)
qed

theorem probe_opens_path_witness:
  "\<exists>a1 w w' a2. sendProbe client1 sample_ticket (sample_candidate ''n2'' 0x0A420003) (Some (replicate 16 5))
      (\<lambda>_. Some sample_udp) True 11 = (Ok (), a1, [(w, sample_udp)]) \<and>
    HandleDatagram 12 client2 w sample_udp 12 True = (Ok (), client2, [(w', sample_udp)]) \<and>
    HandleDatagram 13 a1 w' sample_udp 13 True = (Ok (), a2, []) \<and>
    fst (SelectPath 14 (rt_selector a2) ''n2'') = PathDirect (udp_String sample_udp)"
proof -
  obtain a1 w where send: "sendProbe client1 sample_ticket (sample_candidate ''n2'' 0x0A420003) (Some (replicate 16 5))
      (\<lambda>_. Some sample_udp) True 11 = (Ok (), a1, [(w, sample_udp)])" by (rule sample_exchange)
  have "\<exists>w1 w' endpoint a2. Some sample_udp = Some endpoint \<and> [(w, sample_udp)] = [(w1, endpoint)] \<and>
    HandleDatagram 12 client2 w1 sample_udp 12 True = (Ok (), client2, [(w', sample_udp)]) \<and>
    HandleDatagram 13 a1 w' sample_udp 13 True = (Ok (), a2, []) \<and>
    fst (SelectPath 14 (rt_selector a2) (pt_TargetNode sample_ticket)) = PathDirect (udp_String sample_udp)"
    by (rule probe_opens_path [OF send sample_identifier _ _ _ sample_facts(1,2,5,6), where v = "0x01020304" and port = 5])
       (simp_all add: sample_facts sample_udp_def)
  then show ?thesis using send by (auto simp: sample_facts)
qed

theorem ack_opens_path_once_witness:
  "\<exists>a1 w' a2. HandleDatagram 13 a1 w' sample_udp 13 True = (Ok (), a2, []) \<and>
     se_direct (rt_selector a1) ''n2'' = None \<and> se_direct (rt_selector a2) ''n2'' \<noteq> None \<and>
     fst (HandleDatagram 14 a2 w' sample_udp 14 True) = Fail NoPendingNonce"
proof -
  obtain a1 w where send: "sendProbe client1 sample_ticket (sample_candidate ''n2'' 0x0A420003) (Some (replicate 16 5))
      (\<lambda>_. Some sample_udp) True 11 = (Ok (), a1, [(w, sample_udp)])" by (rule sample_exchange)
  have sel: "rt_selector a1 = rt_selector client1" using sendProbe_selector [OF send] .
  have t: "pt_TargetNode sample_ticket = rt_nodeID client2" "rt_tickets client1 sample_id = Some sample_ticket"
    "rt_tickets client2 sample_id = Some sample_ticket" by (simp_all add: sample_facts)
  have later: "(14 :: int) < 13 + se_directTTL (rt_selector client1)" by (simp add: sample_facts)
  obtain w' a2 where a2: "HandleDatagram 13 a1 w' sample_udp 13 True = (Ok (), a2, [])"
    and direct: "se_direct (rt_selector a2) = (se_direct (rt_selector a1))(TrimSpace (pt_TargetNode sample_ticket) \<mapsto>
      \<lparr>di_endpoint = udp_String sample_udp, di_healthyUntil = 13 + se_directTTL (rt_selector client1)\<rparr>)"
    using probe_answered [OF send sample_identifier t(2,3,1) sample_facts(1,2,5,6) _ _ _ _ later, of sample_udp "0x01020304" 5]
    by (force simp: sample_udp_def)
  have new: "se_direct (rt_selector a1) ''n2'' = None" "se_direct (rt_selector a2) ''n2'' \<noteq> None"
    using direct by (simp_all add: sel sample_facts sample_names NewSelector_def)
  then have "rt_selector a2 \<noteq> rt_selector a1" by metis
  from ack_opens_path_once [OF a2 this] new a2 show ?thesis by blast
qed


lemma sample_sealed_packet:
  obtains wire where "SealDirectPayload sample_ticket ''n1'' ''n2'' sample_packet 12 (Some (replicate 12 4)) = Ok wire"
proof -
  have "SealDirectPayload sample_ticket ''n1'' ''n2'' sample_packet 12 (Some (replicate 12 4)) = Ok
      (direct_frame (Sum256 (replicate 32 9)) (replicate 12 4) ''n1'' ''n2'' (gcm_seal (replicate 32 9) (replicate 12 4)
        sample_packet (directPayloadAAD (Sum256 (replicate 32 9)) ''n1'' ''n2'')))"
    using sample_ticket_secret sample_facts(1)
    by (simp add: SealDirectPayload_Ok [OF sample_names(1,2) [symmetric]] ticketMatchesPair_def sample_facts)
       (simp add: sample_packet_def)
  then show thesis by (rule that)
qed

lemma sample_addr: "ParseAddr (cd_VirtualIP (sample_candidate n v)) = Some (Addr4 v)"
  "cd_NodeID (sample_candidate n v) = n" "cd_VirtualIP (sample_candidate n v) = string4 v"
  by (simp_all add: sample_candidate_def ParseAddr_string4)

text \<open>What the theorems ask of the receiving sample node, of its ticket and of the sender's address.\<close>

lemma sample_receiver:
  "rt_tickets client2 sample_id = Some sample_ticket" "TrimSpace (rt_nodeID client1) = rt_nodeID client1"
  "TrimSpace (rt_nodeID client2) = rt_nodeID client2"
  "rt_candidates client2 (rt_nodeID client1) = Some (sample_candidate ''n1'' 0x0A420002)"
  "rt_replay client2 (sample_id @ hex_encode (replicate 12 4)) = None"
  "14 < 13 + se_directTTL (rt_selector client2)"
  using sample_names by (simp_all add: sample_facts sample_addr(2))

lemma sample_sender:
  "sample_udp = \<lparr>ua_IP = Addr4 0x01020304, ua_Port = 5, ua_Zone = ''''\<rparr>" "(0 :: int) \<le> 5" "(5 :: int) < 65536"
  "(13 :: int) \<noteq> 0" "length (replicate 12 (4 :: u8)) = 12"
  by (simp_all add: sample_udp_def)

theorem direct_delivery_witness:
  "\<exists>a' wire b'. SendDirectPayload
      (client1\<lparr>rt_selector := (NewSelector (30 * Second))\<lparr>se_direct :=
         [''n2'' \<mapsto> \<lparr>di_endpoint = ''1.2.3.4:5'', di_healthyUntil = 100\<rparr>]\<rparr>\<rparr>)
      [''n2''] [sample_id] (\<lambda>_. Some sample_udp) (Some (replicate 12 4)) True 12 12 (Addr4 0x0A420003) sample_packet =
      (Ok True, a', [(wire, sample_udp)]) \<and>
    HandleDirectPayload 13 client2 wire sample_udp (Addr4 0x0A420003) 13 = (Ok (Some sample_packet), b')"
proof -
  let ?se = "(NewSelector (30 * Second))\<lparr>se_direct := [''n2'' \<mapsto> \<lparr>di_endpoint = ''1.2.3.4:5'', di_healthyUntil = 100\<rparr>]\<rparr>"
  let ?a = "client1\<lparr>rt_selector := ?se\<rparr>"
  obtain wire where seal: "SealDirectPayload sample_ticket ''n1'' ''n2'' sample_packet 12 (Some (replicate 12 4)) = Ok wire"
    by (rule sample_sealed_packet)
  have ep: "TrimSpace ''1.2.3.4:5'' = ''1.2.3.4:5''" by code_simp
  have c: "candidateForVirtualIP ?a [''n2''] (Addr4 0x0A420003) = Some (sample_candidate ''n2'' 0x0A420003)"
    by (simp add: candidateForVirtualIP_def range_values_def sample_addr)
  have t: "liveTicketForPeer (?a\<lparr>rt_selector := s\<rparr>) [sample_id] ''n2'' 12 = Some sample_ticket" for s
    by (simp add: liveTicketForPeer_def range_values_def sample_facts ticketMatchesPair_def)
  obtain a' where send: "SendDirectPayload ?a [''n2''] [sample_id] (\<lambda>_. Some sample_udp) (Some (replicate 12 4)) True 12 12
      (Addr4 0x0A420003) sample_packet = (Ok True, a', [(wire, sample_udp)])"
    using t [of ?se] by (simp add: SendDirectPayload_def c SelectPath_def sample_addr sample_names ep seal Let_def)
  have t': "liveTicketForPeer ?a [sample_id] (rt_nodeID client2) 12 = Some sample_ticket" using t [of ?se] by simp
  have a: "rt_nodeID ?a = rt_nodeID client1" "cd_NodeID (sample_candidate ''n2'' 0x0A420003) = rt_nodeID client2"
    by (simp_all add: sample_addr(2))
  note r = sample_receiver [folded a(1)]
  from direct_delivery [OF send c a(2) t' sample_identifier r(1) sample_facts(2) r(2-4) sample_addr(1) sample_facts(8)
      sample_sender(5) r(5) sample_sender(1-4) r(6), of 13]
  show ?thesis using send by auto
qed

theorem client_takes_nothing_twice_witness:
  "\<exists>wire r1. HandleDirectPayload 13 client2 wire sample_udp (Addr4 0x0A420003) 13 = (Ok (Some sample_packet), r1) \<and>
     fst (HandleDirectPayload 14 (runtime_run r1 [EvSelection 13 ''n1'']) wire sample_udp (Addr4 0x0A420003) 14) \<noteq>
       Ok (Some sample_packet)"
proof -
  obtain wire where seal:
    "SealDirectPayload sample_ticket (rt_nodeID client1) (rt_nodeID client2) sample_packet 12 (Some (replicate 12 4)) = Ok wire"
    using sample_sealed_packet by auto
  note r = sample_receiver
  obtain r1 where r1: "DirectPayloadTicketID wire = Ok sample_id"
    "HandleDirectPayload 13 client2 wire sample_udp (Addr4 0x0A420003) 13 = (Ok (Some sample_packet), r1)"
    by (rule sealed_delivery [OF seal sample_identifier r(1) sample_facts(2) r(2-4) sample_addr(1) sample_facts(8)
          sample_sender(5) r(5) sample_sender(1-4) r(6)])
  have "tickets_ok (\<lambda>_. 30000000010) client2"
    using sample_identifier by (simp add: tickets_ok_def expires_as_def) (simp add: sample_ticket_def)
  then have "fst (HandleDirectPayload 14 (runtime_run r1 [EvSelection 13 ''n1'']) wire sample_udp (Addr4 0x0A420003) 14) \<noteq>
      Ok (Some sample_packet)"
    by (rule client_takes_nothing_twice [OF _ r1(2,1), where now' = 14]) simp_all
  with r1(2) show ?thesis by blast
qed

end
