(* ===== verification/RouterClass.thy ===== *)
theory RouterClass
  imports GoNetip
begin

text \<open>
  The traffic classes of \<open>internal/router\<close> and the routes of \<open>internal/tun/tun.go\<close> that bring
  discovery multicast into the mesh interface.
\<close>

record packet =
  pk_Source :: addr
  pk_Destination :: addr
  pk_Payload :: bytes

datatype traffic_class = ClassUnknown | ClassPeer | ClassInternet | ClassDiscovery

definition mdnsIPv4 :: addr where "mdnsIPv4 = AddrFrom4 224 0 0 251"
definition ssdpIPv4 :: addr where "ssdpIPv4 = AddrFrom4 239 255 255 250"

definition Classify :: "ip_prefix \<Rightarrow> packet \<Rightarrow> traffic_class" where
  "Classify meshPrefix p =
     (if \<not> addr_IsValid (pk_Destination p) then ClassUnknown
      else if pk_Destination p = mdnsIPv4 \<or> pk_Destination p = ssdpIPv4 then ClassDiscovery
      else if prefix_IsValid meshPrefix \<and> prefix_Contains meshPrefix (pk_Destination p) then ClassPeer
      else ClassInternet)"

definition discoveryDestinations :: "string list" where
  "discoveryDestinations = [''224.0.0.251/32'', ''239.255.255.250/32'']"

definition discoveryCommands :: "string \<Rightarrow> string list list" where
  "discoveryCommands name =
     [''link'', ''set'', ''dev'', name, ''multicast'', ''on''] #
     map (\<lambda>destination. [''route'', ''replace'', destination, ''dev'', name, ''scope'', ''link''])
       discoveryDestinations"

text \<open>The classes are exclusive and cover every destination.\<close>

lemma Classify_cases:
  "Classify m p = ClassUnknown \<longleftrightarrow> pk_Destination p = NoAddr"
  "Classify m p = ClassDiscovery \<longleftrightarrow> pk_Destination p \<in> {mdnsIPv4, ssdpIPv4}"
  "Classify m p = ClassPeer \<longleftrightarrow>
     pk_Destination p \<notin> {mdnsIPv4, ssdpIPv4} \<and> prefix_Contains m (pk_Destination p)"
proof -
  have valid: "mdnsIPv4 \<noteq> NoAddr" "ssdpIPv4 \<noteq> NoAddr"
    by (simp_all add: mdnsIPv4_def ssdpIPv4_def AddrFrom4_def)
  have contains: "prefix_Contains m a \<Longrightarrow> prefix_IsValid m \<and> a \<noteq> NoAddr" for a
    by (auto simp: prefix_Contains_def split: if_splits addr.splits)
  have isvalid: "addr_IsValid a \<longleftrightarrow> a \<noteq> NoAddr" for a by (cases a) auto
  show "Classify m p = ClassUnknown \<longleftrightarrow> pk_Destination p = NoAddr"
    "Classify m p = ClassDiscovery \<longleftrightarrow> pk_Destination p \<in> {mdnsIPv4, ssdpIPv4}"
    "Classify m p = ClassPeer \<longleftrightarrow>
       pk_Destination p \<notin> {mdnsIPv4, ssdpIPv4} \<and> prefix_Contains m (pk_Destination p)"
    using valid contains by (auto simp: Classify_def isvalid)
qed

end
