(* ===== verification/XrayTunnel.thy ===== *)
theory XrayTunnel
  imports GoAddrParse GoJson "HOL-Library.Product_Lexorder"
begin

text \<open>
  The full-tunnel profile, \<open>internal/xray/tun_profile.go\<close>: the cover of the IPv4 addresses outside
  the protected prefixes by CIDR routes, and the profile that is built from it around an existing
  configuration. Configurations are JSON values here, not their text: the text of a member the code
  does not look into is copied, and reading and printing JSON is the standard library's.
\<close>

section \<open>Routes\<close>

datatype xray_error =
    ErrProtectedPrefix
  | ErrParseConfig
  | ErrParseInbounds
  | ErrParseInbound
  | ErrTunInbound string \<comment> \<open>with the text \<open>formatTag\<close> gives\<close>
  | ErrProfileSource
  | ErrProfileTemp

text \<open>A masked prefix keeps the length it was given, or is the invalid one.\<close>

lemma prefix_Bits_half: "prefix_Bits (prefix_Masked (PrefixFrom a b)) \<in> {b, -1}"
  by (cases a) (auto simp: prefix_Masked_def PrefixFrom_def)

function subtractPrefix :: "ip_prefix \<Rightarrow> ip_prefix \<Rightarrow> (xray_error, ip_prefix list) result" where
  "subtractPrefix base hole =
     (if \<not> prefix_Overlaps base hole then Ok [base]
      else if prefix_Bits hole \<le> prefix_Bits base \<and> prefix_Contains hole (prefix_Addr base) then Ok []
      else if prefix_Bits base \<ge> 32 then Ok []
      else let bits = prefix_Bits base;
               first = prefix_Masked (PrefixFrom (prefix_Addr base) (bits + 1))
      in case addr_As4 (prefix_Addr base) of
           Panic \<Rightarrow> Panic
         | Fail e \<Rightarrow> Fail e
         | Ok (a, b, c, d) \<Rightarrow>
           let v = be32 a b c d OR push_bit (nat (31 - bits)) 1;
               second = prefix_Masked (PrefixFrom (Addr4 v) (bits + 1))
           in rbind (subtractPrefix first hole) (\<lambda>r. rbind (subtractPrefix second hole) (\<lambda>s. Ok (r @ s))))"
  by pat_completeness auto

termination
proof (relation "measure (\<lambda>(base, hole). if prefix_IsValid base then nat (33 - prefix_Bits base) else 0)")
  have step: "((prefix_Masked (PrefixFrom a (prefix_Bits base + 1)), hole), base, hole)
      \<in> measure (\<lambda>(base, hole). if prefix_IsValid base then nat (33 - prefix_Bits base) else 0)"
    if "prefix_Overlaps base hole" "\<not> prefix_Bits base \<ge> 32" for a base hole
    using that prefix_Bits_half [of a "prefix_Bits base + 1"]
    by (auto simp: prefix_IsValid_def prefix_Overlaps_def split: if_splits)
  show "((x, hole), base, hole) \<in> measure (\<lambda>(base, hole). if prefix_IsValid base then nat (33 - prefix_Bits base) else 0)"
    if "\<not> \<not> prefix_Overlaps base hole" "\<not> prefix_Bits base \<ge> 32" "bits = prefix_Bits base"
      "x = prefix_Masked (PrefixFrom (prefix_Addr base) (bits + 1))" for base hole bits x
    using that step by simp
  show "((x, hole), base, hole) \<in> measure (\<lambda>(base, hole). if prefix_IsValid base then nat (33 - prefix_Bits base) else 0)"
    if "\<not> \<not> prefix_Overlaps base hole" "\<not> prefix_Bits base \<ge> 32" "bits = prefix_Bits base"
      "x = prefix_Masked (PrefixFrom (Addr4 v) (bits + 1))" for base hole bits x v
    using that step by simp
qed simp_all

declare subtractPrefix.simps [simp del]

fun cut_routes :: "ip_prefix \<Rightarrow> ip_prefix list \<Rightarrow> (xray_error, ip_prefix list) result" where
  "cut_routes hole [] = Ok []"
| "cut_routes hole (base # routes) =
     rbind (subtractPrefix base hole) (\<lambda>r. rbind (cut_routes hole routes) (\<lambda>s. Ok (r @ s)))"

fun exclude_loop :: "ip_prefix list \<Rightarrow> ip_prefix list \<Rightarrow> (xray_error, ip_prefix list) result" where
  "exclude_loop [] routes = Ok routes"
| "exclude_loop (hole # protected) routes =
     (if \<not> prefix_IsValid hole then Fail ErrProtectedPrefix
      else if \<not> addr_Is4 (prefix_Addr hole) then exclude_loop protected routes
      else rbind (cut_routes (prefix_Masked hole) routes) (exclude_loop protected))"

text \<open>
  The order of the routes: by the first four bytes of the address, then by length. Two routes of
  equal keys are the same route, so that the sort need not be stable.
\<close>

fun route_key :: "ip_prefix \<Rightarrow> u32 \<times> int" where
  "route_key (Prefix (Addr4 v) b) = (v, b)"
| "route_key (Prefix (Addr6 w z) b) = (ucast (drop_bit 96 w), b)"
| "route_key (Prefix NoAddr b) = (0, b)" \<comment> \<open>would panic; no route is one\<close>

definition IPv4RoutesExcluding :: "ip_prefix list \<Rightarrow> (xray_error, ip_prefix list) result" where
  "IPv4RoutesExcluding protected =
     rbind (exclude_loop protected [Prefix (Addr4 0) 0]) (\<lambda>routes. Ok (sort_key route_key routes))"

section \<open>The profile\<close>

datatype json =
    JNull
  | JBool bool
  | JNum string
  | JStr string
  | JArr "json list"
  | JObj "(string \<times> json) list"

record tunnel_options =
  to_Tag :: string
  to_Name :: string
  to_MTU :: int
  to_Gateway :: ip_prefix
  to_Protected :: "ip_prefix list"

definition defaultTUNGateway :: ip_prefix where
  "defaultTUNGateway = Prefix (AddrFrom4 172 30 255 1) 30"

definition normalizeTunnelOptions :: "tunnel_options \<Rightarrow> tunnel_options" where
  "normalizeTunnelOptions opts = opts\<lparr>
     to_Tag := (if TrimSpace (to_Tag opts) = '''' then ''xray-mesh-tun'' else to_Tag opts),
     to_Name := (if TrimSpace (to_Name opts) = '''' then ''xraymesh0'' else to_Name opts),
     to_MTU := (if to_MTU opts \<le> 0 then 1500 else to_MTU opts),
     to_Gateway := (if \<not> prefix_IsValid (to_Gateway opts) then defaultTUNGateway else to_Gateway opts)\<rparr>"

text \<open>\<open>strings.EqualFold\<close> with an ASCII word none of whose letters another rune folds to.\<close>

definition ascii_lower :: "char \<Rightarrow> char" where
  "ascii_lower c = (if CHR ''A'' \<le> c \<and> c \<le> CHR ''Z'' then char_of (of_char c + (32 :: nat)) else c)"

definition EqualFold_ascii :: "string \<Rightarrow> string \<Rightarrow> bool" where
  "EqualFold_ascii s t \<longleftrightarrow> List.map ascii_lower s = List.map ascii_lower t"

text \<open>
  \<open>fmt.Sprintf(" (tag %q)", tag)\<close>: the quoted form of the tag is the standard library's, of which
  nothing is used.
\<close>

definition formatTag :: "(string \<Rightarrow> string) \<Rightarrow> string \<Rightarrow> string" where
  "formatTag quote tag = (if TrimSpace tag = '''' then '''' else '' (tag '' @ quote tag @ '')'')"

text \<open>
  Decoding one inbound into the protocol and the tag: an object's members are matched as field names
  are, the last of equal names counts, \<open>null\<close> changes nothing and any other type is an error.
\<close>

definition set_string :: "json \<Rightarrow> string \<Rightarrow> string option" where
  "set_string v old = (case v of JNull \<Rightarrow> Some old | JStr s \<Rightarrow> Some s | _ \<Rightarrow> None)"

fun set_meta :: "(string \<times> json) list \<Rightarrow> string \<times> string \<Rightarrow> (string \<times> string) option" where
  "set_meta [] m = Some m"
| "set_meta ((k, v) # kvs) (protocol, tag) =
     (let is = (\<lambda>name. fold_name (bytes_of k) = fold_name (bytes_of name))
      in Option.bind
        (if is ''protocol'' then map_option (\<lambda>p. (p, tag)) (set_string v protocol)
         else if is ''tag'' then map_option (\<lambda>t. (protocol, t)) (set_string v tag)
         else Some (protocol, tag)) (set_meta kvs))"

definition inbound_meta :: "json \<Rightarrow> (string \<times> string) option" where
  "inbound_meta v =
     (case v of JNull \<Rightarrow> Some ('''', '''') | JObj kvs \<Rightarrow> set_meta kvs ('''', '''') | _ \<Rightarrow> None)"

fun check_inbounds :: "(string \<Rightarrow> string) \<Rightarrow> json list \<Rightarrow> (xray_error, unit) result" where
  "check_inbounds quote [] = Ok ()"
| "check_inbounds quote (raw # rest) =
     (case inbound_meta raw of
        None \<Rightarrow> Fail ErrParseInbound
      | Some (protocol, tag) \<Rightarrow>
        if EqualFold_ascii (TrimSpace protocol) ''tun'' then Fail (ErrTunInbound (formatTag quote tag))
        else check_inbounds quote rest)"

definition tun_inbound :: "tunnel_options \<Rightarrow> string list \<Rightarrow> json" where
  "tun_inbound opts routeText =
     JObj [(''tag'', JStr (to_Tag opts)), (''protocol'', JStr ''tun''),
       (''settings'', JObj [(''name'', JStr (to_Name opts)), (''mtu'', JNum (int_string (to_MTU opts))),
          (''gateway'', JArr [JStr (prefix_String (to_Gateway opts))]),
          (''autoSystemRoutingTable'', JArr (List.map JStr routeText)),
          (''autoOutboundsInterface'', JStr ''auto'')])]"

definition root_inbounds :: "(string \<rightharpoonup> json) \<Rightarrow> (xray_error, json list) result" where
  "root_inbounds root =
     (case root ''inbounds'' of
        None \<Rightarrow> Ok []
      | Some JNull \<Rightarrow> Ok []
      | Some (JArr xs) \<Rightarrow> Ok xs
      | Some _ \<Rightarrow> Fail ErrParseInbounds)"

text \<open>
  The source is what it parses to, \<open>None\<close> for text that is not JSON. A source that is \<open>null\<close> decodes
  to the nil map, in which everything is absent and which cannot be assigned to.
\<close>

definition source_root :: "json option \<Rightarrow> (xray_error, (string \<rightharpoonup> json) option) result" where
  "source_root source =
     (case source of
        Some JNull \<Rightarrow> Ok None
      | Some (JObj kvs) \<Rightarrow> Ok (Some (map_of (rev kvs)))
      | _ \<Rightarrow> Fail ErrParseConfig)"

definition BuildFullTunnelConfig ::
    "(string \<Rightarrow> string) \<Rightarrow> json option \<Rightarrow> tunnel_options \<Rightarrow> (xray_error, string \<rightharpoonup> json) result" where
  "BuildFullTunnelConfig quote source opts0 =
     rbind (source_root source) (\<lambda>root.
     rbind (root_inbounds (case root of None \<Rightarrow> Map.empty | Some m \<Rightarrow> m)) (\<lambda>inbounds.
     rbind (check_inbounds quote inbounds) (\<lambda>_.
     let opts = normalizeTunnelOptions opts0
     in rbind (IPv4RoutesExcluding (to_Protected opts @ [prefix_Masked (to_Gateway opts)])) (\<lambda>routes.
        let inbounds = inbounds @ [tun_inbound opts (List.map prefix_String routes)]
        in case root of
             None \<Rightarrow> Panic
           | Some m \<Rightarrow> Ok (m(''inbounds'' \<mapsto> JArr inbounds))))))"

text \<open>
  The temporary file: what creating, restricting, writing and closing it gave. The second result is
  whether the file is there afterwards, for the caller to remove.
\<close>

record temp_env =
  tf_create :: bool
  tf_chmod :: bool
  tf_write :: bool
  tf_close :: bool

definition WriteFullTunnelConfig ::
    "(string \<Rightarrow> string) \<Rightarrow> json option option \<Rightarrow> temp_env \<Rightarrow> tunnel_options
     \<Rightarrow> (xray_error, string \<rightharpoonup> json) result \<times> bool" where
  "WriteFullTunnelConfig quote source env opts =
     (case source of
        None \<Rightarrow> (Fail ErrProfileSource, False)
      | Some text \<Rightarrow>
        (case BuildFullTunnelConfig quote text opts of
           Fail e \<Rightarrow> (Fail e, False)
         | Panic \<Rightarrow> (Panic, False)
         | Ok config \<Rightarrow>
           if \<not> tf_create env then (Fail ErrProfileTemp, False)
           else let cleanup = (\<lambda>present. False); present = True
             in if \<not> tf_chmod env then (Fail ErrProfileTemp, cleanup present)
             else if \<not> tf_write env then (Fail ErrProfileTemp, cleanup present)
             else if \<not> tf_close env then (Fail ErrProfileTemp, cleanup present)
             else (Ok config, present)))"

lemma WriteFullTunnelConfig_cases:
  "WriteFullTunnelConfig quote source env opts = (res, present) \<Longrightarrow>
     (present \<longleftrightarrow> (\<exists>config. res = Ok config)) \<and>
     (\<forall>config. res = Ok config \<longrightarrow> (\<exists>text. source = Some text \<and> BuildFullTunnelConfig quote text opts = Ok config))"
  by (auto simp: WriteFullTunnelConfig_def Let_def split: option.splits result.splits if_splits) metis

section \<open>The routes are an exact cover\<close>

text \<open>Prefixes in the form \<open>Masked\<close> gives: the address is a multiple of the size.\<close>

definition masked4 :: "ip_prefix \<Rightarrow> bool" where
  "masked4 p \<longleftrightarrow> prefix4 p \<and> prefix_Masked p = p"

lemma masked4_Masked: "prefix4 p \<Longrightarrow> masked4 (prefix_Masked p)"
  by (simp add: masked4_def)

lemma masked4_iff:
  "masked4 p \<longleftrightarrow> (\<exists>v n. p = Prefix (Addr4 v) (int n) \<and> n \<le> 32 \<and> unat v mod 2 ^ (32 - n) = 0)"
proof -
  have "v AND NOT (mask k) = v \<longleftrightarrow> unat v mod 2 ^ k = 0" for v :: u32 and k
    using div_mult_mod_eq [of "unat v" "2 ^ k"] by (auto simp: word_unat_eq_iff unat_and_not_mask)
  note m = this
  show ?thesis
  proof
    assume "masked4 p"
    then have "prefix4 p" "prefix_Masked p = p" by (simp_all add: masked4_def)
    then show "\<exists>v n. p = Prefix (Addr4 v) (int n) \<and> n \<le> 32 \<and> unat v mod 2 ^ (32 - n) = 0"
      by (auto elim!: prefix4_cases simp: prefix_Masked4 m)
  qed (auto simp: masked4_def prefix_Masked4 prefix4_def m)
qed

lemma masked4_cases:
  assumes "masked4 p"
  obtains v n where "p = Prefix (Addr4 v) (int n)" "n \<le> 32" "unat v mod 2 ^ (32 - n) = 0"
  using assms by (auto simp: masked4_iff)

lemma masked4_base: "masked4 (Prefix (Addr4 v) b) \<Longrightarrow> v \<in> prefix_set (Prefix (Addr4 v) b)"
  by (auto elim!: masked4_cases simp: prefix_set_base)

text \<open>The address block of \<open>n\<close> bits around an address; a shorter prefix's block is made of longer ones'.\<close>

lemma prefix_set_div:
  "n \<le> 32 \<Longrightarrow> w \<in> prefix_set (Prefix (Addr4 v) (int n)) \<longleftrightarrow> unat w div 2 ^ (32 - n) = unat v div 2 ^ (32 - n)"
  by (simp add: prefix_set_def prefix_Contains4)

lemma block_div:
  fixes x y :: u32
  assumes "n \<le> m" "m \<le> 32" "unat x div 2 ^ (32 - m) = unat y div 2 ^ (32 - m)"
  shows "unat x div 2 ^ (32 - n) = unat y div 2 ^ (32 - n)"
proof -
  have "(2 :: nat) ^ (32 - n) = 2 ^ (32 - m) * 2 ^ (m - n)" using assms(1,2) by (simp flip: power_add)
  then show ?thesis using assms(3) by (simp add: div_mult2_eq)
qed

lemma prefix_Overlaps4:
  assumes "masked4 p" "masked4 q"
  shows "prefix_Overlaps p q \<longleftrightarrow> prefix_set p \<inter> prefix_set q \<noteq> {}"
proof -
  obtain v n w m where p: "p = Prefix (Addr4 v) (int n)" "n \<le> 32" and q: "q = Prefix (Addr4 w) (int m)" "m \<le> 32"
    using assms by (auto elim!: masked4_cases)
  let ?k = "min n m"
  have "prefix_Overlaps p q \<longleftrightarrow> p = q \<or> ?k = 0 \<or> v AND NOT (mask (32 - ?k)) = w AND NOT (mask (32 - ?k))"
    using p q by (cases "n < m")
      (auto simp: prefix_Overlaps_def prefix_IsValid_def Let_def PrefixFrom_def host_mask_def)
  also have "\<dots> \<longleftrightarrow> unat v div 2 ^ (32 - ?k) = unat w div 2 ^ (32 - ?k)"
  proof -
    have "v AND NOT (mask (32 - ?k)) = w AND NOT (mask (32 - ?k)) \<longleftrightarrow> unat v div 2 ^ (32 - ?k) = unat w div 2 ^ (32 - ?k)"
      by (simp add: word_unat_eq_iff unat_and_not_mask)
    moreover have "unat u div 2 ^ 32 = 0" for u :: u32 using unat_u32_less [of u] by simp
    then have "?k = 0 \<Longrightarrow> unat v div 2 ^ (32 - ?k) = unat w div 2 ^ (32 - ?k)" by simp
    moreover have "p = q \<Longrightarrow> v = w" using p q by simp
    ultimately show ?thesis by blast
  qed
  also have "\<dots> \<longleftrightarrow> (\<exists>x. x \<in> prefix_set p \<and> x \<in> prefix_set q)"
  proof
    assume "\<exists>x. x \<in> prefix_set p \<and> x \<in> prefix_set q"
    then obtain x :: u32 where "unat x div 2 ^ (32 - n) = unat v div 2 ^ (32 - n)" "unat x div 2 ^ (32 - m) = unat w div 2 ^ (32 - m)"
      using p q by (auto simp: prefix_set_div)
    from block_div [OF _ p(2) this(1), of ?k] block_div [OF _ q(2) this(2), of ?k]
    show "unat v div 2 ^ (32 - ?k) = unat w div 2 ^ (32 - ?k)" by simp
  next
    assume "unat v div 2 ^ (32 - ?k) = unat w div 2 ^ (32 - ?k)"
    then have "w \<in> prefix_set p \<or> v \<in> prefix_set q" using p q by (auto simp: prefix_set_div min_def split: if_splits)
    moreover have "v \<in> prefix_set p" "w \<in> prefix_set q" using assms p q by (simp_all add: masked4_base)
    ultimately show "\<exists>x. x \<in> prefix_set p \<and> x \<in> prefix_set q" by blast
  qed
  finally show ?thesis by blast
qed

lemma unat_or_bit:
  fixes v :: u32
  assumes "unat v mod 2 ^ Suc k = 0" "k < 32"
  shows "unat (v OR 2 ^ k) = unat v + 2 ^ k"
proof -
  have odd: "even (unat v div 2 ^ k)" and room: "unat v + 2 ^ k < 2 ^ 32"
  proof -
    obtain m where m: "unat v = 2 ^ Suc k * m" using assms(1) by (auto simp: mod_eq_0_iff_dvd elim: dvdE)
    then show "even (unat v div 2 ^ k)" by simp
    have p: "(2 :: nat) ^ 32 = 2 ^ Suc k * 2 ^ (31 - k)" using assms(2) by (simp flip: power_add power_Suc)
    have "2 ^ Suc k * m < 2 ^ Suc k * 2 ^ (31 - k)" using unat_u32_less [of v] unfolding m p .
    then have "Suc m \<le> 2 ^ (31 - k)" by simp
    then have "2 ^ Suc k * Suc m \<le> 2 ^ Suc k * 2 ^ (31 - k)" by (rule mult_le_mono2)
    then show "unat v + 2 ^ k < 2 ^ 32" unfolding m p by (rule less_le_trans [rotated]) simp
  qed
  have "bit v k = bit (unat v) k" by (simp add: bit_unsigned_iff)
  then have "\<not> bit v k" using odd by (simp add: bit_iff_odd)
  then have "v AND 2 ^ k = 0" by (intro bit_word_eqI) (auto simp: bit_simps)
  then have "v OR 2 ^ k = v + 2 ^ k" by (simp add: word_plus_and_or [of v "2 ^ k", symmetric])
  moreover have "(2 :: nat) ^ k < 2 ^ 32" using assms(2) by (rule power_strict_increasing) simp
  then have "unat (2 ^ k :: u32) = 2 ^ k" using unat_of_nat_eq [of "2 ^ k", where 'a = 32] by simp
  ultimately show ?thesis using room by (simp add: unat_word_ariths)
qed

lemma halves:
  assumes "unat v mod 2 ^ (32 - n) = 0" "n < 32"
  defines "b \<equiv> Prefix (Addr4 v) (int n)" and "l \<equiv> Prefix (Addr4 v) (int (Suc n))"
    and "h \<equiv> Prefix (Addr4 (v OR 2 ^ (31 - n))) (int (Suc n))"
  shows "masked4 l" "masked4 h" "prefix_set b = prefix_set l \<union> prefix_set h"
    "\<forall>x\<in>prefix_set l. \<forall>y\<in>prefix_set h. x < y"
proof -
  have k: "32 - n = Suc (31 - n)" "32 - Suc n = 31 - n" "31 - n < 32" using assms(2) by simp_all
  have u: "unat (v OR 2 ^ (31 - n)) = unat v + 2 ^ (31 - n)"
    using unat_or_bit [OF _ k(3), of v] assms(1) by (simp only: k(1))
  have d: "unat v mod 2 ^ (31 - n) = 0" using assms(1) unfolding k(1) by (metis mod_0_imp_dvd dvd_imp_mod_0 dvd_trans le_imp_power_dvd lessI less_imp_le)
  then have d': "unat (v OR 2 ^ (31 - n)) mod 2 ^ (31 - n) = 0" unfolding u by simp
  show "masked4 l" "masked4 h" unfolding masked4_iff l_def h_def
    using d d' assms(2) by (intro exI [of _ v] exI [of _ "v OR 2 ^ (31 - n)"] exI [of _ "Suc n"], simp add: k)+
  have "w \<in> prefix_set b \<longleftrightarrow> unat v \<le> unat w \<and> unat w < unat v + 2 * 2 ^ (31 - n)"
    "w \<in> prefix_set l \<longleftrightarrow> unat v \<le> unat w \<and> unat w < unat v + 2 ^ (31 - n)"
    "w \<in> prefix_set h \<longleftrightarrow> unat v + 2 ^ (31 - n) \<le> unat w \<and> unat w < unat v + 2 * 2 ^ (31 - n)" for w
    using assms(1,2) d d' prefix_set_base [of n v w] prefix_set_base [of "Suc n" v w] prefix_set_base [of "Suc n" "v OR 2 ^ (31 - n)" w]
    unfolding b_def l_def h_def k u by auto
  then show "prefix_set b = prefix_set l \<union> prefix_set h" "\<forall>x\<in>prefix_set l. \<forall>y\<in>prefix_set h. x < y"
    by (auto simp: word_less_nat_alt)
qed

text \<open>
  A list of routes covers a set of addresses: masked prefixes, each below the next, whose addresses
  together are the set.
\<close>

definition below :: "ip_prefix \<Rightarrow> ip_prefix \<Rightarrow> bool" where
  "below p q \<longleftrightarrow> (\<forall>x\<in>prefix_set p. \<forall>y\<in>prefix_set q. x < y)"

definition covers :: "ip_prefix list \<Rightarrow> u32 set \<Rightarrow> bool" where
  "covers rs A \<longleftrightarrow> list_all masked4 rs \<and> sorted_wrt below rs \<and> \<Union> (prefix_set ` set rs) = A"

lemma covers_Nil [simp]: "covers [] A \<longleftrightarrow> A = {}"
  by (auto simp: covers_def)

lemma covers_one: "masked4 p \<Longrightarrow> covers [p] (prefix_set p)"
  by (simp add: covers_def)

lemma covers_append:
  "covers r A \<Longrightarrow> covers s B \<Longrightarrow> \<forall>x\<in>A. \<forall>y\<in>B. x < y \<Longrightarrow> covers (r @ s) (A \<union> B)"
  by (auto simp: covers_def sorted_wrt_append below_def)

lemma covers_Cons:
  "covers (p # rs) A \<Longrightarrow> masked4 p \<and> covers rs (\<Union> (prefix_set ` set rs)) \<and> A = prefix_set p \<union> \<Union> (prefix_set ` set rs) \<and>
     (\<forall>x\<in>prefix_set p. \<forall>y\<in>\<Union> (prefix_set ` set rs). x < y)"
  by (auto simp: covers_def below_def)

lemma subtractPrefix_covers:
  "masked4 base \<Longrightarrow> masked4 hole \<Longrightarrow>
     \<exists>rs. subtractPrefix base hole = Ok rs \<and> covers rs (prefix_set base - prefix_set hole)"
proof (induction base hole rule: subtractPrefix.induct)
  case (1 base hole)
  obtain v n where base: "base = Prefix (Addr4 v) (int n)" "n \<le> 32" "unat v mod 2 ^ (32 - n) = 0"
    using 1(3) by (rule masked4_cases)
  obtain w m where hole: "hole = Prefix (Addr4 w) (int m)" "m \<le> 32" using 1(4) by (rule masked4_cases)
  show ?case
  proof (cases "prefix_Overlaps base hole")
    case False
    then have "prefix_set base - prefix_set hole = prefix_set base" using prefix_Overlaps4 [OF 1(3,4)] by blast
    then show ?thesis using False covers_one [OF 1(3)] by (subst subtractPrefix.simps) simp
  next
    case True
    then obtain x where x: "x \<in> prefix_set base" "x \<in> prefix_set hole" using prefix_Overlaps4 [OF 1(3,4)] by blast
    show ?thesis
    proof (cases "m \<le> n")
      case True
      have sub: "prefix_set base \<subseteq> prefix_set hole"
      proof
        fix y assume "y \<in> prefix_set base"
        then have "unat y div 2 ^ (32 - n) = unat x div 2 ^ (32 - n)" using x(1) base by (simp add: prefix_set_div)
        from block_div [OF True base(2) this] show "y \<in> prefix_set hole" using x(2) hole by (simp add: prefix_set_div)
      qed
      then have "prefix_Contains hole (Addr4 v)" using masked4_base 1(3) base(1) by (auto simp: prefix_set_def)
      then show ?thesis using \<open>prefix_Overlaps base hole\<close> True sub
        by (subst subtractPrefix.simps) (simp add: base(1) hole(1))
    next
      case False
      then have n: "n < 32" "nat (31 - int n) = 31 - n" using hole(2) by simp_all
      let ?l = "Prefix (Addr4 v) (int (Suc n))" and ?h = "Prefix (Addr4 (v OR 2 ^ (31 - n))) (int (Suc n))"
      note half = halves [OF base(3) n(1)]
      have as4: "be32 (ucast (drop_bit 24 v)) (ucast (drop_bit 16 v)) (ucast (drop_bit 8 v)) (ucast v) = v"
        by (rule be32_put)
      have masked: "prefix_Masked (PrefixFrom (Addr4 u) (int n + 1)) = Prefix (Addr4 u) (int (Suc n))"
        if "masked4 (Prefix (Addr4 u) (int (Suc n)))" for u
        using that n(1) by (simp add: PrefixFrom_def masked4_def add.commute)
      obtain r s where rs: "subtractPrefix ?l hole = Ok r" "covers r (prefix_set ?l - prefix_set hole)"
        "subtractPrefix ?h hole = Ok s" "covers s (prefix_set ?h - prefix_set hole)"
        using 1(1,2) \<open>prefix_Overlaps base hole\<close> False half(1,2) 1(4) n masked as4
        by (fastforce simp: base(1) hole(1))
      have "covers (r @ s) ((prefix_set ?l - prefix_set hole) \<union> (prefix_set ?h - prefix_set hole))"
        by (rule covers_append [OF rs(2,4)]) (use half(4) in blast)
      then have "covers (r @ s) (prefix_set base - prefix_set hole)" using half(3) base(1) by (simp add: Un_Diff)
      then show ?thesis using \<open>prefix_Overlaps base hole\<close> False n rs(1,3) masked half(1,2) as4
        by (subst subtractPrefix.simps) (simp add: base(1) hole(1))
    qed
  qed
qed

lemma cut_routes_covers:
  "covers routes A \<Longrightarrow> masked4 hole \<Longrightarrow> \<exists>rs. cut_routes hole routes = Ok rs \<and> covers rs (A - prefix_set hole)"
proof (induction routes arbitrary: A)
  case (Cons base routes)
  let ?B = "\<Union> (prefix_set ` set routes)"
  from covers_Cons [OF Cons.prems(1)]
  have base: "masked4 base" and rest: "covers routes ?B" and A: "A = prefix_set base \<union> ?B" "\<forall>x\<in>prefix_set base. \<forall>y\<in>?B. x < y" by blast+
  obtain r s where rs: "subtractPrefix base hole = Ok r" "covers r (prefix_set base - prefix_set hole)"
    "cut_routes hole routes = Ok s" "covers s (?B - prefix_set hole)"
    using subtractPrefix_covers [OF base Cons.prems(2)] Cons.IH [OF rest Cons.prems(2)] by blast
  have "covers (r @ s) ((prefix_set base - prefix_set hole) \<union> (?B - prefix_set hole))"
    by (rule covers_append [OF rs(2,4)]) (use A(2) in blast)
  then show ?case using rs by (simp add: A(1) Un_Diff)
qed simp

text \<open>Prefixes as \<open>net/netip\<close> builds them: no longer than their address, and invalid without one.\<close>

definition netip_prefix :: "ip_prefix \<Rightarrow> bool" where
  "netip_prefix p \<longleftrightarrow> prefix_Bits p \<le> addr_BitLen (prefix_Addr p) \<and> (prefix_Addr p = NoAddr \<longrightarrow> prefix_Bits p < 0)"

definition unprotected :: "ip_prefix list \<Rightarrow> u32 set" where
  "unprotected ps = {w. \<forall>p\<in>set ps. \<not> prefix_Contains p (Addr4 w)}"

lemma unprotected_Cons: "unprotected (p # ps) = unprotected ps - prefix_set p"
  by (auto simp: unprotected_def prefix_set_def)

lemma not_Is4_empty: "\<not> addr_Is4 (prefix_Addr p) \<Longrightarrow> prefix_set p = {}"
  by (cases "prefix_Addr p") (auto simp: prefix_set_def prefix_Contains_def)

lemma masked_hole:
  assumes "netip_prefix p" "prefix_IsValid p" "addr_Is4 (prefix_Addr p)"
  shows "masked4 (prefix_Masked p)" "prefix_set (prefix_Masked p) = prefix_set p"
proof -
  have p: "prefix4 p" using assms by (cases "prefix_Addr p") (auto simp: prefix4_def netip_prefix_def prefix_IsValid_def)
  then show "masked4 (prefix_Masked p)" by (rule masked4_Masked)
  show "prefix_set (prefix_Masked p) = prefix_set p" using p by (auto elim!: prefix4_cases simp: prefix_set_Masked)
qed

lemma exclude_loop_covers:
  "covers routes A \<Longrightarrow> list_all netip_prefix protected \<Longrightarrow> list_all prefix_IsValid protected \<Longrightarrow>
     \<exists>rs. exclude_loop protected routes = Ok rs \<and> covers rs (A \<inter> unprotected protected)"
proof (induction protected arbitrary: routes A)
  case (Cons p ps)
  show ?case
  proof (cases "addr_Is4 (prefix_Addr p)")
    case True
    then have m: "masked4 (prefix_Masked p)" "prefix_set (prefix_Masked p) = prefix_set p"
      using masked_hole [of p] Cons.prems by auto
    obtain routes' where "cut_routes (prefix_Masked p) routes = Ok routes'" "covers routes' (A - prefix_set p)"
      using cut_routes_covers [OF Cons.prems(1) m(1)] m(2) by auto
    moreover have "A \<inter> unprotected (p # ps) = (A - prefix_set p) \<inter> unprotected ps"
      by (auto simp: unprotected_Cons)
    ultimately show ?thesis using Cons.IH [of routes' "A - prefix_set p"] Cons.prems(2,3) True by auto
  next
    case False
    then show ?thesis using Cons by (simp add: unprotected_Cons not_Is4_empty)
  qed
qed (simp add: unprotected_def)

lemma covers_sorted: "covers rs A \<Longrightarrow> sort_key route_key rs = rs"
proof (rule sort_key_id_if_sorted)
  assume "covers rs A"
  then have "sorted_wrt (\<lambda>p q. route_key p \<le> route_key q) rs"
  proof -
    have "route_key p \<le> route_key q" if pq: "below p q" "masked4 p" "masked4 q" for p q
    proof -
      obtain v n w m where e: "p = Prefix (Addr4 v) (int n)" "q = Prefix (Addr4 w) (int m)"
        using pq(2,3) by (auto elim!: masked4_cases)
      have "v \<in> prefix_set p" "w \<in> prefix_set q" using pq(2,3) masked4_base by (simp_all add: e)
      then have "v < w" using pq(1) by (simp add: below_def)
      then show ?thesis by (simp add: e less_eq_prod_def)
    qed
    then show ?thesis using \<open>covers rs A\<close> unfolding covers_def
      by (auto simp: list_all_iff intro: sorted_wrt_mono_rel [of rs below])
  qed
  then show "sorted (map route_key rs)" by (simp add: sorted_map)
qed

lemma IPv4RoutesExcluding_covers:
  assumes "list_all netip_prefix protected" "list_all prefix_IsValid protected"
  shows "\<exists>rs. IPv4RoutesExcluding protected = Ok rs \<and> covers rs (unprotected protected)"
proof -
  let ?all = "Prefix (Addr4 0) 0"
  have "masked4 ?all" by (auto simp: masked4_iff intro!: exI [of _ "0 :: nat"])
  then have "covers [?all] (prefix_set ?all)" by (rule covers_one)
  moreover have "unat w div 2 ^ 32 = 0" for w :: u32 using unat_u32_less [of w] by simp
  then have "prefix_set ?all = UNIV" using prefix_set_div [of 0 _ 0] by auto
  ultimately obtain rs where "exclude_loop protected [?all] = Ok rs" "covers rs (unprotected protected)"
    using exclude_loop_covers [OF _ assms, of "[?all]" UNIV] by auto
  then show ?thesis using covers_sorted by (auto simp: IPv4RoutesExcluding_def)
qed

lemma exclude_loop_refuses:
  "covers routes A \<Longrightarrow> list_all netip_prefix protected \<Longrightarrow> \<not> list_all prefix_IsValid protected \<Longrightarrow>
     exclude_loop protected routes = Fail ErrProtectedPrefix"
proof (induction protected arbitrary: routes A)
  case (Cons p ps)
  show ?case
  proof (cases "prefix_IsValid p \<and> addr_Is4 (prefix_Addr p)")
    case True
    then have m: "masked4 (prefix_Masked p)" using masked_hole [of p] Cons.prems by auto
    obtain routes' where "cut_routes (prefix_Masked p) routes = Ok routes'" "covers routes' (A - prefix_set (prefix_Masked p))"
      using cut_routes_covers [OF Cons.prems(1) m] by auto
    then show ?thesis using Cons.IH [of routes'] Cons.prems(2,3) True by auto
  qed (use Cons in auto)
qed simp

text \<open>C37: The routes taken into the tunnel are an exact cover of the IPv4 addresses outside the
  protected prefixes: every such address lies in exactly one route and no protected address in any,
  the routes are masked and in ascending order; it fails exactly if a protected prefix is invalid.\<close>

theorem full_tunnel_routes:
  assumes "list_all netip_prefix protected"
  shows "if list_all prefix_IsValid protected
     then \<exists>rs. IPv4RoutesExcluding protected = Ok rs \<and> list_all masked4 rs \<and> sorted_wrt below rs \<and>
       (\<forall>w. card {i. i < length rs \<and> prefix_Contains (rs ! i) (Addr4 w)} =
          (if \<exists>p\<in>set protected. prefix_Contains p (Addr4 w) then 0 else 1))
     else IPv4RoutesExcluding protected = Fail ErrProtectedPrefix"
proof (cases "list_all prefix_IsValid protected")
  case True
  obtain rs where rs: "IPv4RoutesExcluding protected = Ok rs" "covers rs (unprotected protected)"
    using IPv4RoutesExcluding_covers [OF assms True] by blast
  have "card {i. i < length rs \<and> prefix_Contains (rs ! i) (Addr4 w)} =
      (if \<exists>p\<in>set protected. prefix_Contains p (Addr4 w) then 0 else 1)" for w
  proof (cases "\<exists>p\<in>set protected. prefix_Contains p (Addr4 w)")
    case True
    then have "w \<notin> \<Union> (prefix_set ` set rs)" using rs(2) by (auto simp: covers_def unprotected_def)
    then have "{i. i < length rs \<and> prefix_Contains (rs ! i) (Addr4 w)} = {}" by (auto simp: prefix_set_def)
    then show ?thesis using True by simp
  next
    case False
    then have "w \<in> \<Union> (prefix_set ` set rs)" using rs(2) by (auto simp: covers_def unprotected_def)
    then obtain i where i: "i < length rs" "prefix_Contains (rs ! i) (Addr4 w)"
      by (auto simp: in_set_conv_nth prefix_set_def)
    have "j = i" if j: "j < length rs" "prefix_Contains (rs ! j) (Addr4 w)" for j
    proof (rule ccontr)
      assume "j \<noteq> i"
      then have "below (rs ! i) (rs ! j) \<or> below (rs ! j) (rs ! i)"
        using rs(2) i(1) j(1) by (metis covers_def linorder_neqE_nat sorted_wrt_nth_less)
      then show False using i(2) j(2) by (auto simp: below_def prefix_set_def)
    qed
    then have "{i. i < length rs \<and> prefix_Contains (rs ! i) (Addr4 w)} = {i}" using i by blast
    then show ?thesis using False by simp
  qed
  then show ?thesis using True rs by (auto simp: covers_def)
next
  case False
  have all: "covers [Prefix (Addr4 0) 0] (prefix_set (Prefix (Addr4 0) 0))"
    by (rule covers_one) (auto simp: masked4_iff intro!: exI [of _ "0 :: nat"])
  show ?thesis using False exclude_loop_refuses [OF all assms False] by (simp add: IPv4RoutesExcluding_def)
qed

theorem full_tunnel_routes_witness:
  "\<exists>rs. IPv4RoutesExcluding [Prefix (Addr4 0x0A420000) 24, Prefix NoAddr (-1)] = Fail ErrProtectedPrefix \<and>
     IPv4RoutesExcluding [Prefix (Addr4 0x0A420000) 24] = Ok rs \<and>
     card {i. i < length rs \<and> prefix_Contains (rs ! i) (Addr4 0x08080808)} = 1 \<and>
     card {i. i < length rs \<and> prefix_Contains (rs ! i) (Addr4 0x0A420005)} = 0"
proof -
  have c: "\<not> prefix_Contains (Prefix (Addr4 0x0A420000) 24) (Addr4 0x08080808)"
    "prefix_Contains (Prefix (Addr4 0x0A420000) 24) (Addr4 0x0A420005)"
    using prefix_Contains4 [of 24 "0x0A420000" "0x08080808"] prefix_Contains4 [of 24 "0x0A420000" "0x0A420005"] by simp_all
  have a: "list_all netip_prefix [Prefix (Addr4 0x0A420000) 24, Prefix NoAddr (-1)]"
    "list_all netip_prefix [Prefix (Addr4 0x0A420000) 24]" by (simp_all add: netip_prefix_def)
  obtain rs where rs: "IPv4RoutesExcluding [Prefix (Addr4 0x0A420000) 24] = Ok rs"
    and n: "\<And>w. card {i. i < length rs \<and> prefix_Contains (rs ! i) (Addr4 w)} =
      (if prefix_Contains (Prefix (Addr4 0x0A420000) 24) (Addr4 w) then 0 else 1)"
    using full_tunnel_routes [OF a(2)] by (auto simp: prefix_IsValid_def)
  moreover have "IPv4RoutesExcluding [Prefix (Addr4 0x0A420000) 24, Prefix NoAddr (-1)] = Fail ErrProtectedPrefix"
    using full_tunnel_routes [OF a(1)] by (simp add: prefix_IsValid_def)
  ultimately show ?thesis using n [of "0x08080808", unfolded if_not_P [OF c(1)]] n [of "0x0A420005", unfolded if_P [OF c(2)]]
    by blast
qed

section \<open>The profile keeps the configuration\<close>

lemma dec_string_two: "10 \<le> n \<Longrightarrow> n < 100 \<Longrightarrow> dec_string n = [dec_digit (n div 10), dec_digit (n mod 10)]"
  by (subst dec_string.simps, subst dec_string.simps) simp

lemma dec_string_one: "n < 10 \<Longrightarrow> dec_string n = [dec_digit n]"
  by (subst dec_string.simps) simp

lemma ParsePrefix_String:
  assumes "prefix4 p" shows "ParsePrefix (prefix_String p) = Some p"
proof -
  obtain v n where p: "p = Prefix (Addr4 v) (int n)" "n \<le> 32" using assms by (rule prefix4_cases)
  have s: "prefix_String p = string4 v @ CHR ''/'' # dec_string n"
    by (simp add: prefix_String_def prefix_IsValid_def p int_string_def)
  have "CHR ''/'' \<notin> set (dec_string n)" by (auto dest: dec_string_digits)
  then have split: "split_last (CHR ''/'') (prefix_String p) = Some (string4 v, dec_string n)"
    unfolding s by (rule split_last_append)
  have "length (dec_string n) > 1 \<longrightarrow> \<not> (hd (dec_string n) < CHR ''1'' \<or> hd (dec_string n) > CHR ''9'')"
  proof (cases "n < 10")
    case False
    then have "n div 10 \<in> {1, 2, 3}" using p(2) by auto
    moreover have "CHR ''1'' \<le> dec_digit 1" "CHR ''1'' \<le> dec_digit 2" "CHR ''1'' \<le> dec_digit 3"
      "dec_digit 1 \<le> CHR ''9''" "dec_digit 2 \<le> CHR ''9''" "dec_digit 3 \<le> CHR ''9''" by code_simp+
    ultimately show ?thesis using False p(2) by (auto simp: dec_string_two not_less)
  qed (simp add: dec_string_one)
  moreover have "dec_string n \<noteq> ''''" using dec_string_pos [of n] by auto
  ultimately show ?thesis using p(2) split unfolding p(1)
    by (simp add: ParsePrefix_def ParseAddr_string4 dec_string_values digits_val_dec_string PrefixFrom_def)
qed

definition tun_free :: "json \<Rightarrow> bool" where
  "tun_free raw \<longleftrightarrow> (case inbound_meta raw of
     None \<Rightarrow> False | Some (protocol, tag) \<Rightarrow> \<not> EqualFold_ascii (TrimSpace protocol) ''tun'')"

lemma check_inbounds_Ok: "check_inbounds quote xs = Ok () \<longleftrightarrow> (\<forall>raw\<in>set xs. tun_free raw)"
  by (induction xs) (auto simp: tun_free_def split: option.splits)

lemma check_inbounds_not_Panic: "check_inbounds quote xs \<noteq> Panic"
  by (induction xs) (auto split: option.splits)

lemma normalized_gateway:
  "netip_prefix (to_Gateway opts) \<Longrightarrow> netip_prefix (to_Gateway (normalizeTunnelOptions opts))"
  "prefix_IsValid (to_Gateway (normalizeTunnelOptions opts))"
  by (simp_all add: normalizeTunnelOptions_def netip_prefix_def defaultTUNGateway_def prefix_IsValid_def AddrFrom4_def)

lemma masked_gateway:
  assumes "netip_prefix g" "prefix_IsValid g"
  shows "netip_prefix (prefix_Masked g)" "prefix_IsValid (prefix_Masked g)" "prefix_set (prefix_Masked g) = prefix_set g"
proof -
  obtain a b where g: "g = Prefix a b" by (cases g)
  show "netip_prefix (prefix_Masked g)" using assms
    by (cases a) (auto simp: g netip_prefix_def prefix_Masked_def PrefixFrom_def prefix_IsValid_def)
  show "prefix_set (prefix_Masked g) = prefix_set g"
  proof (cases "addr_Is4 a")
    case True
    then show ?thesis using masked_hole(2) [OF assms] by (simp add: g)
  next
    case False
    then have "\<not> addr_Is4 (prefix_Addr (prefix_Masked g))"
      by (cases a) (auto simp: g prefix_Masked_def PrefixFrom_def)
    then show ?thesis using False by (simp add: not_Is4_empty g)
  qed
  show "prefix_IsValid (prefix_Masked g)" using assms
    by (cases a) (auto simp: g netip_prefix_def prefix_Masked_def PrefixFrom_def prefix_IsValid_def)
qed

text \<open>What the profile's routes mean once they are read back from their text.\<close>

definition text_covers :: "string list \<Rightarrow> u32 \<Rightarrow> bool" where
  "text_covers texts w \<longleftrightarrow> (\<exists>t\<in>set texts. \<exists>p. ParsePrefix t = Some p \<and> prefix_Contains p (Addr4 w))"

lemma text_covers_routes:
  "covers rs A \<Longrightarrow> text_covers (List.map prefix_String rs) w \<longleftrightarrow> w \<in> A"
  by (auto simp: text_covers_def covers_def list_all_iff prefix_set_def masked4_def ParsePrefix_String)

lemma profile_routes:
  assumes "list_all netip_prefix (to_Protected opts)" "netip_prefix (to_Gateway opts)"
  defines "o' \<equiv> normalizeTunnelOptions opts"
  shows "if list_all prefix_IsValid (to_Protected opts)
    then \<exists>rs. IPv4RoutesExcluding (to_Protected o' @ [prefix_Masked (to_Gateway o')]) = Ok rs \<and>
      (\<forall>w. text_covers (List.map prefix_String rs) w \<longleftrightarrow>
         (\<forall>p\<in>set (to_Protected opts). \<not> prefix_Contains p (Addr4 w)) \<and> \<not> prefix_Contains (to_Gateway o') (Addr4 w))
    else IPv4RoutesExcluding (to_Protected o' @ [prefix_Masked (to_Gateway o')]) = Fail ErrProtectedPrefix"
proof -
  have prot: "to_Protected o' = to_Protected opts" by (simp add: o'_def normalizeTunnelOptions_def)
  note g = masked_gateway [OF normalized_gateway(1) [OF assms(2)] normalized_gateway(2), folded o'_def]
  let ?ps = "to_Protected o' @ [prefix_Masked (to_Gateway o')]"
  have wf: "list_all netip_prefix ?ps" using assms(1) g(1) by (simp add: prot)
  show ?thesis
  proof (cases "list_all prefix_IsValid (to_Protected opts)")
    case True
    then obtain rs where rs: "IPv4RoutesExcluding ?ps = Ok rs" "covers rs (unprotected ?ps)"
      using IPv4RoutesExcluding_covers [OF wf] g(2) by (auto simp: prot)
    have "w \<in> unprotected ?ps \<longleftrightarrow>
        (\<forall>p\<in>set (to_Protected opts). \<not> prefix_Contains p (Addr4 w)) \<and> \<not> prefix_Contains (to_Gateway o') (Addr4 w)" for w
      using g(3) by (auto simp: unprotected_def prot prefix_set_def set_eq_iff)
    then show ?thesis using True rs text_covers_routes by simp
  next
    case False
    have all: "covers [Prefix (Addr4 0) 0] (prefix_set (Prefix (Addr4 0) 0))"
      by (rule covers_one) (auto simp: masked4_iff intro!: exI [of _ "0 :: nat"])
    then show ?thesis using False exclude_loop_refuses [OF all wf] by (auto simp: IPv4RoutesExcluding_def prot)
  qed
qed

lemma BuildFullTunnelConfig_Ok:
  assumes "list_all netip_prefix (to_Protected opts)" "netip_prefix (to_Gateway opts)"
    and "BuildFullTunnelConfig quote source opts = Ok config"
  obtains kvs inbounds texts where "source = Some (JObj kvs)" "root_inbounds (map_of (rev kvs)) = Ok inbounds"
    "\<forall>raw\<in>set inbounds. tun_free raw" "\<forall>k. k \<noteq> ''inbounds'' \<longrightarrow> config k = map_of (rev kvs) k"
    "config ''inbounds'' = Some (JArr (inbounds @ [tun_inbound (normalizeTunnelOptions opts) texts]))"
    "\<forall>w. text_covers texts w \<longleftrightarrow> (\<forall>p\<in>set (to_Protected opts). \<not> prefix_Contains p (Addr4 w)) \<and>
        \<not> prefix_Contains (to_Gateway (normalizeTunnelOptions opts)) (Addr4 w)"
proof -
  let ?o = "normalizeTunnelOptions opts"
  obtain kvs inbounds rs where b: "source = Some (JObj kvs)" "root_inbounds (map_of (rev kvs)) = Ok inbounds"
    "check_inbounds quote inbounds = Ok ()"
    "IPv4RoutesExcluding (to_Protected ?o @ [prefix_Masked (to_Gateway ?o)]) = Ok rs"
    "config = (map_of (rev kvs))(''inbounds'' \<mapsto> JArr (inbounds @ [tun_inbound ?o (List.map prefix_String rs)]))"
    using assms(3)
    by (auto simp: BuildFullTunnelConfig_def source_root_def rbind_Ok_iff Let_def split: option.splits json.splits)
  show thesis
    by (rule that [OF b(1,2)])
       (use b(3-5) profile_routes [OF assms(1,2)] in \<open>auto simp: check_inbounds_Ok split: if_splits\<close>)
qed

text \<open>C38: The full-tunnel profile keeps the configuration it is built from: every other member and every
  inbound stays, exactly one inbound is added, at the end, and it is the only \<open>tun\<close> one; its routes,
  read back from their text, hold exactly the IPv4 addresses outside the protected prefixes and the
  tunnel's own network. Building it fails only for a source that is not an object with decodable
  inbounds, for one that already has a \<open>tun\<close> inbound or for an invalid protected prefix; it panics
  only for the source \<open>null\<close>.\<close>

theorem full_tunnel_profile:
  assumes "list_all netip_prefix (to_Protected opts)" "netip_prefix (to_Gateway opts)"
  shows "case BuildFullTunnelConfig quote source opts of
     Ok config \<Rightarrow> \<exists>kvs inbounds texts. source = Some (JObj kvs) \<and> root_inbounds (map_of (rev kvs)) = Ok inbounds \<and>
       (\<forall>raw\<in>set inbounds. tun_free raw) \<and> (\<forall>k. k \<noteq> ''inbounds'' \<longrightarrow> config k = map_of (rev kvs) k) \<and>
       config ''inbounds'' = Some (JArr (inbounds @ [tun_inbound (normalizeTunnelOptions opts) texts])) \<and>
       (\<forall>w. text_covers texts w \<longleftrightarrow> (\<forall>p\<in>set (to_Protected opts). \<not> prefix_Contains p (Addr4 w)) \<and>
          \<not> prefix_Contains (to_Gateway (normalizeTunnelOptions opts)) (Addr4 w))
   | Panic \<Rightarrow> source = Some JNull
   | Fail e \<Rightarrow> (\<forall>kvs inbounds. source = Some (JObj kvs) \<longrightarrow> root_inbounds (map_of (rev kvs)) = Ok inbounds \<longrightarrow>
       (\<forall>raw\<in>set inbounds. tun_free raw) \<longrightarrow> \<not> list_all prefix_IsValid (to_Protected opts))"
proof -
  note routes = profile_routes [OF assms(1,2)]
  let ?o = "normalizeTunnelOptions opts"
  let ?routes = "IPv4RoutesExcluding (to_Protected ?o @ [prefix_Masked (to_Gateway ?o)])"
  have no_panic: "?routes \<noteq> Panic" using routes by (auto split: if_splits)
  show ?thesis
  proof (cases "BuildFullTunnelConfig quote source opts")
    case (Ok config)
    show ?thesis
      by (rule BuildFullTunnelConfig_Ok [OF assms(1,2) Ok]) (use Ok in auto)
  next
    case (Fail e)
    have "\<not> list_all prefix_IsValid (to_Protected opts)"
      if h: "source = Some (JObj kvs)" "root_inbounds (map_of (rev kvs)) = Ok inbounds" "\<forall>raw\<in>set inbounds. tun_free raw"
      for kvs inbounds
    proof
      assume "list_all prefix_IsValid (to_Protected opts)"
      then obtain rs where "?routes = Ok rs" using routes by auto
      moreover have "check_inbounds quote inbounds = Ok ()" using h(3) by (simp add: check_inbounds_Ok)
      ultimately show False using Fail h(1,2) by (simp add: BuildFullTunnelConfig_def source_root_def Let_def)
    qed
    then show ?thesis by (simp add: Fail)
  next
    case Panic
    have "root_inbounds m \<noteq> Panic" for m by (simp add: root_inbounds_def split: option.split json.split)
    then have "source = Some JNull" using Panic no_panic check_inbounds_not_Panic
      by (cases source) (auto simp: BuildFullTunnelConfig_def source_root_def Let_def rbind_Panic_iff split: json.splits option.splits)
    then show ?thesis unfolding Panic by simp
  qed
qed

theorem full_tunnel_profile_witness:
  "case BuildFullTunnelConfig id (Some (JObj [(''log'', JNull), (''inbounds'', JArr [JNull])]))
      \<lparr>to_Tag = '''', to_Name = '''', to_MTU = 0, to_Gateway = Prefix NoAddr (-1), to_Protected = [Prefix (Addr4 0x0A420000) 24]\<rparr> of
     Ok config \<Rightarrow> config ''log'' = Some JNull \<and> (\<exists>t. config ''inbounds'' = Some (JArr [JNull, t]))
   | _ \<Rightarrow> False"
proof -
  let ?kvs = "[(''log'', JNull), (''inbounds'', JArr [JNull])]"
  let ?o = "\<lparr>to_Tag = '''', to_Name = '''', to_MTU = 0, to_Gateway = Prefix NoAddr (-1),
    to_Protected = [Prefix (Addr4 0x0A420000) 24]\<rparr>"
  have wf: "list_all netip_prefix (to_Protected ?o)" "netip_prefix (to_Gateway ?o)" "list_all prefix_IsValid (to_Protected ?o)"
    by (simp_all add: netip_prefix_def prefix_IsValid_def)
  have f: "root_inbounds (map_of (rev ?kvs)) = Ok [JNull]" "tun_free JNull"
    by (simp_all add: root_inbounds_def tun_free_def inbound_meta_def EqualFold_ascii_def)
  show ?thesis
    using full_tunnel_profile [OF wf(1,2), where quote = id and source = "Some (JObj ?kvs)"] f wf(3)
    by (cases "BuildFullTunnelConfig id (Some (JObj ?kvs)) ?o") auto
qed

end
