(* ===== verification/HealthStatus.thy ===== *)
theory HealthStatus
  imports P2PSelector
begin

text \<open>
  The runtime status, \<open>internal/health/status.go\<close>: the states of the two services of a client and
  whether it is healthy. The tracker's mutex makes each operation atomic; the status pages are the
  code they answer with and the snapshot they show.
\<close>

datatype service_state = StateDisabled | StateStarting | StateRunning | StateStopped | StateFailed

record service_status =
  ss_Enabled :: bool
  ss_State :: service_state
  ss_Error :: string

record health_snapshot =
  hs_NodeID :: string
  hs_VirtualIP :: string
  hs_NetworkPrefix :: string
  hs_StartedAt :: time
  hs_Mesh :: service_status
  hs_Xray :: service_status
  hs_P2P :: p2p_snapshot

text \<open>The tracker keeps a snapshot whose last field is filled in when it is read.\<close>

record health_tracker =
  ht_NodeID :: string
  ht_VirtualIP :: string
  ht_NetworkPrefix :: string
  ht_StartedAt :: time
  ht_Mesh :: service_status
  ht_Xray :: service_status

definition initialService :: "bool \<Rightarrow> service_status" where
  "initialService enabled =
     \<lparr>ss_Enabled = enabled, ss_State = (if enabled then StateStarting else StateDisabled), ss_Error = ''''\<rparr>"

definition NewTracker :: "string \<Rightarrow> string \<Rightarrow> string \<Rightarrow> bool \<Rightarrow> bool \<Rightarrow> time \<Rightarrow> health_tracker" where
  "NewTracker nodeID virtualIP networkPrefix meshEnabled xrayEnabled now =
     \<lparr>ht_NodeID = nodeID, ht_VirtualIP = virtualIP, ht_NetworkPrefix = networkPrefix, ht_StartedAt = now,
      ht_Mesh = initialService meshEnabled, ht_Xray = initialService xrayEnabled\<rparr>"

text \<open>\<open>None\<close> is the nil error; otherwise the text of the error.\<close>

definition setService :: "service_state \<Rightarrow> string option \<Rightarrow> service_status \<Rightarrow> service_status" where
  "setService state err service =
     service\<lparr>ss_State := state, ss_Error := (case err of None \<Rightarrow> '''' | Some e \<Rightarrow> e)\<rparr>"

definition SetMesh :: "service_state \<Rightarrow> string option \<Rightarrow> health_tracker \<Rightarrow> health_tracker" where
  "SetMesh state err t = t\<lparr>ht_Mesh := setService state err (ht_Mesh t)\<rparr>"

definition SetXray :: "service_state \<Rightarrow> string option \<Rightarrow> health_tracker \<Rightarrow> health_tracker" where
  "SetXray state err t = t\<lparr>ht_Xray := setService state err (ht_Xray t)\<rparr>"

definition tracker_Snapshot :: "p2p_counters \<Rightarrow> health_tracker \<Rightarrow> health_snapshot" where
  "tracker_Snapshot counters t =
     \<lparr>hs_NodeID = ht_NodeID t, hs_VirtualIP = ht_VirtualIP t, hs_NetworkPrefix = ht_NetworkPrefix t,
      hs_StartedAt = ht_StartedAt t, hs_Mesh = ht_Mesh t, hs_Xray = ht_Xray t, hs_P2P = Snapshot counters\<rparr>"

definition serviceHealthy :: "service_status \<Rightarrow> bool" where
  "serviceHealthy service \<longleftrightarrow> (if \<not> ss_Enabled service then True else ss_State service = StateRunning)"

definition Healthy :: "p2p_counters \<Rightarrow> health_tracker \<Rightarrow> bool" where
  "Healthy counters t \<longleftrightarrow>
     (let snap = tracker_Snapshot counters t in serviceHealthy (hs_Mesh snap) \<and> serviceHealthy (hs_Xray snap))"

text \<open>The two pages: the code and the body.\<close>

definition status_page :: "p2p_counters \<Rightarrow> health_tracker \<Rightarrow> int \<times> health_snapshot" where
  "status_page counters t = (200, tracker_Snapshot counters t)"

definition healthz_page :: "p2p_counters \<Rightarrow> health_tracker \<Rightarrow> int \<times> health_snapshot" where
  "healthz_page counters t = ((if Healthy counters t then 200 else 503), tracker_Snapshot counters t)"

lemma Healthy_iff:
  "Healthy counters t \<longleftrightarrow> (ss_Enabled (ht_Mesh t) \<longrightarrow> ss_State (ht_Mesh t) = StateRunning) \<and>
     (ss_Enabled (ht_Xray t) \<longrightarrow> ss_State (ht_Xray t) = StateRunning)"
  by (auto simp: Healthy_def tracker_Snapshot_def serviceHealthy_def)

lemma tracker_enabled [simp]:
  "ss_Enabled (ht_Mesh (SetMesh s e t)) = ss_Enabled (ht_Mesh t)" "ss_Enabled (ht_Xray (SetMesh s e t)) = ss_Enabled (ht_Xray t)"
  "ss_Enabled (ht_Mesh (SetXray s e t)) = ss_Enabled (ht_Mesh t)" "ss_Enabled (ht_Xray (SetXray s e t)) = ss_Enabled (ht_Xray t)"
  by (simp_all add: SetMesh_def SetXray_def setService_def)

lemma tracker_state [simp]:
  "ss_State (ht_Mesh (SetMesh s e t)) = s" "ss_State (ht_Xray (SetXray s e t)) = s"
  "ht_Xray (SetMesh s e t) = ht_Xray t" "ht_Mesh (SetXray s e t) = ht_Mesh t"
  by (simp_all add: SetMesh_def SetXray_def setService_def)

end
