(* ===== verification/ClientMain.thy ===== *)
theory ClientMain
  imports ClientPaths RouterClass XrayTunnel HealthStatus
begin

text \<open>
  The client program, \<open>cmd/client/main.go\<close> and \<open>heartbeat.go\<close>: its flags, the profile of the full
  tunnel, the heartbeat, and the prefixes kept out of the full tunnel. What the
  operating system, the coordinator, the resolver and the child process answer are arguments.
\<close>

section \<open>Flags and start-up\<close>

datatype client_error =
    ErrNodeRequired
  | ErrFullTunnelConfig
  | ErrDiscoveryNeedsTUN
  | ErrProbeNeedsTUN
  | ErrMTU
  | ErrRegister
  | ErrStatusListen
  | ErrMeshPrefixText
  | ErrGatewayText
  | ErrGatewayIPv4
  | ErrMeshPrefix
  | ErrCoordinatorURL
  | ErrCoordinatorHost
  | ErrRelayAddress
  | ErrEmptyHost
  | ErrResolveHost string
  | ErrReadConfig
  | XrayProfile xray_error
  | ErrXray string \<comment> \<open>of \<open>Validate\<close>, \<open>Start\<close> or the child's exit\<close>
  | ErrVirtualIP
  | ErrVirtualIPOutside
  | ErrDevice
  | ErrSocket
  | ClientFrame frame_error
  | ErrHeartbeat string
  | ErrHeartbeatExited
  | ErrTUN string
  | ErrTUNExited
  | ErrXrayExited
  | ErrStatusServer
  | ErrStatusExited

record client_flags =
  cf_node :: string
  cf_tun :: bool
  cf_discoveryOverlay :: bool
  cf_p2pProbe :: bool
  cf_xrayConfig :: string
  cf_fullTunnel :: bool
  cf_xrayTUNName :: string
  cf_xrayTUNGateway :: string
  cf_xrayTUNMTU :: int
  cf_statusListen :: string

definition checkClientFlags :: "client_flags \<Rightarrow> (client_error, unit) result" where
  "checkClientFlags f =
     (if TrimSpace (cf_node f) = '''' then Fail ErrNodeRequired
      else if cf_fullTunnel f \<and> TrimSpace (cf_xrayConfig f) = '''' then Fail ErrFullTunnelConfig
      else if cf_discoveryOverlay f \<and> \<not> cf_tun f then Fail ErrDiscoveryNeedsTUN
      else if cf_p2pProbe f \<and> \<not> cf_tun f then Fail ErrProbeNeedsTUN
      else if cf_xrayTUNMTU f \<le> 0 then Fail ErrMTU
      else Ok ())"

text \<open>\<open>register\<close> checks its reply as \<open>getJSON\<close> does.\<close>

definition register :: "registration_view http_reply \<Rightarrow> (client_error, registration_view) result" where
  "register reply = of_option ErrRegister (getJSON reply)"

section \<open>Protected prefixes\<close>

definition resolveHostIPv4 :: "(string \<Rightarrow> addr list option) \<Rightarrow> string \<Rightarrow> (client_error, ip_prefix list) result" where
  "resolveHostIPv4 lookup host0 =
     (let host = TrimCut (TrimSpace host0) ''[]''
      in if host = '''' then Fail ErrEmptyHost
      else case ParseAddr host of
        Some a \<Rightarrow> Ok (if addr_Is4 a then [PrefixFrom a 32] else [])
      | None \<Rightarrow>
        (case lookup host of
           None \<Rightarrow> Fail (ErrResolveHost host)
         | Some addrs \<Rightarrow> Ok (map (\<lambda>a. PrefixFrom a 32) (filter addr_Is4 addrs))))"

fun resolve_hosts :: "(string \<Rightarrow> addr list option) \<Rightarrow> string list \<Rightarrow> (client_error, ip_prefix list) result" where
  "resolve_hosts lookup [] = Ok []"
| "resolve_hosts lookup (host # hosts) =
     rbind (resolveHostIPv4 lookup host) (\<lambda>prefixes. rbind (resolve_hosts lookup hosts) (\<lambda>rest. Ok (prefixes @ rest)))"

text \<open>The loop that drops prefixes already seen, by their text.\<close>

fun unique_prefixes :: "string set \<Rightarrow> ip_prefix list \<Rightarrow> ip_prefix list" where
  "unique_prefixes seen [] = []"
| "unique_prefixes seen (p # ps) =
     (let prefix = prefix_Masked p; key = prefix_String prefix
      in if key \<in> seen then unique_prefixes seen ps
         else prefix # unique_prefixes (insert key seen) ps)"

text \<open>
  \<open>urlHost\<close> is what \<open>url.Parse\<close> and \<open>Hostname\<close> give for the coordinator's URL and \<open>relayHost\<close> what
  \<open>net.SplitHostPort\<close> gives for the relay's address, \<open>None\<close> for an error.
\<close>

definition resolveProtectedPrefixes ::
    "(string \<Rightarrow> addr list option) \<Rightarrow> string option \<Rightarrow> string option \<Rightarrow> ip_prefix
     \<Rightarrow> (client_error, ip_prefix list) result" where
  "resolveProtectedPrefixes lookup urlHost relayHost meshPrefix =
     (if \<not> prefix_IsValid meshPrefix \<or> \<not> addr_Is4 (prefix_Addr meshPrefix) then Fail ErrMeshPrefix
      else rbind (of_option ErrCoordinatorURL urlHost) (\<lambda>coordinatorHost.
        if coordinatorHost = '''' then Fail ErrCoordinatorHost
        else rbind (of_option ErrRelayAddress relayHost) (\<lambda>relayHost.
          rbind (resolve_hosts lookup [coordinatorHost, relayHost]) (\<lambda>prefixes.
            Ok (unique_prefixes {} (prefix_Masked meshPrefix # prefixes))))))"

text \<open>The options of the full-tunnel profile as \<open>run\<close> puts them together.\<close>

definition fullTunnelOptions ::
    "client_flags \<Rightarrow> registration_view \<Rightarrow> (string \<Rightarrow> addr list option) \<Rightarrow> string option
     \<Rightarrow> string option \<Rightarrow> (client_error, tunnel_options) result" where
  "fullTunnelOptions f reg lookup urlHost relayHost =
     rbind (of_option ErrMeshPrefixText (ParsePrefix (rv_NetworkPrefix reg))) (\<lambda>meshPrefix.
     rbind (of_option ErrGatewayText (ParsePrefix (cf_xrayTUNGateway f))) (\<lambda>gateway.
     if \<not> addr_Is4 (prefix_Addr gateway) then Fail ErrGatewayIPv4
     else rbind (resolveProtectedPrefixes lookup urlHost relayHost meshPrefix) (\<lambda>protected.
       Ok \<lparr>to_Tag = '''', to_Name = cf_xrayTUNName f, to_MTU = cf_xrayTUNMTU f, to_Gateway = gateway,
         to_Protected = protected\<rparr>)))"

text \<open>The profile itself; \<open>source\<close> is the configuration file, \<open>None\<close> if it cannot be read.\<close>

definition fullTunnelConfig ::
    "(string \<Rightarrow> string) \<Rightarrow> client_flags \<Rightarrow> registration_view \<Rightarrow> (string \<Rightarrow> addr list option) \<Rightarrow> string option
     \<Rightarrow> string option \<Rightarrow> json option option \<Rightarrow> (client_error, string \<rightharpoonup> json) result" where
  "fullTunnelConfig quote f reg lookup urlHost relayHost source =
     rbind (fullTunnelOptions f reg lookup urlHost relayHost) (\<lambda>opts.
     rbind (of_option ErrReadConfig source) (\<lambda>source. map_err XrayProfile (BuildFullTunnelConfig quote source opts)))"

section \<open>The heartbeat\<close>

datatype heartbeat_error = HeartbeatUnauthorized | HeartbeatFailed

definition sendHeartbeat :: "unit http_reply \<Rightarrow> (heartbeat_error, unit) result" where
  "sendHeartbeat reply =
     (case reply of
        NoReply \<Rightarrow> Fail HeartbeatFailed
      | HttpReply code _ \<Rightarrow>
        if code \<ge> 200 \<and> code < 300 then Ok ()
        else if code = 401 \<or> code = 403 then Fail HeartbeatUnauthorized
        else Fail HeartbeatFailed)"

abbreviation maxHeartbeatFailures :: nat where "maxHeartbeatFailures \<equiv> 3"

text \<open>The loop over the replies to its ticks: \<open>None\<close> while it goes on, otherwise what it reports.\<close>

fun heartbeatLoop :: "nat \<Rightarrow> unit http_reply list \<Rightarrow> heartbeat_error option" where
  "heartbeatLoop failures [] = None"
| "heartbeatLoop failures (reply # replies) =
     (case sendHeartbeat reply of
        Fail HeartbeatUnauthorized \<Rightarrow> Some HeartbeatUnauthorized
      | Fail HeartbeatFailed \<Rightarrow>
        if Suc failures \<ge> maxHeartbeatFailures then Some HeartbeatFailed
        else heartbeatLoop (Suc failures) replies
      | _ \<Rightarrow> heartbeatLoop 0 replies)"

definition startHeartbeat :: "registration_view \<Rightarrow> unit http_reply list \<Rightarrow> heartbeat_error option" where
  "startHeartbeat reg replies =
     (if rv_HeartbeatIntervalSeconds reg \<le> 0 \<or> TrimSpace (rv_SessionToken reg) = '''' then None
      else heartbeatLoop 0 replies)"

section \<open>When the heartbeat gives up\<close>

text \<open>\<open>n\<close> failures to begin with, and three failures in a row somewhere.\<close>

fun leading_failures :: "nat \<Rightarrow> unit http_reply list \<Rightarrow> bool" where
  "leading_failures 0 rs = True"
| "leading_failures (Suc n) [] = False"
| "leading_failures (Suc n) (r # rs) = (sendHeartbeat r = Fail HeartbeatFailed \<and> leading_failures n rs)"

fun failure_burst :: "unit http_reply list \<Rightarrow> bool" where
  "failure_burst [] = False"
| "failure_burst (r # rs) = (leading_failures maxHeartbeatFailures (r # rs) \<or> failure_burst rs)"

lemma leading_failures_Suc: "leading_failures (Suc n) rs \<Longrightarrow> leading_failures n rs"
proof (induction n arbitrary: rs)
  case (Suc n)
  then show ?case by (cases rs) auto
qed simp

lemma leading_failures_burst: "leading_failures maxHeartbeatFailures rs \<Longrightarrow> failure_burst rs"
  by (cases rs) (simp_all add: numeral_3_eq_3)

lemma sendHeartbeat_cases:
  obtains "sendHeartbeat r = Ok ()" | "sendHeartbeat r = Fail HeartbeatUnauthorized" | "sendHeartbeat r = Fail HeartbeatFailed"
proof -
  have "sendHeartbeat r = Ok () \<or> sendHeartbeat r = Fail HeartbeatUnauthorized \<or> sendHeartbeat r = Fail HeartbeatFailed"
    by (simp add: sendHeartbeat_def split: http_reply.split)
  then show thesis using that by blast
qed

lemma leading_three:
  "leading_failures 3 (r # rs) \<longleftrightarrow> sendHeartbeat r = Fail HeartbeatFailed \<and> leading_failures 2 rs"
  by (simp add: numeral_3_eq_3 numeral_2_eq_2)

lemma heartbeatLoop_ends:
  "f < maxHeartbeatFailures \<Longrightarrow> heartbeatLoop f rs \<noteq> None \<longleftrightarrow>
     (\<exists>r\<in>set rs. sendHeartbeat r = Fail HeartbeatUnauthorized) \<or> failure_burst rs \<or>
     leading_failures (maxHeartbeatFailures - f) rs"
proof (induction rs arbitrary: f)
  case Nil
  then obtain n where "3 - f = Suc n" by (cases "3 - f") auto
  then show ?case by simp
next
  case (Cons r rs)
  then obtain n where n: "3 - f = Suc n" by (cases "3 - f") auto
  show ?case
  proof (cases r rule: sendHeartbeat_cases)
    case 1
    then show ?thesis using Cons.IH [of 0] leading_failures_burst [of rs] by (auto simp: n leading_three)
  next
    case 2
    then show ?thesis by simp
  next
    case 3
    show ?thesis
    proof (cases "f < 2")
      case True
      then have "n = 3 - Suc f" "Suc f < 3" using n by simp_all
      moreover have "leading_failures 2 rs \<Longrightarrow> leading_failures n rs"
        using True n leading_failures_Suc [of 1 rs] by (cases f) (auto simp: numeral_2_eq_2)
      ultimately show ?thesis using 3 Cons.IH [of "Suc f"] True by (auto simp: n leading_three)
    next
      case False
      then have "n = 0" using n Cons.prems by simp
      then show ?thesis using 3 False by (simp add: n)
    qed
  qed
qed


section \<open>Control traffic stays out of the full tunnel\<close>

lemma unique_prefixes_set:
  "\<forall>p\<in>set ps. prefix4 p \<Longrightarrow>
     set (unique_prefixes seen ps) \<union> {q. masked4 q \<and> prefix_String q \<in> seen} =
     prefix_Masked ` set ps \<union> {q. masked4 q \<and> prefix_String q \<in> seen}"
proof (induction ps arbitrary: seen)
  case (Cons p ps)
  have m: "masked4 (prefix_Masked p)" using Cons.prems by (simp add: masked4_Masked)
  have inj: "q = prefix_Masked p" if "masked4 q" "prefix_String q = prefix_String (prefix_Masked p)" for q
    by (rule option.inject [THEN iffD1], rule trans [OF ParsePrefix_String [symmetric]])
       (use that m in \<open>simp_all only: masked4_def ParsePrefix_String\<close>)
  let ?S = "\<lambda>seen. {q. masked4 q \<and> prefix_String q \<in> seen}"
  have IH: "set (unique_prefixes seen' ps) \<union> ?S seen' = prefix_Masked ` set ps \<union> ?S seen'" for seen'
    by (rule Cons.IH) (use Cons.prems in simp)
  show ?case
  proof (cases "prefix_String (prefix_Masked p) \<in> seen")
    case True
    then have "prefix_Masked p \<in> ?S seen" using m by simp
    moreover have "unique_prefixes seen (p # ps) = unique_prefixes seen ps" using True by (simp add: Let_def)
    ultimately show ?thesis using IH [of seen] by auto
  next
    case False
    let ?seen = "insert (prefix_String (prefix_Masked p)) seen"
    have "?S ?seen = insert (prefix_Masked p) (?S seen)" using m inj by auto
    moreover have "unique_prefixes seen (p # ps) = prefix_Masked p # unique_prefixes ?seen ps" using False by (simp add: Let_def)
    ultimately show ?thesis using IH [of ?seen] by simp
  qed
qed simp

lemma PrefixFrom_netip: "netip_prefix (PrefixFrom a b)"
  by (cases a) (auto simp: netip_prefix_def PrefixFrom_def)

lemma ParsePrefix_from:
  assumes "ParsePrefix s = Some p" obtains a n where "p = PrefixFrom a (int n)" "int n \<le> addr_BitLen a"
  using assms by (auto simp: ParsePrefix_def Let_def not_less split: option.splits prod.splits if_splits)

lemma ParsePrefix_netip: "ParsePrefix s = Some p \<Longrightarrow> netip_prefix p"
  by (erule ParsePrefix_from) (simp add: PrefixFrom_netip)

lemma resolveHostIPv4_hosts: "resolveHostIPv4 lookup h = Ok ps \<Longrightarrow> p \<in> set ps \<Longrightarrow> \<exists>v. p = Prefix (Addr4 v) 32"
  by (auto simp: resolveHostIPv4_def Let_def addr_Is4_iff PrefixFrom_def split: if_splits option.splits)

lemma resolve_hosts_hosts: "resolve_hosts lookup hs = Ok ps \<Longrightarrow> p \<in> set ps \<Longrightarrow> \<exists>v. p = Prefix (Addr4 v) 32"
  by (induction hs arbitrary: ps) (auto simp: rbind_Ok_iff dest: resolveHostIPv4_hosts)

lemma host_prefix_set: "prefix_Contains (Prefix (Addr4 v) 32) (Addr4 w) \<longleftrightarrow> w = v"
  using prefix_Contains4 [of 32 v w] by (simp add: word_unat_eq_iff)

lemma ParsePrefix_Is4:
  assumes "ParsePrefix s = Some p" "addr_Is4 (prefix_Addr p)" shows "prefix4 p"
proof -
  obtain a n where p: "p = PrefixFrom a (int n)" "int n \<le> addr_BitLen a" using assms(1) by (rule ParsePrefix_from)
  show ?thesis using assms(2) p(2) unfolding p(1) by (cases a) (simp_all add: PrefixFrom_def prefix4_def)
qed

lemma prefix4_netip: "prefix4 p \<Longrightarrow> netip_prefix p" "prefix4 p \<Longrightarrow> prefix_IsValid p"
  by (auto simp: prefix4_def netip_prefix_def prefix_IsValid_def addr_Is4_iff)

lemma prefix4_Contains_Masked: "prefix4 p \<Longrightarrow> prefix_Contains (prefix_Masked p) (Addr4 w) \<longleftrightarrow> prefix_Contains p (Addr4 w)"
  using masked_hole(2) [of p] by (auto simp: prefix_set_def prefix4_def netip_prefix_def prefix_IsValid_def addr_Is4_iff)

lemma resolveProtectedPrefixes_Ok:
  assumes "resolveProtectedPrefixes lookup urlHost relayHost mesh = Ok ps" "ParsePrefix text = Some mesh"
  obtains u r hosts where "urlHost = Some u" "relayHost = Some r" "resolve_hosts lookup [u, r] = Ok hosts"
    "list_all netip_prefix ps" "list_all prefix_IsValid ps"
    "\<forall>w. (\<exists>p\<in>set ps. prefix_Contains p (Addr4 w)) \<longleftrightarrow> prefix_Contains mesh (Addr4 w) \<or> Prefix (Addr4 w) 32 \<in> set hosts"
proof -
  obtain u r hosts where s: "urlHost = Some u" "relayHost = Some r" "resolve_hosts lookup [u, r] = Ok hosts"
    "addr_Is4 (prefix_Addr mesh)" "ps = unique_prefixes {} (prefix_Masked mesh # hosts)"
    using assms(1) by (auto simp: resolveProtectedPrefixes_def rbind_Ok_iff simp del: resolve_hosts.simps split: if_splits)
  have mesh: "prefix4 mesh" using ParsePrefix_Is4 [OF assms(2) s(4)] .
  have host: "\<exists>v. p = Prefix (Addr4 v) 32" if "p \<in> set hosts" for p using resolve_hosts_hosts [OF s(3) that] .
  have "prefix4 p" if "p \<in> set hosts" for p using host [OF that] by (auto simp: prefix4_def)
  then have all: "\<forall>p\<in>set (prefix_Masked mesh # hosts). prefix4 p" using mesh by simp
  have ps: "set ps = prefix_Masked ` set (prefix_Masked mesh # hosts)"
    using unique_prefixes_set [OF all, of "{}"] by (simp add: s(5))
  have "(\<exists>p\<in>set ps. prefix_Contains p (Addr4 w)) \<longleftrightarrow> (\<exists>p\<in>set (prefix_Masked mesh # hosts). prefix_Contains p (Addr4 w))" for w
    using all unfolding ps by (force simp: prefix4_Contains_Masked)
  moreover have "(\<exists>p\<in>set hosts. prefix_Contains p (Addr4 w)) \<longleftrightarrow> Prefix (Addr4 w) 32 \<in> set hosts" for w
    using host host_prefix_set by (metis (no_types, lifting))
  moreover have "list_all netip_prefix ps" "list_all prefix_IsValid ps"
    using all unfolding list_all_iff ps by (blast intro: prefix4_netip prefix4_Masked)+
  ultimately show thesis using that [OF s(1-3)] mesh by (simp add: prefix4_Contains_Masked)
qed


definition sample_tunnel_flags :: client_flags where
  "sample_tunnel_flags = \<lparr>cf_node = ''n1'', cf_tun = True, cf_discoveryOverlay = False, cf_p2pProbe = False,
     cf_xrayConfig = ''c'', cf_fullTunnel = True, cf_xrayTUNName = ''x'',
     cf_xrayTUNGateway = prefix_String (Prefix (Addr4 0xAC1EFF01) 30), cf_xrayTUNMTU = 1500, cf_statusListen = ''''\<rparr>"

definition sample_registration :: registration_view where
  "sample_registration = \<lparr>rv_NodeID = ''n1'', rv_VirtualIP = string4 0x0A420002,
     rv_NetworkPrefix = prefix_String (Prefix (Addr4 0x0A420000) 24), rv_SessionToken = ''t'',
     rv_HeartbeatIntervalSeconds = 10, rv_LeaseTTLSeconds = 30\<rparr>"

lemma sample_host: "resolveHostIPv4 (\<lambda>_. None) ''1.2.3.4'' = Ok [Prefix (Addr4 0x01020304) 32]"
proof -
  have "string4 0x01020304 = ''1.2.3.4''"
    by (simp add: string4_def dec_string.simps dec_digit_def) (simp add: char_of_def bit_Suc_0_iff)
  then have "ParseAddr ''1.2.3.4'' = Some (Addr4 0x01020304)" using ParseAddr_string4 [of "0x01020304"] by simp
  moreover have "TrimCut (TrimSpace ''1.2.3.4'') ''[]'' = ''1.2.3.4''" by code_simp
  ultimately show ?thesis by (simp add: resolveHostIPv4_def PrefixFrom_def)
qed


end
