(* ===== verification/ClientPump.thy ===== *)
theory ClientPump
  imports ClientMain
begin

text \<open>
  The data plane of the client, \<open>runTUN\<close> and \<open>pump\<close> of \<open>cmd/client/main.go\<close> and
  \<open>cmd/client/udp_socket.go\<close>: one step per packet read from the interface and per datagram read from
  the socket. A step returns an error when its loop ends with one, the datagrams it sent and the
  packets it wrote to the interface.
\<close>

section \<open>Bringing the interface up\<close>

text \<open>The network and the local address the socket is opened with: those of the relay's address family.\<close>

definition openRelayUDPSocket :: "udp_addr \<Rightarrow> string \<times> udp_addr" where
  "openRelayUDPSocket remote =
     (let (network, local) = (''udp4'', \<lparr>ua_IP = Addr4 0, ua_Port = 0, ua_Zone = ''''\<rparr>)
      in case ua_IP remote of
           Addr4 _ \<Rightarrow> (network, local)
         | _ \<Rightarrow> (''udp6'', \<lparr>ua_IP = Addr6 0 '''', ua_Port = 0, ua_Zone = ''''\<rparr>))"

text \<open>What the operating system answers while the interface is brought up.\<close>

record tun_env =
  te_open :: bool
  te_configure :: bool
  te_discovery :: bool
  te_remote :: "udp_addr option"
  te_socket :: "string \<times> udp_addr \<Rightarrow> bool" \<comment> \<open>by network and local address\<close>
  te_hello :: bool

record tun_setup =
  ts_virtualIP :: addr
  ts_prefix :: ip_prefix
  ts_relay :: udp_addr
  ts_token :: string
  ts_runtime :: "p2p_runtime option"

definition ensure :: "bool \<Rightarrow> 'e \<Rightarrow> ('e, unit) result" where
  "ensure b e = (if b then Ok () else Fail e)"

definition runTUN ::
    "tun_env \<Rightarrow> string \<Rightarrow> registration_view \<Rightarrow> bool \<Rightarrow> bool \<Rightarrow> p2p_counters
     \<Rightarrow> (client_error, tun_setup \<times> sent) result" where
  "runTUN env serverURL reg discoveryOverlay enableP2PProbe counters =
     rbind (of_option ErrVirtualIP (ParseAddr (rv_VirtualIP reg))) (\<lambda>virtualIP.
     rbind (of_option ErrMeshPrefixText (ParsePrefix (rv_NetworkPrefix reg))) (\<lambda>networkPrefix.
     rbind (ensure (prefix_Contains networkPrefix virtualIP) ErrVirtualIPOutside) (\<lambda>_.
     rbind (ensure (te_open env) ErrDevice) (\<lambda>_.
     rbind (ensure (te_configure env) ErrDevice) (\<lambda>_.
     rbind (ensure (\<not> discoveryOverlay \<or> te_discovery env) ErrDevice) (\<lambda>_.
     rbind (of_option ErrRelayAddress (te_remote env)) (\<lambda>remote.
     rbind (ensure (te_socket env (openRelayUDPSocket remote)) ErrSocket) (\<lambda>_.
     rbind (map_err ClientFrame (MarshalHello (rv_SessionToken reg))) (\<lambda>hello.
     rbind (ensure (te_hello env) ErrSocket) (\<lambda>_.
       Ok (\<lparr>ts_virtualIP = virtualIP, ts_prefix = networkPrefix, ts_relay = remote, ts_token = rv_SessionToken reg,
            ts_runtime = (if enableP2PProbe then Some (newP2PRuntime serverURL reg remote counters) else None)\<rparr>,
           [(hello, remote)])))))))))))"

section \<open>The pump\<close>

text \<open>What one call of \<open>SendDirectPayload\<close> meets.\<close>

record send_env =
  sv_ordC :: "string list"
  sv_ordT :: "string list"
  sv_resolve :: "string \<Rightarrow> udp_addr option"
  sv_rnd :: "bytes option"
  sv_wr :: bool
  sv_now :: time
  sv_clock :: time

definition try_direct ::
    "send_env \<Rightarrow> tun_setup \<Rightarrow> addr \<Rightarrow> bytes \<Rightarrow> (runtime_error, bool) result \<times> tun_setup \<times> sent" where
  "try_direct e s dst buf =
     (case ts_runtime s of
        None \<Rightarrow> (Ok False, s, [])
      | Some r \<Rightarrow>
        (let (res, r, out) = SendDirectPayload r (sv_ordC e) (sv_ordT e) (sv_resolve e) (sv_rnd e) (sv_wr e)
               (sv_now e) (sv_clock e) dst buf
         in (res, s\<lparr>ts_runtime := Some r\<rparr>, out)))"

text \<open>One packet from the interface; \<open>wr\<close> is whether the write to the relay succeeds.\<close>

definition pump_out ::
    "send_env \<Rightarrow> bool \<Rightarrow> tun_setup \<Rightarrow> bytes \<Rightarrow> (client_error, unit) result \<times> tun_setup \<times> sent" where
  "pump_out e wr s buf =
     (case (IPv4Endpoints buf :: (packet_error, _) result) of
        Panic \<Rightarrow> (Panic, s, [])
      | Fail _ \<Rightarrow> (Ok (), s, [])
      | Ok (src, dst) \<Rightarrow>
        let class = Classify (ts_prefix s) \<lparr>pk_Source = src, pk_Destination = dst, pk_Payload = buf\<rparr>
        in if class \<noteq> ClassPeer \<and> class \<noteq> ClassDiscovery then (Ok (), s, [])
        else let (res, s, out) = (if class = ClassPeer then try_direct e s dst buf else (Ok False, s, []))
        in if res = Panic then (Panic, s, out)
        else if res = Ok True then (Ok (), s, out)
        else case MarshalPacket (ts_token s) buf of
            Ok frame \<Rightarrow> if wr then (Ok (), s, out @ [(frame, ts_relay s)]) else (Fail ErrSocket, s, out)
          | Fail x \<Rightarrow> (Fail (ClientFrame x), s, out)
          | Panic \<Rightarrow> (Panic, s, out))"

text \<open>
  One datagram from the socket, after the packets for the interface the datagrams sent; \<open>dev\<close> is
  whether the write to the interface succeeds, \<open>wr\<close> whether a probe can be answered.
\<close>

definition pump_in ::
    "time \<Rightarrow> time \<Rightarrow> bool \<Rightarrow> bool \<Rightarrow> tun_setup \<Rightarrow> bytes \<Rightarrow> udp_addr
     \<Rightarrow> (client_error, unit) result \<times> tun_setup \<times> bytes list \<times> sent" where
  "pump_in clock now dev wr s buf source =
     (if \<not> sameUDPAddr (Some source) (Some (ts_relay s))
      then case ts_runtime s of
          None \<Rightarrow> (Ok (), s, [], [])
        | Some r \<Rightarrow>
          (case HandleDirectPayload clock r buf source (ts_virtualIP s) now of
             (Panic, r) \<Rightarrow> (Panic, s\<lparr>ts_runtime := Some r\<rparr>, [], [])
           | (Fail _, r) \<Rightarrow> (Ok (), s\<lparr>ts_runtime := Some r\<rparr>, [], [])
           | (Ok (Some payload), r) \<Rightarrow>
               ((if dev then Ok () else Fail ErrDevice), s\<lparr>ts_runtime := Some r\<rparr>, (if dev then [payload] else []), [])
           | (Ok None, r) \<Rightarrow>
               (let (res, r, out) = HandleDatagram clock r buf source now wr
                in ((if res = Panic then Panic else Ok ()), s\<lparr>ts_runtime := Some r\<rparr>, [], out)))
      else case ParseFrame buf of
          Panic \<Rightarrow> (Panic, s, [], [])
        | Fail _ \<Rightarrow> (Ok (), s, [], [])
        | Ok frame \<Rightarrow>
          if fr_Type frame \<noteq> FrameDeliver then (Ok (), s, [], [])
          else ((if dev then Ok () else Fail ErrDevice), s, (if dev then [fr_Payload frame] else []), []))"

section \<open>Nothing that arrives makes the client panic\<close>

text \<open>
  The end of the pump: the context is cancelled, or the first error of the two loops. Of the error only
  whether it is that of a closed socket counts; after the shutdown it counts for nothing.
\<close>

definition pump_end :: "bool \<Rightarrow> (bool \<times> client_error) option \<Rightarrow> (client_error, unit) result" where
  "pump_end stopped err =
     (case err of
        None \<Rightarrow> Ok ()
      | Some (socketClosed, x) \<Rightarrow> if stopped \<or> socketClosed then Ok () else Fail x)"

named_theorems no_panic \<open>operations that never give \<open>Panic\<close>\<close>

lemma probe_no_panic [no_panic]:
  "probeTicketSecret t \<noteq> Panic" "TicketIdentifier t \<noteq> Panic" "signProbeFrame f t \<noteq> Panic"
  "validateProbeShape f \<noteq> Panic" "validateSignedProbeShape f \<noteq> Panic"
proof -
  show a: "probeTicketSecret t \<noteq> Panic" for t by (simp add: probeTicketSecret_def split: option.split)
  show "TicketIdentifier t \<noteq> Panic" "signProbeFrame f t \<noteq> Panic"
    by (simp_all add: TicketIdentifier_def signProbeFrame_def rbind_Panic_iff a)
  show "validateProbeShape f \<noteq> Panic" for f by (simp add: validateProbeShape_def)
  then show "validateSignedProbeShape f \<noteq> Panic" by (simp add: validateSignedProbeShape_def rbind_Panic_iff)
qed

lemma verify_no_panic [no_panic]:
  "verifyProbeAuth f t now \<noteq> Panic" "VerifyProbe f t now \<noteq> Panic" "VerifyProbeAck g f t now \<noteq> Panic"
  "NewProbeAck f t now \<noteq> Panic" "MarshalProbeFrame f \<noteq> Panic" "ParseProbeFrame data \<noteq> Panic"
proof -
  show a: "verifyProbeAuth f t now \<noteq> Panic" for f
    by (simp add: verifyProbeAuth_def rbind_Panic_iff no_panic Let_def split: option.split)
  show b: "VerifyProbe f t now \<noteq> Panic" by (simp add: VerifyProbe_def rbind_Panic_iff no_panic a)
  show "VerifyProbeAck g f t now \<noteq> Panic" "NewProbeAck f t now \<noteq> Panic" "MarshalProbeFrame f \<noteq> Panic"
    by (simp_all add: VerifyProbeAck_def NewProbeAck_def MarshalProbeFrame_def rbind_Panic_iff no_panic Let_def a b)
  show "ParseProbeFrame data \<noteq> Panic"
    by (simp add: ParseProbeFrame_def rbind_Panic_iff no_panic split: option.split)
qed

lemma seal_no_panic [no_panic]: "SealDirectPayload t s u p now rnd \<noteq> Panic"
  by (simp add: SealDirectPayload_def rbind_Panic_iff no_panic Let_def split: option.split)

lemma subslice_Panic_iff: "subslice b i j = Panic \<longleftrightarrow> \<not> (i \<le> j \<and> j \<le> length b)"
  by (simp add: subslice_def)

lemma header_reads_no_panic:
  "directPayloadHeaderLen \<le> length b \<Longrightarrow> uint16_at b 52 \<noteq> Panic"
  "directPayloadHeaderLen \<le> length b \<Longrightarrow> uint16_at b 54 \<noteq> Panic"
  "directPayloadHeaderLen \<le> length b \<Longrightarrow> uint32_at b 56 \<noteq> Panic"
  by (simp_all add: uint16_at_def uint32_at_def idx_def)

lemma open_no_panic [no_panic]: "OpenDirectPayload data t me now \<noteq> Panic"
  unfolding OpenDirectPayload_def
  by (auto simp: rbind_Panic_iff subslice_Panic_iff header_reads_no_panic no_panic Let_def not_less split: option.splits)

lemma direct_ids_no_panic [no_panic]: "DirectPayloadTicketID data \<noteq> Panic" "DirectPayloadReplayKey data \<noteq> Panic"
  by (simp_all add: DirectPayloadTicketID_def DirectPayloadReplayKey_def rbind_Panic_iff subslice_Panic_iff not_less)

lemma checkDirectPayload_no_panic [no_panic]: "checkDirectPayload r data local now \<noteq> Panic"
  by (auto simp: checkDirectPayload_def of_option_def rbind_Panic_iff no_panic IPv4Endpoints_total split: option.splits)

lemma HandleDirectPayload_no_panic [no_panic]: "fst (HandleDirectPayload clock r data src local now) \<noteq> Panic"
  using mark_healthy_not_Panic
  by (auto simp: HandleDirectPayload_def no_panic split: result.splits option.splits prod.splits bool.splits)
     (metis fst_conv)

lemma HandleDatagram_no_panic [no_panic]: "fst (HandleDatagram clock r data src now wr) \<noteq> Panic"
proof -
  have "fst (HandleAck clock r f now src) \<noteq> Panic" for f
    using mark_healthy_not_Panic by (auto simp: HandleAck_def no_panic split: option.splits result.splits)
  moreover have "fst (HandleProbe r f t now wr src) \<noteq> Panic" for f t
    by (auto simp: HandleProbe_def rbind_Panic_iff no_panic split: result.splits)
  ultimately show ?thesis
    by (auto simp: HandleDatagram_def no_panic split: option.splits result.splits prod.splits) (metis fst_conv)+
qed

lemma SendDirectPayload_no_panic [no_panic]:
  "fst (SendDirectPayload r ordC ordT resolve rnd wr now clock dst payload) \<noteq> Panic"
  by (auto simp: SendDirectPayload_def Let_def no_panic split: option.split selection.split result.split prod.split)

text \<open>Nothing goes out when the direct path was not taken.\<close>

lemma SendDirectPayload_unsent:
  "SendDirectPayload r ordC ordT resolve rnd wr now clock dst payload = (res, r', out) \<Longrightarrow> res \<noteq> Ok True \<Longrightarrow> out = []"
  by (auto simp: SendDirectPayload_def Let_def split: option.splits selection.splits result.splits prod.splits if_splits)


text \<open>What leaves with a packet: nothing, one relay frame, or one direct datagram.\<close>

lemma pump_out_peer:
  assumes packet: "IPv4Endpoints buf = Ok (src, dst)" and token: "length (ts_token s) \<le> 512"
    and peer: "Classify (ts_prefix s) \<lparr>pk_Source = src, pk_Destination = dst, pk_Payload = buf\<rparr> = ClassPeer"
    and direct: "try_direct e s dst buf = (res, s', out)" "res \<noteq> Ok True"
  shows "\<exists>frame. MarshalPacket (ts_token s) buf = Ok frame \<and> pump_out e True s buf = (Ok (), s', [(frame, ts_relay s)])"
proof -
  obtain frame where f: "MarshalPacket (ts_token s) buf = Ok frame"
    using token by (simp add: MarshalPacket_def marshal_def)
  have same: "ts_token s' = ts_token s" "ts_relay s' = ts_relay s" "out = []"
    using direct SendDirectPayload_unsent by (auto simp: try_direct_def split: option.splits prod.splits)
  have "res \<noteq> Panic" using direct(1) SendDirectPayload_no_panic
    by (auto simp: try_direct_def split: option.splits prod.splits) (metis fst_conv)
  then show ?thesis using f direct same by (simp add: pump_out_def packet peer)
qed

definition traffic_kind :: "tun_setup \<Rightarrow> bytes \<Rightarrow> addr \<Rightarrow> addr \<Rightarrow> traffic_class" where
  "traffic_kind s buf src dst = Classify (ts_prefix s) \<lparr>pk_Source = src, pk_Destination = dst, pk_Payload = buf\<rparr>"

text \<open>C28: Every packet for a peer leaves the client in exactly one datagram: directly, as the runtime
  sealed and addressed it, or in a packet frame with the session token to the relay, also when the
  direct attempt fails; a discovery packet always goes to the relay, and nothing else leaves.\<close>

theorem pump_sends_once:
  assumes token: "length (ts_token s) \<le> 512"
  shows "case pump_out e True s buf of (res, s', out) \<Rightarrow> res = Ok () \<and>
    (case IPv4Endpoints buf of
       Ok (src, dst) \<Rightarrow>
         if traffic_kind s buf src dst = ClassPeer then
           (\<exists>frame. MarshalPacket (ts_token s) buf = Ok frame \<and> out = [(frame, ts_relay s)]) \<or>
           (\<exists>r r' d. ts_runtime s = Some r \<and> out = [d] \<and>
              SendDirectPayload r (sv_ordC e) (sv_ordT e) (sv_resolve e) (sv_rnd e) (sv_wr e) (sv_now e) (sv_clock e) dst buf =
                (Ok True, r', [d]))
         else if traffic_kind s buf src dst = ClassDiscovery then
           s' = s \<and> (\<exists>frame. MarshalPacket (ts_token s) buf = Ok frame \<and> out = [(frame, ts_relay s)])
         else s' = s \<and> out = []
     | _ \<Rightarrow> s' = s \<and> out = [])"
proof (cases "IPv4Endpoints buf")
  case (Ok p)
  obtain src dst where p: "p = (src, dst)" by fastforce
  have frame: "\<exists>frame. MarshalPacket (ts_token s) buf = Ok frame" using token by (simp add: MarshalPacket_def marshal_def)
  show ?thesis
  proof (cases "traffic_kind s buf src dst = ClassPeer")
    case True
    obtain res s' out where d: "try_direct e s dst buf = (res, s', out)" by (cases "try_direct e s dst buf")
    show ?thesis
    proof (cases "res = Ok True")
      case direct: True
      then obtain r r' where "ts_runtime s = Some r" and sd: "SendDirectPayload r (sv_ordC e) (sv_ordT e) (sv_resolve e) (sv_rnd e)
          (sv_wr e) (sv_now e) (sv_clock e) dst buf = (Ok True, r', out)"
        using d by (auto simp: try_direct_def split: option.splits prod.splits)
      moreover from sd obtain d where "out = [d]" by (rule SendDirectPayload_sent)
      ultimately show ?thesis using True Ok p d direct by (auto simp: pump_out_def traffic_kind_def)
    next
      case False
      have "\<exists>frame. MarshalPacket (ts_token s) buf = Ok frame \<and> pump_out e True s buf = (Ok (), s', [(frame, ts_relay s)])"
        by (rule pump_out_peer [OF _ token _ d False]) (use True Ok p traffic_kind_def in auto)
      then show ?thesis using True Ok p by auto
    qed
  next
    case False
    then show ?thesis using Ok p frame by (auto simp: pump_out_def traffic_kind_def Let_def)
  qed
qed (simp_all add: pump_out_def IPv4Endpoints_total)

definition sample_setup :: tun_setup where
  "sample_setup = \<lparr>ts_virtualIP = Addr4 0x0A420002, ts_prefix = Prefix (Addr4 0x0A420000) 16, ts_relay = sample_udp,
     ts_token = ''tok'', ts_runtime = None\<rparr>"

theorem pump_sends_once_witness:
  "\<exists>frame. MarshalPacket ''tok'' sample_packet = Ok frame \<and>
    (\<forall>e. case pump_out e True sample_setup sample_packet of (res, s', out) \<Rightarrow> res = Ok () \<and> out = [(frame, sample_udp)])"
proof -
  have "prefix_Contains (Prefix (Addr4 0x0A420000) 16) (Addr4 0x0A420003)"
    using prefix_Contains4 [of 16 "0x0A420000" "0x0A420003"] by simp
  then have "traffic_kind sample_setup sample_packet (Addr4 0x0A420002) (Addr4 0x0A420003) = ClassPeer"
    unfolding traffic_kind_def Classify_cases by (simp add: sample_setup_def mdnsIPv4_def ssdpIPv4_def AddrFrom4_def be32_def)
  moreover obtain frame where "MarshalPacket ''tok'' sample_packet = Ok frame" by (simp add: MarshalPacket_def marshal_def)
  moreover have "\<And>e. case pump_out e True sample_setup sample_packet of (res, s', out) \<Rightarrow> res = Ok () \<and> out = [(frame, sample_udp)]"
    using pump_sends_once [where s = sample_setup and buf = sample_packet] calculation
    by (auto simp: sample_facts(8) sample_setup_def split: prod.splits)
  ultimately show ?thesis by (intro exI [of _ frame] conjI allI) assumption+
qed

end
