(* ===== verification/MeshDelivery.thy ===== *)
theory MeshDelivery
  imports RelayServer ClientPump
begin

text \<open>
  A packet from one interface to another: the client's start-up and pump (\<open>cmd/client\<close>), the relay
  (\<open>internal/transport\<close>) and the registry (\<open>internal/mesh\<close>) together.
\<close>

text \<open>A registration as the coordinator answers it, whatever the lease times.\<close>

definition registered_as :: "registration_view \<Rightarrow> peer \<Rightarrow> ip_prefix \<Rightarrow> bool" where
  "registered_as reg q prefix \<longleftrightarrow>
     reg\<lparr>rv_HeartbeatIntervalSeconds := 0, rv_LeaseTTLSeconds := 0\<rparr> = Registration q prefix"

lemma registered_asD:
  assumes "registered_as reg q prefix"
  shows "rv_SessionToken reg = pr_SessionToken q" "rv_VirtualIP reg = addr_String (pr_VirtualIP q)"
    "rv_NetworkPrefix reg = prefix_String prefix"
  using assms by (cases reg; simp add: registered_as_def Registration_def)+

lemma lease_in_prefix:
  assumes inv: "registry_inv r" and q: "Get r n = Some q"
  shows "prefix4 (rg_prefix r)" "prefix_Contains (rg_prefix r) (pr_VirtualIP q)" "\<exists>w. pr_VirtualIP q = Addr4 w"
proof -
  have a: "alloc_inv (rg_allocator r)" and pre: "rg_prefix r = al_prefix (rg_allocator r)"
    using registry_invD(1,2) [OF inv] by blast+
  obtain v k where p: "rg_prefix r = Prefix (Addr4 v) (int k)" "k \<le> 30" "unat v mod 2 ^ (32 - k) = 0"
    using a pre by (auto simp: alloc_inv_def)
  show "prefix4 (rg_prefix r)" using p by (simp add: prefix4_def)
  have "al_byNode (rg_allocator r) n = Some (pr_VirtualIP q)"
    using registry_invD(3) [OF inv, of n] q by (simp add: Get_def)
  then have "pr_VirtualIP q \<in> host_pool (rg_prefix r)" using a pre by (auto simp: alloc_inv_def ran_def)
  then obtain w where w: "pr_VirtualIP q = Addr4 w" "unat v \<le> unat w" "unat w < unat v + 2 ^ (32 - k)"
    using p by (fastforce simp: host_pool_def capacity_def)
  then show "prefix_Contains (rg_prefix r) (pr_VirtualIP q)" "\<exists>w. pr_VirtualIP q = Addr4 w"
    using prefix_set_base [of k v w] p by (simp_all add: prefix_set_def)
qed

lemma runTUN_started:
  assumes "runTUN env url reg d pr counters = Ok (s, out)"
  obtains hello where "te_remote env = Some (ts_relay s)" "MarshalHello (rv_SessionToken reg) = Ok hello"
    "out = [(hello, ts_relay s)]" "ts_token s = rv_SessionToken reg"
    "ParseAddr (rv_VirtualIP reg) = Some (ts_virtualIP s)" "ParsePrefix (rv_NetworkPrefix reg) = Some (ts_prefix s)"
  using assms by (auto simp: runTUN_def rbind_Ok_iff of_option_def ensure_def split: option.splits if_splits)

text \<open>The relay learns a client's endpoint from its first datagram.\<close>

lemma hello_binds:
  assumes ok: "registry_ok (r, ord)" and q: "Get r n = Some q" and hello: "MarshalHello (pr_SessionToken q) = Ok b"
  shows "handleDatagram sha256 (registry_view (r, ord)) wr t1 t2 rl b src = (Ok (), [], relay_bind t1 rl n src)"
proof -
  have inv: "registry_inv r" using ok by (simp add: registry_ok_def)
  have id: "pr_NodeID q = n" using registry_invD(4) [OF inv, of n q] q by (simp add: Get_def peer_ok_def)
  have f: "ParseFrame b = Ok \<lparr>fr_Type = FrameHello, fr_Token = pr_SessionToken q, fr_Payload = []\<rparr>"
    using hello by (intro ParseFrame_marshal)
      (auto simp: frame_ok_def marshal_frame_def MarshalHello_def marshal_def split: if_splits)
  have "q \<in> set (pg_List (registry_view (r, ord)))" using listed_iff [OF ok] q id by simp
  from reg_dir.listed_token [OF ok this] f show ?thesis by (simp add: handleDatagram_def id Let_def)
qed

lemma lease_not_discovery:
  "d \<notin> {mdnsIPv4, ssdpIPv4} \<Longrightarrow> \<not> isDiscoveryPacket payload d"
  by (auto simp: isDiscoveryPacket_def mdnsIPv4_def ssdpIPv4_def mdnsMulticast_def ssdpMulticast_def split: result.split)

text \<open>C3: A packet written by one client's interface comes out of the other's, byte for byte: both
  clients have been registered and brought up as the coordinator answered, the relay has heard the
  receiver's hello, and then the packet that the sender's pump gives the relay, because no direct path
  takes it, is delivered to where the hello came from and written to the receiver's interface.\<close>

theorem mesh_delivery:
  assumes reach: "registry_reach p r" and ord: "range_of (rg_peers r) ord"
    and peers: "Get r n = Some q" "Get r m = Some q'" "n \<noteq> m"
    and regs: "registered_as reg q (rg_prefix r)" "registered_as reg' q' (rg_prefix r)"
    and up: "runTUN env url reg d pr counters = Ok (a, out)" "runTUN env' url' reg' d' pr' counters' = Ok (b, out')"
    and packet: "IPv4Endpoints buf = Ok (src, pr_VirtualIP q')" "src = pr_VirtualIP q" "length buf \<le> 65535"
      "pr_VirtualIP q' \<notin> {mdnsIPv4, ssdpIPv4}"
    and relayed: "fst (try_direct e a (pr_VirtualIP q') buf) \<noteq> Ok True"
    and wr: "wr' 0"
  shows "\<exists>hello rl frame a' datagram rl2.
    out' = [(hello, ts_relay b)] \<and>
    handleDatagram sha256 (registry_view (r, ord)) wr t1 t2 rl0 hello addrB = (Ok (), [], rl) \<and>
    pump_out e True a buf = (Ok (), a', [(frame, ts_relay a)]) \<and>
    handleDatagram sha256 (registry_view (r, ord)) wr' t3 t4 rl frame addrA = (Ok (), [(addrB, datagram)], rl2) \<and>
    pump_in clock now True wrB b datagram (ts_relay b) = (Ok (), b, [buf], [])"
proof -
  have ok: "registry_ok (r, ord)" by (rule reach_ok [OF reach ord])
  have inv: "registry_inv r" using registry_reach_inv [OF reach] by simp
  have id: "pr_NodeID q = n" "pr_NodeID q' = m"
    using peers registry_invD(4) [OF inv] by (auto simp: Get_def peer_ok_def)
  obtain hello where b: "out' = [(hello, ts_relay b)]" "MarshalHello (pr_SessionToken q') = Ok hello"
    by (rule runTUN_started [OF up(2)]) (use registered_asD(1) [OF regs(2)] in auto)
  have a: "ts_token a = pr_SessionToken q" "ts_prefix a = rg_prefix r"
    by (rule runTUN_started [OF up(1)];
        use registered_asD [OF regs(1)] ParsePrefix_String [OF lease_in_prefix(1) [OF inv peers(1)]] in simp)+
  have hello: "handleDatagram sha256 (registry_view (r, ord)) wr t1 t2 rl0 hello addrB = (Ok (), [], relay_bind t1 rl0 m addrB)"
    by (rule hello_binds [OF ok peers(2) b(2)])
  have token: "length (ts_token a) \<le> 512"
    using registry_invD(4) [OF inv, of n q] peers(1) a(1) by (auto simp: Get_def peer_ok_def length_hex_encode)
  have kind: "Classify (ts_prefix a) \<lparr>pk_Source = src, pk_Destination = pr_VirtualIP q', pk_Payload = buf\<rparr> = ClassPeer"
    unfolding Classify_cases using packet(4) lease_in_prefix(2) [OF inv peers(2)] by (simp add: a(2))
  obtain res a' sent where direct: "try_direct e a (pr_VirtualIP q') buf = (res, a', sent)"
    by (cases "try_direct e a (pr_VirtualIP q') buf")
  have "res \<noteq> Ok True" using relayed direct by simp
  from pump_out_peer [OF packet(1) token kind direct this] obtain frame where
    f: "MarshalPacket (pr_SessionToken q) buf = Ok frame" "pump_out e True a buf = (Ok (), a', [(frame, ts_relay a)])"
    by (auto simp: a(1))
  have listed: "q \<in> set (pg_List (registry_view (r, ord)))" "q' \<in> set (pg_List (registry_view (r, ord)))"
    using peers id by (simp_all add: listed_iff [OF ok])
  have bound: "relay_lookup (relay_bind t3 (relay_bind t1 rl0 m addrB) (pr_NodeID q) addrA) (pr_NodeID q') = Some addrB"
    using peers(3) by (simp add: id relay_lookup_def relay_bind_def)
  have "handleDatagram sha256 (registry_view (r, ord)) wr' t3 t4 (relay_bind t1 rl0 m addrB) frame addrA =
      (Ok (), [(addrB, deliver_frame buf)], relay_bind t3 (relay_bind t1 rl0 m addrB) (pr_NodeID q) addrA)"
    by (rule reg_dir.relay_unicast [where wr = wr', OF ok listed f(1) _ packet(3) lease_not_discovery [OF packet(4)] bound wr])
       (simp add: packet(1,2))
  moreover have "pump_in clock now True wrB b (deliver_frame buf) (ts_relay b) = (Ok (), b, [buf], [])"
    by (simp add: pump_in_def sameUDPAddr_iff ParseFrame_deliver_frame)
  ultimately show ?thesis using b(1) hello f(2) by blast
qed

section \<open>A concrete run\<close>

definition sample_peer :: "string \<Rightarrow> u32 \<Rightarrow> u8 \<Rightarrow> peer" where
  "sample_peer n v k = \<lparr>pr_NodeID = n, pr_VirtualIP = Addr4 v, pr_SessionToken = hex_encode (replicate 32 k), pr_LastSeen = 5\<rparr>"

lemma two_peers:
  obtains r where "registry_reach (Prefix (Addr4 0x0A580000) 16) r"
    "rg_peers r = [''n1'' \<mapsto> sample_peer ''n1'' 0x0A580002 7, ''n2'' \<mapsto> sample_peer ''n2'' 0x0A580003 8]"
proof -
  let ?one = "\<lambda>r. registerAt r ''n1'' 5 (Some (replicate 32 7))" and ?two = "\<lambda>r. registerAt r ''n2'' 5 (Some (replicate 32 8))"
  have "rbind (NewRegistry (Prefix (Addr4 0x0A580000) 16)) (\<lambda>r. rbind (fst (?one r)) (\<lambda>q. rbind (fst (?two (snd (?one r)))) (\<lambda>q'. Ok (q, q'))))
    = Ok (sample_peer ''n1'' 0x0A580002 7, sample_peer ''n2'' 0x0A580003 8)" by code_simp
  then obtain r where r: "NewRegistry (Prefix (Addr4 0x0A580000) 16) = Ok r"
    and q: "fst (?one r) = Ok (sample_peer ''n1'' 0x0A580002 7)" "fst (?two (snd (?one r))) = Ok (sample_peer ''n2'' 0x0A580003 8)"
    by (auto simp: rbind_Ok_iff)
  have trim: "TrimSpace ''n1'' = ''n1''" "TrimSpace ''n2'' = ''n2''" by code_simp+
  have reach1: "registry_reach (Prefix (Addr4 0x0A580000) 16) (snd (?one r))" by (rule registry_reach_one [OF r]) simp
  have new: "registry_inv r" "rg_peers r = Map.empty" using NewRegistry_Ok [OF r] by auto
  have p1: "rg_peers (snd (?one r)) = [''n1'' \<mapsto> sample_peer ''n1'' 0x0A580002 7]"
    using registerAt_new [OF new(1) _ _ prod.collapse [symmetric], where n = "''n1''" and now = 5
      and rnd = "Some (replicate 32 7)"] q(1) new(2) by (auto simp: trim)
  have inv1: "registry_inv (snd (?one r))" using registry_reach_inv [OF reach1] by simp
  have "rg_byToken (snd (?one r)) (hex_encode (replicate 32 8)) = None"
  proof (rule ccontr)
    assume "\<not> ?thesis"
    then obtain n where "rg_byToken (snd (?one r)) (hex_encode (replicate 32 8)) = Some n" by blast
    then show False using registry_invD(6) [OF inv1] by (auto simp: p1 sample_peer_def replicate_eq_replicate split: if_splits)
  qed
  then have reach2: "registry_reach (Prefix (Addr4 0x0A580000) 16) (snd (?two (snd (?one r))))"
    by (intro registry_reach.Step [OF reach1 registry_step.Register]) auto
  have "rg_peers (snd (?two (snd (?one r)))) = (rg_peers (snd (?one r)))(''n2'' \<mapsto> sample_peer ''n2'' 0x0A580003 8)"
    using registerAt_new [OF inv1 _ _ prod.collapse [symmetric], where n = "''n2''" and now = 5
      and rnd = "Some (replicate 32 8)"] q(2) p1 by (auto simp: trim)
  then show thesis using that [OF reach2] p1 by simp
qed

definition delivery_packet :: bytes where
  "delivery_packet = [0x45, 0, 0, 20, 0, 0, 0, 0, 64, 0, 0, 0, 10, 88, 0, 2, 10, 88, 0, 3]"

definition delivery_reg :: "string \<Rightarrow> u32 \<Rightarrow> u8 \<Rightarrow> registration_view" where
  "delivery_reg n v k = Registration (sample_peer n v k) (Prefix (Addr4 0x0A580000) 16)"

definition delivery_env :: tun_env where
  "delivery_env = \<lparr>te_open = True, te_configure = True, te_discovery = True, te_remote = Some sample_endpoint,
     te_socket = (\<lambda>_. True), te_hello = True\<rparr>"

definition delivery_send :: send_env where
  "delivery_send = \<lparr>sv_ordC = [], sv_ordT = [], sv_resolve = (\<lambda>_. None), sv_rnd = None, sv_wr = True, sv_now = 1, sv_clock = 1\<rparr>"

lemma delivery_up:
  assumes "v \<in> {0x0A580002, 0x0A580003}"
  obtains s out where "runTUN delivery_env url (delivery_reg n v k) False False counters = Ok (s, out)" "ts_runtime s = None"
    "ts_relay s = sample_endpoint"
proof -
  have p: "prefix4 (Prefix (Addr4 0x0A580000) 16)" by (simp add: prefix4_def)
  have "prefix_Contains (Prefix (Addr4 0x0A580000) 16) (Addr4 v)"
    using assms prefix_Contains4 [of 16 "0x0A580000" v] by auto
  moreover have "MarshalHello (hex_encode (replicate 32 k)) \<noteq> Panic" "\<And>x. MarshalHello (hex_encode (replicate 32 k)) \<noteq> Fail x"
    by (simp_all add: MarshalHello_def marshal_def length_hex_encode)
  then obtain hello where "MarshalHello (hex_encode (replicate 32 k)) = Ok hello" by (cases "MarshalHello (hex_encode (replicate 32 k))") auto
  ultimately show thesis using that ParsePrefix_String [OF p]
    by (simp add: runTUN_def delivery_env_def delivery_reg_def Registration_def sample_peer_def of_option_def ensure_def ParseAddr_string4)
qed

theorem mesh_delivery_witness:
  "\<exists>r a b hello rl frame a' datagram rl2. registry_reach (Prefix (Addr4 0x0A580000) 16) r \<and>
    handleDatagram (\<lambda>x. x) (registry_view (r, [''n1'', ''n2''])) (\<lambda>_. True) 1 2 ListenRelay hello sample_endpoint = (Ok (), [], rl) \<and>
    pump_out delivery_send True a delivery_packet = (Ok (), a', [(frame, sample_endpoint)]) \<and>
    handleDatagram (\<lambda>x. x) (registry_view (r, [''n1'', ''n2''])) (\<lambda>_. True) 3 4 rl frame sample_endpoint =
      (Ok (), [(sample_endpoint, datagram)], rl2) \<and>
    pump_in 5 5 True True b datagram sample_endpoint = (Ok (), b, [delivery_packet], [])"
proof -
  fix counters
  obtain r where reach: "registry_reach (Prefix (Addr4 0x0A580000) 16) r"
    and peers: "rg_peers r = [''n1'' \<mapsto> sample_peer ''n1'' 0x0A580002 7, ''n2'' \<mapsto> sample_peer ''n2'' 0x0A580003 8]"
    by (rule two_peers)
  have pre: "rg_prefix r = Prefix (Addr4 0x0A580000) 16"
    using registry_reach_inv [OF reach] prefix_Masked4 [of 16 "0x0A580000"] by (simp add: mask_eq_exp_minus_1)
  obtain a out where a: "runTUN delivery_env '''' (delivery_reg ''n1'' 0x0A580002 7) False False counters = Ok (a, out)"
    "ts_runtime a = None" "ts_relay a = sample_endpoint" by (rule delivery_up [where v = "0x0A580002"]) auto
  obtain b out' where b: "runTUN delivery_env '''' (delivery_reg ''n2'' 0x0A580003 8) False False counters = Ok (b, out')"
    "ts_relay b = sample_endpoint" by (rule delivery_up [where v = "0x0A580003"]) auto
  let ?q = "sample_peer ''n1'' 0x0A580002 7" and ?q' = "sample_peer ''n2'' 0x0A580003 8"
  have vip: "pr_VirtualIP (sample_peer n v k) = Addr4 v" for n v k by (simp add: sample_peer_def)
  have packet: "IPv4Endpoints delivery_packet = Ok (pr_VirtualIP ?q, pr_VirtualIP ?q')" "length delivery_packet \<le> 65535"
    by (simp_all add: vip IPv4Endpoints_def ipv4HeaderLength_def idx_def delivery_packet_def AddrFrom4_def be32_def)
  have unicast: "pr_VirtualIP ?q' \<notin> {mdnsIPv4, ssdpIPv4}" by (simp add: vip mdnsIPv4_def ssdpIPv4_def AddrFrom4_def be32_def)
  have ord: "range_of (rg_peers r) [''n1'', ''n2'']" by (auto simp: range_of_def peers)
  have get: "Get r ''n1'' = Some ?q" "Get r ''n2'' = Some ?q'" "''n1'' \<noteq> ''n2''" by (simp_all add: Get_def peers)
  have reg: "registered_as (delivery_reg n v k) (sample_peer n v k) (rg_prefix r)" for n v k
    by (simp add: registered_as_def delivery_reg_def pre Registration_def)
  have relayed: "fst (try_direct delivery_send a (pr_VirtualIP ?q') delivery_packet) \<noteq> Ok True"
    by (simp add: try_direct_def a(2))
  have "\<exists>hello rl frame a' datagram rl2. out' = [(hello, ts_relay b)] \<and>
    handleDatagram (\<lambda>x. x) (registry_view (r, [''n1'', ''n2''])) (\<lambda>_. True) 1 2 ListenRelay hello sample_endpoint = (Ok (), [], rl) \<and>
    pump_out delivery_send True a delivery_packet = (Ok (), a', [(frame, ts_relay a)]) \<and>
    handleDatagram (\<lambda>x. x) (registry_view (r, [''n1'', ''n2''])) (\<lambda>_. True) 3 4 rl frame sample_endpoint =
      (Ok (), [(sample_endpoint, datagram)], rl2) \<and>
    pump_in 5 5 True True b datagram (ts_relay b) = (Ok (), b, [delivery_packet], [])"
    by (rule mesh_delivery [OF reach ord get reg reg a(1) b(1) packet(1) refl packet(2) unicast relayed TrueI])
  then obtain hello rl frame a' datagram rl2 where
    "handleDatagram (\<lambda>x. x) (registry_view (r, [''n1'', ''n2''])) (\<lambda>_. True) 1 2 ListenRelay hello sample_endpoint = (Ok (), [], rl)"
    "pump_out delivery_send True a delivery_packet = (Ok (), a', [(frame, sample_endpoint)])"
    "handleDatagram (\<lambda>x. x) (registry_view (r, [''n1'', ''n2''])) (\<lambda>_. True) 3 4 rl frame sample_endpoint =
      (Ok (), [(sample_endpoint, datagram)], rl2)"
    "pump_in 5 5 True True b datagram sample_endpoint = (Ok (), b, [delivery_packet], [])"
    unfolding a(3) b(2) by blast
  with reach show ?thesis
    by - (rule exI [of _ r], rule exI [of _ a], rule exI [of _ b], rule exI [of _ hello], rule exI [of _ rl],
      rule exI [of _ frame], rule exI [of _ a'], rule exI [of _ datagram], rule exI [of _ rl2], simp only: simp_thms)
qed

end
