(* ===== verification/XrayProcess.thy ===== *)
theory XrayProcess
  imports GoStrings
begin

text \<open>
  The supervisor of the Xray child process, \<open>internal/xray/process.go\<close>, as interleaved calls of
  \<open>Start\<close>, \<open>Wait\<close> and \<open>Close\<close> with the goroutine that waits for the child. A step is what one of
  them does without giving the mutex up or between two communications. What the operating system
  answers and when the child exits are choices of the steps.
\<close>

section \<open>The process and its single-threaded parts\<close>

datatype process_error =
    ErrAlreadyStarted
  | ErrNotStarted
  | ErrXrayBinary
  | ErrXrayConfigPath
  | ErrXrayConfigStat
  | ErrXrayConfigDirectory
  | ErrXrayValidate string
  | ErrXrayLaunch
  | ErrXrayExit string

datatype file_stat = StatError | StatDirectory | StatFile

text \<open>\<open>xp_done\<close> is whether the channel is closed, \<open>None\<close> for the nil channel; \<open>xp_cmd\<close> and \<open>xp_cancel\<close>
  are whether the fields are set.\<close>

record xray_process =
  xp_Binary :: string
  xp_Config :: string
  xp_cmd :: bool
  xp_cancel :: bool
  xp_done :: "bool option"
  xp_waitErr :: "string option"

definition NewProcess :: "string \<Rightarrow> string \<Rightarrow> xray_process" where
  "NewProcess binary config = \<lparr>xp_Binary = binary, xp_Config = config, xp_cmd = False, xp_cancel = False,
     xp_done = None, xp_waitErr = None\<rparr>"

definition validateFields :: "file_stat \<Rightarrow> xray_process \<Rightarrow> (process_error, unit) result" where
  "validateFields stat p =
     (if TrimSpace (xp_Binary p) = '''' then Fail ErrXrayBinary
      else if TrimSpace (xp_Config p) = '''' then Fail ErrXrayConfigPath
      else if stat = StatError then Fail ErrXrayConfigStat
      else if stat = StatDirectory then Fail ErrXrayConfigDirectory
      else Ok ())"

text \<open>\<open>test\<close> is what \<open>xray run -test\<close> printed when it failed.\<close>

definition Validate :: "file_stat \<Rightarrow> string option \<Rightarrow> xray_process \<Rightarrow> (process_error, unit) result" where
  "Validate stat test p =
     rbind (validateFields stat p) (\<lambda>_. case test of None \<Rightarrow> Ok () | Some output \<Rightarrow> Fail (ErrXrayValidate (TrimSpace output)))"

definition Running :: "xray_process \<Rightarrow> bool" where
  "Running p = (if \<not> xp_cmd p \<or> xp_done p = None then False else xp_done p = Some False)"

text \<open>What \<open>Wait\<close> reads once the channel is closed.\<close>

definition wait_result :: "xray_process \<Rightarrow> (process_error, unit) result" where
  "wait_result p = (case xp_waitErr p of None \<Rightarrow> Ok () | Some e \<Rightarrow> Fail (ErrXrayExit e))"

section \<open>Interleaved calls\<close>

text \<open>
  The child and its goroutine: alive, exited with what \<open>cmd.Wait\<close> returns, collected with the error
  to be stored, stored, and reaped once the channel is closed.
\<close>

datatype xray_child = NoChild | Alive | Exited "string option" | Collected "string option" | Stored | Reaped

datatype xray_call =
    StartCalled file_stat bool
  | StartReturned "(process_error, unit) result"
  | WaitCalled
  | WaitBlocked
  | WaitReady
  | WaitReturned "(process_error, unit) result"
  | CloseCalled
  | CloseCancelling bool \<comment> \<open>whether there is a channel to wait for\<close>
  | CloseBlocked
  | CloseReturned bool \<comment> \<open>whether this call cancelled the child\<close>

record xray_world =
  xw_proc :: xray_process
  xw_ctx :: bool \<comment> \<open>the child's context is cancelled\<close>
  xw_child :: xray_child
  xw_launches :: nat
  xw_calls :: "nat \<Rightarrow> xray_call option"

definition set_call :: "nat \<Rightarrow> xray_call \<Rightarrow> xray_world \<Rightarrow> xray_world" where
  "set_call i c w = w\<lparr>xw_calls := (xw_calls w)(i \<mapsto> c)\<rparr>"

text \<open>\<open>launch\<close> is whether the command starts, which it does not once the context is cancelled.\<close>

definition xray_Start ::
    "file_stat \<Rightarrow> bool \<Rightarrow> xray_world \<Rightarrow> (process_error, unit) result \<times> xray_world" where
  "xray_Start stat launch w =
     (case validateFields stat (xw_proc w) of
        Ok _ \<Rightarrow>
          if xp_cmd (xw_proc w) then (Fail ErrAlreadyStarted, w)
          else if \<not> launch then (Fail ErrXrayLaunch, w)
          else (Ok (), w\<lparr>
            xw_proc := (xw_proc w)\<lparr>xp_cmd := True, xp_cancel := True, xp_done := Some False, xp_waitErr := None\<rparr>,
            xw_ctx := False, xw_child := Alive, xw_launches := xw_launches w + 1\<rparr>)
      | Fail e \<Rightarrow> (Fail e, w)
      | Panic \<Rightarrow> (Panic, w))"

definition xray_call_start :: "xray_call \<Rightarrow> bool" where
  "xray_call_start c \<longleftrightarrow> (case c of StartCalled _ _ \<Rightarrow> True | WaitCalled \<Rightarrow> True | CloseCalled \<Rightarrow> True | _ \<Rightarrow> False)"

inductive xray_step :: "xray_world \<Rightarrow> xray_world \<Rightarrow> bool" where
  Call: "xw_calls w i = None \<Longrightarrow> xray_call_start c \<Longrightarrow> xray_step w (set_call i c w)"
| Start: "xw_calls w i = Some (StartCalled stat launch) \<Longrightarrow> xray_Start stat launch w = (res, w') \<Longrightarrow>
    xray_step w (set_call i (StartReturned res) w')"
| WaitLook: "xw_calls w i = Some WaitCalled \<Longrightarrow>
    xray_step w (set_call i (if xp_done (xw_proc w) = None then WaitReturned (Fail ErrNotStarted) else WaitBlocked) w)"
| WaitWake: "xw_calls w i = Some WaitBlocked \<Longrightarrow> xp_done (xw_proc w) = Some True \<Longrightarrow> xray_step w (set_call i WaitReady w)"
| WaitRead: "xw_calls w i = Some WaitReady \<Longrightarrow> xray_step w (set_call i (WaitReturned (wait_result (xw_proc w))) w)"
| CloseTake: "xw_calls w i = Some CloseCalled \<Longrightarrow>
    xray_step w (set_call i (if xp_cancel (xw_proc w) then CloseCancelling (xp_done (xw_proc w) \<noteq> None) else CloseReturned False)
      (w\<lparr>xw_proc := (xw_proc w)\<lparr>xp_cancel := False\<rparr>\<rparr>))"
| CloseCancel: "xw_calls w i = Some (CloseCancelling b) \<Longrightarrow>
    xray_step w (set_call i (if b then CloseBlocked else CloseReturned True) (w\<lparr>xw_ctx := True\<rparr>))"
| CloseWake: "xw_calls w i = Some CloseBlocked \<Longrightarrow> xp_done (xw_proc w) = Some True \<Longrightarrow>
    xray_step w (set_call i (CloseReturned True) w)"
| Cancel: "xw_child w \<noteq> NoChild \<Longrightarrow> \<not> xw_ctx w \<Longrightarrow> xray_step w (w\<lparr>xw_ctx := True\<rparr>)"
| Exit: "xw_child w = Alive \<Longrightarrow> xray_step w (w\<lparr>xw_child := Exited e\<rparr>)"
| Collect: "xw_child w = Exited e \<Longrightarrow> xray_step w (w\<lparr>xw_child := Collected (if xw_ctx w then None else e)\<rparr>)"
| Store: "xw_child w = Collected e \<Longrightarrow>
    xray_step w (w\<lparr>xw_child := Stored, xw_proc := (xw_proc w)\<lparr>xp_waitErr := e\<rparr>\<rparr>)"
| Done: "xw_child w = Stored \<Longrightarrow>
    xray_step w (w\<lparr>xw_child := Reaped, xw_proc := (xw_proc w)\<lparr>xp_done := Some True\<rparr>\<rparr>)"

text \<open>A supervisor fresh from \<open>NewProcess\<close> that nobody has called yet.\<close>

definition xray_world_of :: "xray_process \<Rightarrow> xray_world" where
  "xray_world_of p = \<lparr>xw_proc = p, xw_ctx = False, xw_child = NoChild, xw_launches = 0, xw_calls = Map.empty\<rparr>"

definition xray_fresh :: "string \<Rightarrow> string \<Rightarrow> xray_world" where
  "xray_fresh binary config = xray_world_of (NewProcess binary config)"

definition xray_reach :: "xray_world \<Rightarrow> bool" where
  "xray_reach w \<longleftrightarrow> (\<exists>binary config. xray_step\<^sup>*\<^sup>* (xray_fresh binary config) w)"

section \<open>What holds in every state\<close>

text \<open>What each call in progress or returned knows of the child.\<close>

definition call_ok :: "xray_world \<Rightarrow> xray_call \<Rightarrow> bool" where
  "call_ok w c \<longleftrightarrow>
     (case c of
        StartReturned r \<Rightarrow> r \<noteq> Panic \<and> (r = Ok () \<longrightarrow> xw_child w \<noteq> NoChild)
      | WaitBlocked \<Rightarrow> xw_child w \<noteq> NoChild
      | WaitReady \<Rightarrow> xw_child w = Reaped
      | WaitReturned r \<Rightarrow> r = Fail ErrNotStarted \<or> xw_child w = Reaped \<and> r = wait_result (xw_proc w)
      | CloseCancelling b \<Rightarrow> b \<and> xw_child w \<noteq> NoChild
      | CloseBlocked \<Rightarrow> xw_child w \<noteq> NoChild \<and> xw_ctx w
      | CloseReturned b \<Rightarrow> b \<longrightarrow> xw_child w = Reaped \<and> xw_ctx w
      | _ \<Rightarrow> True)"

definition proc_ok :: "xray_world \<Rightarrow> bool" where
  "proc_ok w \<longleftrightarrow>
     xp_done (xw_proc w) = (case xw_child w of NoChild \<Rightarrow> None | Reaped \<Rightarrow> Some True | _ \<Rightarrow> Some False) \<and>
     (xp_cmd (xw_proc w) \<longleftrightarrow> xw_child w \<noteq> NoChild) \<and> xw_launches w = of_bool (xp_cmd (xw_proc w)) \<and>
     (xp_cancel (xw_proc w) \<longrightarrow> xp_cmd (xw_proc w)) \<and> (xw_ctx w \<longrightarrow> xp_cmd (xw_proc w)) \<and>
     (xp_waitErr (xw_proc w) \<noteq> None \<longrightarrow> xw_child w \<in> {Stored, Reaped})"

definition xray_ok :: "xray_world \<Rightarrow> bool" where
  "xray_ok w \<longleftrightarrow> proc_ok w \<and> (\<forall>i c. xw_calls w i = Some c \<longrightarrow> call_ok w c) \<and> finite (dom (xw_calls w)) \<and>
     (\<forall>i j. xw_calls w i = Some (StartReturned (Ok ())) \<longrightarrow> xw_calls w j = Some (StartReturned (Ok ())) \<longrightarrow> i = j)"

lemma proc_ok_done:
  assumes "proc_ok w"
  shows "xp_done (xw_proc w) = None \<longleftrightarrow> xw_child w = NoChild" "xp_done (xw_proc w) = Some True \<longleftrightarrow> xw_child w = Reaped"
    "xp_cancel (xw_proc w) \<Longrightarrow> xw_child w \<noteq> NoChild"
  using assms by (auto simp: proc_ok_def split: xray_child.splits)

lemma set_call_simps [simp]:
  "xw_proc (set_call i c w) = xw_proc w" "xw_ctx (set_call i c w) = xw_ctx w" "xw_child (set_call i c w) = xw_child w"
  "xw_launches (set_call i c w) = xw_launches w" "xw_calls (set_call i c w) = (xw_calls w)(i \<mapsto> c)"
  by (simp_all add: set_call_def)

lemma call_ok_set_call [simp]: "call_ok (set_call i c w) = call_ok w"
  by (rule ext) (simp add: call_ok_def split: xray_call.split)

lemma xray_Start_cases:
  assumes "xray_Start stat launch w = (res, w')"
  shows "(\<exists>e. res = Fail e) \<and> w' = w \<or> res = Ok () \<and> \<not> xp_cmd (xw_proc w) \<and> w' = w\<lparr>
      xw_proc := (xw_proc w)\<lparr>xp_cmd := True, xp_cancel := True, xp_done := Some False, xp_waitErr := None\<rparr>,
      xw_ctx := False, xw_child := Alive, xw_launches := xw_launches w + 1\<rparr>"
  using assms by (simp add: xray_Start_def validateFields_def split: if_splits) blast+

text \<open>A step that leaves what a call knows true keeps it.\<close>

lemma call_ok_mono:
  assumes "call_ok w c" "xw_child w \<noteq> NoChild \<longrightarrow> xw_child w' \<noteq> NoChild"
    "xw_child w = Reaped \<longrightarrow> xw_child w' = Reaped \<and> xp_waitErr (xw_proc w') = xp_waitErr (xw_proc w)"
    "xw_child w \<noteq> NoChild \<longrightarrow> xw_ctx w \<longrightarrow> xw_ctx w'"
  shows "call_ok w' c"
  using assms by (cases c) (auto simp: call_ok_def wait_result_def)

lemma xray_ok_set_call:
  assumes "xray_ok w" "call_ok w c" "c = StartReturned (Ok ()) \<Longrightarrow> \<forall>j. xw_calls w j \<noteq> Some (StartReturned (Ok ()))"
  shows "xray_ok (set_call i c w)"
  using assms by (auto simp: xray_ok_def proc_ok_def)

lemma xray_ok_world:
  assumes "xray_ok w" "proc_ok w'" "xw_calls w' = xw_calls w" "xw_child w \<noteq> NoChild \<longrightarrow> xw_child w' \<noteq> NoChild"
    "xw_child w = Reaped \<longrightarrow> xw_child w' = Reaped \<and> xp_waitErr (xw_proc w') = xp_waitErr (xw_proc w)"
    "xw_child w \<noteq> NoChild \<longrightarrow> xw_ctx w \<longrightarrow> xw_ctx w'"
  shows "xray_ok w'"
  using assms call_ok_mono [OF _ assms(4-6)] by (auto simp: xray_ok_def)

lemma xray_okD:
  assumes "xray_ok w"
  shows "proc_ok w" "xw_calls w i = Some c \<Longrightarrow> call_ok w c" "finite (dom (xw_calls w))"
  using assms by (auto simp: xray_ok_def)

lemma xray_step_ok: "xray_step w w' \<Longrightarrow> xray_ok w \<Longrightarrow> xray_ok w'"
proof (induction rule: xray_step.induct)
  case (Call w i c)
  then show ?case by (intro xray_ok_set_call) (auto simp: xray_call_start_def call_ok_def split: xray_call.splits)
next
  case (Start w i stat launch res w')
  from xray_Start_cases [OF Start(2)] show ?case
  proof (elim disjE)
    assume 1: "(\<exists>e. res = Fail e) \<and> w' = w"
    then show ?thesis using Start(3) by (auto intro!: xray_ok_set_call simp: call_ok_def)
  next
    assume 2: "res = Ok () \<and> \<not> xp_cmd (xw_proc w) \<and> w' = w\<lparr>
        xw_proc := (xw_proc w)\<lparr>xp_cmd := True, xp_cancel := True, xp_done := Some False, xp_waitErr := None\<rparr>,
        xw_ctx := False, xw_child := Alive, xw_launches := xw_launches w + 1\<rparr>"
    then have none: "xw_child w = NoChild" using xray_okD(1) [OF Start(3)] by (simp add: proc_ok_def)
    then have "xw_calls w j \<noteq> Some (StartReturned (Ok ()))" for j using xray_okD(2) [OF Start(3), of j] by (auto simp: call_ok_def)
    moreover have "xray_ok w'" using none 2 xray_okD(1) [OF Start(3)] by (intro xray_ok_world [OF Start(3)]) (auto simp: proc_ok_def)
    ultimately show ?thesis using 2 by (intro xray_ok_set_call) (simp_all add: call_ok_def)
  qed
next
  case (WaitLook w i)
  then show ?case using xray_okD(1) [OF WaitLook(2)]
    by (intro xray_ok_set_call) (auto simp: call_ok_def proc_ok_done split: if_splits)
next
  case (WaitWake w i)
  then show ?case using xray_okD(1) [OF WaitWake(3)]
    by (intro xray_ok_set_call) (auto simp: call_ok_def proc_ok_done)
next
  case (WaitRead w i)
  then show ?case using xray_okD(2) [OF WaitRead(2,1)] by (intro xray_ok_set_call) (auto simp: call_ok_def)
next
  case (CloseTake w i)
  have p: "proc_ok w" by (rule xray_okD(1) [OF CloseTake(2)])
  have "xray_ok (w\<lparr>xw_proc := (xw_proc w)\<lparr>xp_cancel := False\<rparr>\<rparr>)"
    using p by (intro xray_ok_world [OF CloseTake(2)]) (auto simp: proc_ok_def)
  then show ?case by (rule xray_ok_set_call) (auto simp: call_ok_def proc_ok_done [OF p] split: if_splits)
next
  case (CloseCancel w i b)
  have p: "proc_ok w" and c: "call_ok w (CloseCancelling b)" using xray_okD [OF CloseCancel(2)] CloseCancel(1) by auto
  then have "xray_ok (w\<lparr>xw_ctx := True\<rparr>)" by (intro xray_ok_world [OF CloseCancel(2)]) (auto simp: proc_ok_def call_ok_def)
  then show ?case using c by (intro xray_ok_set_call) (auto simp: call_ok_def)
next
  case (CloseWake w i)
  then show ?case using xray_okD(1,2) [OF CloseWake(3)]
    by (intro xray_ok_set_call) (fastforce simp: call_ok_def proc_ok_done)+
next
  case (Cancel w)
  then show ?case using xray_okD(1) [OF Cancel(3)] by (intro xray_ok_world [OF Cancel(3)]) (auto simp: proc_ok_def)
next
  case (Exit w e)
  then show ?case using xray_okD(1) [OF Exit(2)] by (intro xray_ok_world [OF Exit(2)]) (auto simp: proc_ok_def)
next
  case (Collect w e)
  then show ?case using xray_okD(1) [OF Collect(2)] by (intro xray_ok_world [OF Collect(2)]) (auto simp: proc_ok_def)
next
  case (Store w e)
  then show ?case using xray_okD(1) [OF Store(2)] by (intro xray_ok_world [OF Store(2)]) (auto simp: proc_ok_def)
next
  case (Done w)
  then show ?case using xray_okD(1) [OF Done(2)] by (intro xray_ok_world [OF Done(2)]) (auto simp: proc_ok_def)
qed

lemma xray_fresh_ok: "xray_ok (xray_fresh binary config)"
  by (simp add: xray_ok_def proc_ok_def xray_fresh_def xray_world_of_def NewProcess_def)

lemma xray_steps_ok: "xray_step\<^sup>*\<^sup>* w w' \<Longrightarrow> xray_ok w \<Longrightarrow> xray_ok w'"
  by (induction rule: rtranclp_induct) (auto dest: xray_step_ok)

lemma xray_reach_ok: "xray_reach w \<Longrightarrow> xray_ok w"
  using xray_steps_ok [OF _ xray_fresh_ok] by (auto simp: xray_reach_def)

lemma xray_reach_step: "xray_reach w \<Longrightarrow> xray_step w w' \<Longrightarrow> xray_reach w'"
  by (meson rtranclp.rtrancl_into_rtrancl xray_reach_def)

section \<open>Runs end\<close>

text \<open>A step of the calls in progress, of the child or of its goroutine.\<close>

definition xray_progress :: "xray_world \<Rightarrow> xray_world \<Rightarrow> bool" where
  "xray_progress w w' \<longleftrightarrow> xray_step w w' \<and> dom (xw_calls w') = dom (xw_calls w)"

fun call_rank :: "xray_call \<Rightarrow> nat" where
  "call_rank (StartCalled _ _) = 1"
| "call_rank WaitCalled = 3"
| "call_rank WaitBlocked = 2"
| "call_rank WaitReady = 1"
| "call_rank CloseCalled = 3"
| "call_rank (CloseCancelling _) = 2"
| "call_rank CloseBlocked = 1"
| "call_rank _ = 0"

fun child_rank :: "xray_child \<Rightarrow> nat" where
  "child_rank NoChild = 5"
| "child_rank Alive = 4"
| "child_rank (Exited _) = 3"
| "child_rank (Collected _) = 2"
| "child_rank Stored = 1"
| "child_rank Reaped = 0"

definition calls_work :: "(nat \<Rightarrow> xray_call option) \<Rightarrow> nat" where
  "calls_work m = (\<Sum>i\<in>dom m. call_rank (the (m i)))"

text \<open>How many steps are left at most.\<close>

definition xray_work :: "xray_world \<Rightarrow> nat" where
  "xray_work w = calls_work (xw_calls w) + child_rank (xw_child w) + of_bool (\<not> xw_ctx w)"

text \<open>All calls have returned and the child, if any, is reaped.\<close>

definition xray_settled :: "xray_world \<Rightarrow> bool" where
  "xray_settled w \<longleftrightarrow> (\<forall>c \<in> ran (xw_calls w). call_rank c = 0) \<and> xw_child w \<in> {NoChild, Reaped}"

lemma calls_work_update:
  assumes "finite (dom m)" "m i = Some c"
  shows "calls_work (m(i \<mapsto> c')) + call_rank c = calls_work m + call_rank c'"
proof -
  have "dom (m(i \<mapsto> c')) = insert i (dom m - {i})" "dom m = insert i (dom m - {i})" using assms(2) by auto
  note doms = this
  have rest: "(\<Sum>j\<in>dom m - {i}. call_rank (the ((m(i \<mapsto> c')) j))) = (\<Sum>j\<in>dom m - {i}. call_rank (the (m j)))"
    by (rule sum.cong) auto
  have fin: "finite (dom m - {i})" using assms(1) by simp
  have "calls_work (m(i \<mapsto> c')) = call_rank c' + (\<Sum>j\<in>dom m - {i}. call_rank (the (m j)))"
    unfolding calls_work_def by (subst doms(1), subst sum.insert [OF fin]) (use rest in simp_all)
  moreover have "calls_work m = call_rank c + (\<Sum>j\<in>dom m - {i}. call_rank (the (m j)))"
    unfolding calls_work_def by (subst doms(2), subst sum.insert [OF fin]) (use assms(2) in simp_all)
  ultimately show ?thesis by simp
qed

lemma calls_work_less:
  "finite (dom m) \<Longrightarrow> m i = Some c \<Longrightarrow> call_rank c' < call_rank c \<Longrightarrow> calls_work (m(i \<mapsto> c')) < calls_work m"
  using calls_work_update [of m i c c'] by simp

lemma xray_progress_less:
  assumes ok: "xray_ok w" and prog: "xray_progress w w'"
  shows "xray_work w' < xray_work w"
proof -
  have fin: "finite (dom (xw_calls w))" and p: "proc_ok w" using xray_okD [OF ok] by auto
  note less = calls_work_less [OF fin]
  from prog have "xray_step w w'" "dom (xw_calls w') = dom (xw_calls w)" by (simp_all add: xray_progress_def)
  then show ?thesis
  proof (cases rule: xray_step.cases)
    case (Call i c)
    then show ?thesis using \<open>dom (xw_calls w') = dom (xw_calls w)\<close> by auto
  next
    case (Start i stat launch res w2)
    from xray_Start_cases [OF Start(3)] show ?thesis
      using less [OF Start(2), of "StartReturned res"] Start(1) p by (auto simp: xray_work_def proc_ok_def)
  next
    case (WaitLook i)
    then show ?thesis using less [OF WaitLook(2), of WaitBlocked] less [OF WaitLook(2), of "WaitReturned (Fail ErrNotStarted)"]
      by (auto simp: xray_work_def)
  next
    case (CloseTake i)
    then show ?thesis using less [OF CloseTake(2), of "CloseReturned False"]
        less [OF CloseTake(2), of "CloseCancelling (xp_done (xw_proc w) \<noteq> None)"]
      by (auto simp: xray_work_def)
  next
    case (CloseCancel i b)
    then show ?thesis using less [OF CloseCancel(2), of "CloseReturned True"] less [OF CloseCancel(2), of CloseBlocked]
      by (auto simp: xray_work_def)
  qed (simp_all add: xray_work_def less)
qed

lemma xray_unsettled:
  assumes ok: "xray_ok w" and "\<not> xray_settled w"
  shows "\<exists>w'. xray_progress w w'"
proof -
  have reaped: "xp_done (xw_proc w) = Some True" if "xw_child w = Reaped" using proc_ok_done [OF xray_okD(1) [OF ok]] that by simp
  consider (child) "xw_child w \<notin> {NoChild, Reaped}"
    | (call) i c where "xw_calls w i = Some c" "call_rank c \<noteq> 0" "xw_child w = NoChild \<or> xw_child w = Reaped"
    using assms(2) by (auto simp: xray_settled_def ran_def)
  then show ?thesis
  proof cases
    case child
    then consider "xw_child w = Alive" | e where "xw_child w = Exited e" | e where "xw_child w = Collected e"
      | "xw_child w = Stored" by (cases "xw_child w") auto
    then show ?thesis
      by cases (rule exI, simp only: xray_progress_def, rule conjI, erule xray_step.intros, simp)+
  next
    case call
    have dom: "dom (xw_calls (set_call i c' w')) = dom (xw_calls w)" if "xw_calls w' = xw_calls w" for c' w' using call that by auto
    have blocked: "xw_child w = Reaped" if "c = WaitBlocked \<or> c = CloseBlocked"
      using xray_okD(2) [OF ok call(1)] that call(3) by (auto simp: call_ok_def)
    obtain w' c' where "xray_step w (set_call i c' w')" "xw_calls w' = xw_calls w"
    proof (cases c)
      case (StartCalled stat launch)
      obtain res w' where "xray_Start stat launch w = (res, w')" by fastforce
      then show ?thesis using that xray_step.Start call(1) StartCalled xray_Start_cases by fastforce
    next
      case WaitBlocked
      then show ?thesis using that xray_step.WaitWake call(1) reaped blocked by blast
    next
      case CloseBlocked
      then show ?thesis using that xray_step.CloseWake call(1) reaped blocked by blast
    next
      case CloseCalled
      then show ?thesis using that xray_step.CloseTake call(1) by fastforce
    next
      case (CloseCancelling b)
      then show ?thesis using that xray_step.CloseCancel call(1) by fastforce
    qed (use that call xray_step.WaitLook xray_step.WaitRead in fastforce)+
    then show ?thesis using dom [of w' c'] by (intro exI [of _ "set_call i c' w'"]) (simp add: xray_progress_def)
  qed
qed

section \<open>Properties\<close>

lemma xray_running: "xray_ok w \<Longrightarrow> Running (xw_proc w) \<longleftrightarrow> xw_child w \<notin> {NoChild, Reaped}"
  by (auto simp: xray_ok_def proc_ok_def Running_def split: xray_child.splits)

text \<open>C31: However calls of Start, Wait and Close interleave, at most one child is launched and at most one
  Start succeeds; all calls of Wait that waited return the same result, and when one of them or a Close
  that cancelled has returned, the process no longer runs.\<close>

theorem xray_supervisor_consistent:
  assumes "xray_reach w"
  shows "xw_launches w \<le> 1 \<and> (\<exists>i. {j. xw_calls w j = Some (StartReturned (Ok ()))} \<subseteq> {i}) \<and>
    (\<exists>r. {x. \<exists>j. xw_calls w j = Some (WaitReturned x)} \<subseteq> {Fail ErrNotStarted, r}) \<and>
    (\<forall>j r. xw_calls w j \<in> {Some (WaitReturned r), Some (CloseReturned True)} \<and> r \<noteq> Fail ErrNotStarted
      \<longrightarrow> \<not> Running (xw_proc w) \<and> xw_launches w = 1)"
proof -
  note ok = xray_reach_ok [OF assms]
  note p = xray_okD(1) [OF ok] and c = xray_okD(2) [OF ok]
  have "xw_launches w \<le> 1" using p by (simp add: proc_ok_def)
  moreover have "\<exists>i. {j. xw_calls w j = Some (StartReturned (Ok ()))} \<subseteq> {i}"
    using ok unfolding xray_ok_def by blast
  moreover have "{x. \<exists>j. xw_calls w j = Some (WaitReturned x)} \<subseteq> {Fail ErrNotStarted, wait_result (xw_proc w)}"
    using c by (fastforce simp: call_ok_def)
  moreover have "\<not> Running (xw_proc w) \<and> xw_launches w = 1"
    if "xw_calls w j \<in> {Some (WaitReturned r), Some (CloseReturned True)} \<and> r \<noteq> Fail ErrNotStarted" for j r
  proof -
    have "xw_child w = Reaped" using that c [of j] by (auto simp: call_ok_def)
    then show ?thesis using xray_running [OF ok] p by (auto simp: proc_ok_def)
  qed
  ultimately show ?thesis by blast
qed

text \<open>The child's fate once its context is cancelled before its exit is seen.\<close>

definition cancelled_clean :: "xray_world \<Rightarrow> bool" where
  "cancelled_clean w \<longleftrightarrow> xw_ctx w \<and> xp_waitErr (xw_proc w) = None \<and>
     (case xw_child w of NoChild \<Rightarrow> False | Collected e \<Rightarrow> e = None | _ \<Rightarrow> True)"

lemma cancelled_clean_step: "xray_step w w' \<Longrightarrow> xray_ok w \<Longrightarrow> cancelled_clean w \<Longrightarrow> cancelled_clean w'"
proof (induction rule: xray_step.induct)
  case (Start w i stat launch res w')
  from xray_Start_cases [OF Start(2)] show ?case
    using Start(4) xray_okD(1) [OF Start(3)] by (auto simp: cancelled_clean_def proc_ok_def)
qed (auto simp: cancelled_clean_def split: xray_child.splits)

lemma cancelled_clean_steps:
  "xray_step\<^sup>*\<^sup>* w w' \<Longrightarrow> xray_ok w \<Longrightarrow> cancelled_clean w \<Longrightarrow> cancelled_clean w'"
  by (induction rule: rtranclp_induct) (auto dest: cancelled_clean_step xray_steps_ok)

text \<open>C32: A shutdown is not a failure: once the child's context is cancelled while the child is alive, or
  before its exit is collected, every later Wait that waited returns without an error, whatever the
  child's exit status.\<close>

theorem xray_shutdown_clean:
  assumes reach: "xray_reach w" and ctx: "xw_ctx w" "xw_child w = Alive \<or> xw_child w = Exited e"
    and run: "xray_step\<^sup>*\<^sup>* w w'" and r: "xw_calls w' i = Some (WaitReturned r)" "r \<noteq> Fail ErrNotStarted"
  shows "r = Ok ()"
proof -
  note ok = xray_reach_ok [OF reach]
  have "xp_waitErr (xw_proc w) = None" using xray_okD(1) [OF ok] ctx(2) by (auto simp: proc_ok_def)
  then have "cancelled_clean w" using ctx by (auto simp: cancelled_clean_def)
  then have "cancelled_clean w'" by (rule cancelled_clean_steps [OF run ok])
  moreover have "call_ok w' (WaitReturned r)" by (rule xray_okD(2) [OF xray_steps_ok [OF run ok] r(1)])
  ultimately show ?thesis using r(2) by (auto simp: call_ok_def cancelled_clean_def wait_result_def)
qed

lemma xray_progress_reach: "xray_progress\<^sup>*\<^sup>* w w' \<Longrightarrow> xray_reach w \<Longrightarrow> xray_reach w'"
  by (induction rule: rtranclp_induct) (auto simp: xray_progress_def intro: xray_reach_step)


section \<open>The steps as a function\<close>

text \<open>Which call, the child or its goroutine makes the next step; the step itself is determined by that.\<close>

datatype xray_event = EvCall nat xray_call | EvRun nat | EvCancel | EvExit "string option" | EvReap

fun xray_next :: "xray_event \<Rightarrow> xray_world \<Rightarrow> xray_world option" where
  "xray_next (EvCall i c) w = (if xw_calls w i = None \<and> xray_call_start c then Some (set_call i c w) else None)"
| "xray_next (EvRun i) w =
     (case xw_calls w i of
        Some (StartCalled stat launch) \<Rightarrow> (case xray_Start stat launch w of (res, w') \<Rightarrow> Some (set_call i (StartReturned res) w'))
      | Some WaitCalled \<Rightarrow>
          Some (set_call i (if xp_done (xw_proc w) = None then WaitReturned (Fail ErrNotStarted) else WaitBlocked) w)
      | Some WaitBlocked \<Rightarrow> if xp_done (xw_proc w) = Some True then Some (set_call i WaitReady w) else None
      | Some WaitReady \<Rightarrow> Some (set_call i (WaitReturned (wait_result (xw_proc w))) w)
      | Some CloseCalled \<Rightarrow> Some (set_call i (if xp_cancel (xw_proc w) then CloseCancelling (xp_done (xw_proc w) \<noteq> None)
          else CloseReturned False) (w\<lparr>xw_proc := (xw_proc w)\<lparr>xp_cancel := False\<rparr>\<rparr>))
      | Some (CloseCancelling b) \<Rightarrow> Some (set_call i (if b then CloseBlocked else CloseReturned True) (w\<lparr>xw_ctx := True\<rparr>))
      | Some CloseBlocked \<Rightarrow> if xp_done (xw_proc w) = Some True then Some (set_call i (CloseReturned True) w) else None
      | _ \<Rightarrow> None)"
| "xray_next EvCancel w = (if xw_child w \<noteq> NoChild \<and> \<not> xw_ctx w then Some (w\<lparr>xw_ctx := True\<rparr>) else None)"
| "xray_next (EvExit e) w = (if xw_child w = Alive then Some (w\<lparr>xw_child := Exited e\<rparr>) else None)"
| "xray_next EvReap w =
     (case xw_child w of
        Exited e \<Rightarrow> Some (w\<lparr>xw_child := Collected (if xw_ctx w then None else e)\<rparr>)
      | Collected e \<Rightarrow> Some (w\<lparr>xw_child := Stored, xw_proc := (xw_proc w)\<lparr>xp_waitErr := e\<rparr>\<rparr>)
      | Stored \<Rightarrow> Some (w\<lparr>xw_child := Reaped, xw_proc := (xw_proc w)\<lparr>xp_done := Some True\<rparr>\<rparr>)
      | _ \<Rightarrow> None)"

fun xray_run :: "xray_event list \<Rightarrow> xray_world \<Rightarrow> xray_world option" where
  "xray_run [] w = Some w"
| "xray_run (ev # evs) w = Option.bind (xray_next ev w) (xray_run evs)"

lemma guarded_Some: "(if b then Some x else None) = Some y \<longleftrightarrow> b \<and> x = y" by simp

lemma xray_step_iff: "xray_step w w' \<longleftrightarrow> (\<exists>ev. xray_next ev w = Some w')"
proof
  assume "xray_step w w'"
  then show "\<exists>ev. xray_next ev w = Some w'"
  proof (cases rule: xray_step.cases)
    case (Call i c)
    then show ?thesis by (intro exI [of _ "EvCall i c"]) simp
  next
    case Cancel
    then show ?thesis by (intro exI [of _ EvCancel]) simp
  next
    case (Exit e)
    then show ?thesis by (intro exI [of _ "EvExit e"]) simp
  next
    case (Start i)
    then show ?thesis by (intro exI [of _ "EvRun i"]) simp
  next
    case (WaitLook i)
    then show ?thesis by (intro exI [of _ "EvRun i"]) simp
  next
    case (WaitWake i)
    then show ?thesis by (intro exI [of _ "EvRun i"]) simp
  next
    case (WaitRead i)
    then show ?thesis by (intro exI [of _ "EvRun i"]) simp
  next
    case (CloseTake i)
    then show ?thesis by (intro exI [of _ "EvRun i"]) simp
  next
    case (CloseCancel i)
    then show ?thesis by (intro exI [of _ "EvRun i"]) simp
  next
    case (CloseWake i)
    then show ?thesis by (intro exI [of _ "EvRun i"]) simp
  qed (intro exI [of _ EvReap], simp)+
next
  assume "\<exists>ev. xray_next ev w = Some w'"
  then obtain ev where "xray_next ev w = Some w'" by blast
  then show "xray_step w w'"
    by (cases ev) (auto simp: guarded_Some intro: xray_step.intros
      split: option.splits xray_call.splits xray_child.splits prod.splits split del: if_split)
qed

lemma xray_run_steps: "xray_run evs w = Some w' \<Longrightarrow> xray_step\<^sup>*\<^sup>* w w'"
proof (induction evs arbitrary: w)
  case (Cons ev evs)
  then obtain v where "xray_step w v" "xray_run evs v = Some w'" by (auto simp: bind_eq_Some_conv xray_step_iff)
  with Cons.IH show ?case by (simp add: converse_rtranclp_into_rtranclp)
qed simp

section \<open>A concrete run\<close>

text \<open>A child is started once, two calls wait for it, Close cancels it and the child is killed.\<close>

definition demo_start :: "xray_event list" where
  "demo_start = [EvCall 0 (StartCalled StatFile True), EvRun 0, EvCall 1 WaitCalled, EvRun 1, EvCall 2 WaitCalled, EvRun 2,
     EvCall 3 CloseCalled, EvRun 3, EvRun 3, EvCall 4 (StartCalled StatFile True), EvRun 4]"

definition demo_stop :: "xray_event list" where
  "demo_stop = [EvExit (Some ''signal: killed''), EvReap, EvReap, EvReap, EvRun 1, EvRun 1, EvRun 2, EvRun 2, EvRun 3]"

lemma demo_runs:
  obtains w w' where "xray_reach w" "xw_ctx w" "xw_child w = Alive" "xray_step\<^sup>*\<^sup>* w w'" "xray_reach w'"
    "xw_calls w' 0 = Some (StartReturned (Ok ()))" "xw_calls w' 4 = Some (StartReturned (Fail ErrAlreadyStarted))"
    "xw_calls w' 1 = Some (WaitReturned (wait_result (xw_proc w')))" "wait_result (xw_proc w') \<noteq> Fail ErrNotStarted"
    "xw_calls w' 3 = Some (CloseReturned True)"
proof -
  let ?f = "xray_fresh ''xray'' ''c.json''" and ?w = "\<lambda>P. (case xray_run demo_start (xray_fresh ''xray'' ''c.json'') of
    None \<Rightarrow> False | Some w \<Rightarrow> (case xray_run demo_stop w of None \<Rightarrow> False | Some w' \<Rightarrow> P w w'))"
  have "?w (\<lambda>w w'. xw_ctx w \<and> xw_child w = Alive \<and> xw_calls w' 0 = Some (StartReturned (Ok ())) \<and>
    xw_calls w' 4 = Some (StartReturned (Fail ErrAlreadyStarted)) \<and>
    xw_calls w' 1 = Some (WaitReturned (wait_result (xw_proc w'))) \<and> wait_result (xw_proc w') \<noteq> Fail ErrNotStarted \<and>
    xw_calls w' 3 = Some (CloseReturned True))" by code_simp
  then obtain w w' where w: "xray_run demo_start ?f = Some w" "xray_run demo_stop w = Some w'"
    and facts: "xw_ctx w" "xw_child w = Alive" "xw_calls w' 0 = Some (StartReturned (Ok ()))"
      "xw_calls w' 4 = Some (StartReturned (Fail ErrAlreadyStarted))"
      "xw_calls w' 1 = Some (WaitReturned (wait_result (xw_proc w')))" "wait_result (xw_proc w') \<noteq> Fail ErrNotStarted"
      "xw_calls w' 3 = Some (CloseReturned True)"
    by (auto split: option.splits)
  then have "xray_reach w" "xray_step\<^sup>*\<^sup>* w w'" "xray_reach w'"
    using xray_run_steps [OF w(1)] xray_run_steps [OF w(2)] by (auto simp: xray_reach_def intro: rtranclp_trans)
  with facts that show thesis by blast
qed

theorem xray_supervisor_consistent_witness:
  "\<exists>w j. xray_reach w \<and> xw_calls w j = Some (CloseReturned True) \<and> \<not> Running (xw_proc w) \<and> xw_launches w = 1"
  by (rule demo_runs) (use xray_supervisor_consistent in blast)

theorem xray_shutdown_clean_witness:
  "\<exists>w w'. xray_reach w \<and> xw_child w = Alive \<and> xray_step\<^sup>*\<^sup>* w w' \<and> xw_calls w' 1 = Some (WaitReturned (Ok ()))"
proof -
  obtain w w' where w: "xray_reach w" "xw_ctx w" "xw_child w = Alive" "xray_step\<^sup>*\<^sup>* w w'"
    "xw_calls w' 1 = Some (WaitReturned (wait_result (xw_proc w')))" "wait_result (xw_proc w') \<noteq> Fail ErrNotStarted"
    by (rule demo_runs)
  have "wait_result (xw_proc w') = Ok ()" by (rule xray_shutdown_clean [OF w(1,2) disjI1 [OF w(3)] w(4-6)])
  with w show ?thesis by metis
qed


end
