(* ===== verification/ClientRun.thy ===== *)
theory ClientRun
  imports ClientMain XrayProcess
begin

text \<open>
  The client program as a whole, \<open>run\<close> of \<open>cmd/client/main.go\<close>: start-up stage by stage, what is
  acquired and deferred on the way, and the select that ends the program. What the surroundings answer
  is one record.
\<close>

section \<open>Start-up\<close>

text \<open>What has to be released, and the calls deferred so far, the last one first.\<close>

datatype run_resource = StatusServer | TempProfile | XrayChild

record run_state =
  rs_tracker :: health_tracker
  rs_live :: "run_resource set"
  rs_defers :: "run_resource list"

text \<open>
  What the status server's channel delivers once serving has ended; being closed is not an error.
\<close>

datatype serve_error = ServerClosed | ServeFailed string

definition startStatusServer :: "bool \<Rightarrow> serve_error \<Rightarrow> (client_error, string option) result" where
  "startStatusServer listen err =
     (if \<not> listen then Fail ErrStatusListen
      else Ok (case err of ServerClosed \<Rightarrow> None | ServeFailed x \<Rightarrow> Some x))"

record run_env =
  re_register :: "registration_view http_reply"
  re_started :: time
  re_listen :: bool
  re_serve :: serve_error
  re_quote :: "string \<Rightarrow> string"
  re_lookup :: "string \<Rightarrow> addr list option"
  re_urlHost :: "string option"
  re_relayHost :: "string option"
  re_source :: "json option option"
  re_temp :: temp_env
  re_tempPath :: string
  re_stat :: file_stat
  re_test :: "string option"
  re_launch :: bool
  re_text :: "process_error \<Rightarrow> string" \<comment> \<open>the text of an error\<close>

definition acquire :: "run_resource \<Rightarrow> run_state \<Rightarrow> run_state" where
  "acquire r s = s\<lparr>rs_live := insert r (rs_live s)\<rparr>"

definition defer_release :: "run_resource \<Rightarrow> run_state \<Rightarrow> run_state" where
  "defer_release r s = s\<lparr>rs_defers := r # rs_defers s\<rparr>"

text \<open>Returning runs the deferred calls.\<close>

definition run_defers :: "run_state \<Rightarrow> run_state" where
  "run_defers s = s\<lparr>rs_live := rs_live s - set (rs_defers s), rs_defers := []\<rparr>"

definition status_stage :: "client_flags \<Rightarrow> run_env \<Rightarrow> run_state \<Rightarrow> (client_error, unit) result \<times> run_state" where
  "status_stage f e s =
     (if TrimSpace (cf_statusListen f) = '''' then (Ok (), s)
      else case startStatusServer (re_listen e) (re_serve e) of
        Fail x \<Rightarrow> (Fail x, s)
      | Panic \<Rightarrow> (Panic, s)
      | Ok _ \<Rightarrow> (Ok (), defer_release StatusServer (acquire StatusServer s)))"

definition tunnel_stage ::
    "client_flags \<Rightarrow> run_env \<Rightarrow> registration_view \<Rightarrow> run_state \<Rightarrow> (client_error, unit) result \<times> run_state" where
  "tunnel_stage f e reg s =
     (if \<not> cf_fullTunnel f then (Ok (), s)
      else case fullTunnelOptions f reg (re_lookup e) (re_urlHost e) (re_relayHost e) of
        Fail x \<Rightarrow> (Fail x, s)
      | Panic \<Rightarrow> (Panic, s)
      | Ok opts \<Rightarrow>
        (let (res, present) = WriteFullTunnelConfig (re_quote e) (re_source e) (re_temp e) opts;
             s = (if present then acquire TempProfile s else s)
         in case res of
              Fail x \<Rightarrow> (Fail (XrayProfile x), s)
            | Panic \<Rightarrow> (Panic, s)
            | Ok _ \<Rightarrow> (Ok (), defer_release TempProfile s)))"

text \<open>The first \<open>Start\<close> of a fresh process, on the generated profile or the given configuration.\<close>

definition xray_stage :: "client_flags \<Rightarrow> run_env \<Rightarrow> string \<Rightarrow> run_state \<Rightarrow> (client_error, unit) result \<times> run_state" where
  "xray_stage f e binary s =
     (if TrimSpace (cf_xrayConfig f) = '''' then (Ok (), s)
      else let p = NewProcess binary (if cf_fullTunnel f then re_tempPath e else cf_xrayConfig f); failed = (\<lambda>x. (Fail (ErrXray (re_text e x)), s\<lparr>rs_tracker := SetXray StateFailed (Some (re_text e x)) (rs_tracker s)\<rparr>))
      in case Validate (re_stat e) (re_test e) p of
        Fail x \<Rightarrow> failed x
      | Panic \<Rightarrow> (Panic, s)
      | Ok _ \<Rightarrow>
        (case fst (xray_Start (re_stat e) (re_launch e) (xray_world_of p)) of
           Fail x \<Rightarrow> failed x
         | Panic \<Rightarrow> (Panic, s)
         | Ok _ \<Rightarrow> (Ok (), defer_release XrayChild (acquire XrayChild s\<lparr>rs_tracker := SetXray StateRunning None (rs_tracker s)\<rparr>))))"

text \<open>Stages in sequence, each run only if the one before succeeded.\<close>

definition and_then ::
    "('e, unit) result \<times> 's \<Rightarrow> ('s \<Rightarrow> ('e, unit) result \<times> 's) \<Rightarrow> ('e, unit) result \<times> 's" where
  "and_then r k = (case r of (Ok _, s) \<Rightarrow> k s | (Fail e, s) \<Rightarrow> (Fail e, s) | (Panic, s) \<Rightarrow> (Panic, s))"

section \<open>The select\<close>

text \<open>What the select received; an error is its text, \<open>None\<close> the nil error.\<close>

datatype run_event =
    EvShutdown
  | EvHeartbeat "string option"
  | EvTun "string option"
  | EvXray "string option"
  | EvStatus "string option"

text \<open>\<open>stopped\<close> is whether the context is cancelled by then, as it is when its channel is chosen.\<close>

definition run_select :: "client_flags \<Rightarrow> bool \<Rightarrow> run_event \<Rightarrow> run_state \<Rightarrow> (client_error, unit) result \<times> run_state" where
  "run_select f stopped ev s =
     (let ended = (\<lambda>x. if stopped then Ok () else Fail x); t = rs_tracker s in
      case ev of
        EvShutdown \<Rightarrow>
          (Ok (), s\<lparr>rs_tracker :=
            (let t = (if cf_tun f then SetMesh StateStopped None t else t)
             in if TrimSpace (cf_xrayConfig f) \<noteq> '''' then SetXray StateStopped None t else t)\<rparr>)
      | EvHeartbeat (Some x) \<Rightarrow> (Fail (ErrHeartbeat x), s)
      | EvHeartbeat None \<Rightarrow> (ended ErrHeartbeatExited, s)
      | EvTun (Some x) \<Rightarrow> (Fail (ErrTUN x), s\<lparr>rs_tracker := SetMesh StateFailed (Some x) t\<rparr>)
      | EvTun None \<Rightarrow> (ended ErrTUNExited, s\<lparr>rs_tracker := SetMesh StateStopped None t\<rparr>)
      | EvXray (Some x) \<Rightarrow> (Fail (ErrXray x), s\<lparr>rs_tracker := SetXray StateFailed (Some x) t\<rparr>)
      | EvXray None \<Rightarrow> (ended ErrXrayExited, s\<lparr>rs_tracker := SetXray StateStopped None t\<rparr>)
      | EvStatus (Some x) \<Rightarrow> (Fail ErrStatusServer, s)
      | EvStatus None \<Rightarrow> (ended ErrStatusExited, s))"

text \<open>\<open>ready\<close> is whether \<open>runTUN\<close> has reported the mesh interface up before the event.\<close>

definition serve :: "client_flags \<Rightarrow> bool \<Rightarrow> bool \<Rightarrow> run_event \<Rightarrow> run_state \<Rightarrow> (client_error, unit) result \<times> run_state" where
  "serve f ready stopped ev s =
     (if \<not> cf_tun f \<and> TrimSpace (cf_xrayConfig f) = '''' then (Ok (), s)
      else run_select f stopped ev
        (if cf_tun f \<and> ready then s\<lparr>rs_tracker := SetMesh StateRunning None (rs_tracker s)\<rparr> else s))"

definition run_start :: "client_flags \<Rightarrow> run_env \<Rightarrow> registration_view \<Rightarrow> run_state" where
  "run_start f e reg = \<lparr>rs_tracker = NewTracker (rv_NodeID reg) (rv_VirtualIP reg) (rv_NetworkPrefix reg) (cf_tun f)
     (TrimSpace (cf_xrayConfig f) \<noteq> []) (re_started e), rs_live = {}, rs_defers = []\<rparr>"

definition run_stages ::
    "client_flags \<Rightarrow> run_env \<Rightarrow> string \<Rightarrow> bool \<Rightarrow> bool \<Rightarrow> run_event \<Rightarrow> registration_view
     \<Rightarrow> (client_error, unit) result \<times> run_state" where
  "run_stages f e binary ready stopped ev reg =
     and_then (and_then (and_then (status_stage f e (run_start f e reg)) (tunnel_stage f e reg)) (xray_stage f e binary))
       (serve f ready stopped ev)"

text \<open>The state is \<open>None\<close> while there is no tracker yet.\<close>

definition clientRun ::
    "client_flags \<Rightarrow> run_env \<Rightarrow> string \<Rightarrow> bool \<Rightarrow> bool \<Rightarrow> run_event \<Rightarrow> (client_error, unit) result \<times> run_state option" where
  "clientRun f e binary ready stopped ev =
     (case rbind (checkClientFlags f) (\<lambda>_. register (re_register e)) of
        Fail x \<Rightarrow> (Fail x, None)
      | Panic \<Rightarrow> (Panic, None)
      | Ok reg \<Rightarrow>
        (let (res, s) = run_stages f e binary ready stopped ev reg in (res, Some (run_defers s))))"

section \<open>What a run leaves behind\<close>

text \<open>
  Kept by every stage: everything acquired is deferred, the tracker knows what is enabled, and a failure
  of a service is recorded in it.
\<close>

definition run_ok :: "client_flags \<Rightarrow> (client_error, unit) result \<Rightarrow> run_state \<Rightarrow> bool" where
  "run_ok f res s \<longleftrightarrow> rs_live s \<subseteq> set (rs_defers s) \<and>
     ss_Enabled (ht_Mesh (rs_tracker s)) = cf_tun f \<and>
     ss_Enabled (ht_Xray (rs_tracker s)) = (TrimSpace (cf_xrayConfig f) \<noteq> '''') \<and>
     (\<forall>x. res = Fail (ErrTUN x) \<longrightarrow> cf_tun f \<and> ss_State (ht_Mesh (rs_tracker s)) = StateFailed \<and> ss_Error (ht_Mesh (rs_tracker s)) = x) \<and>
     (\<forall>x. res = Fail (ErrXray x) \<longrightarrow> TrimSpace (cf_xrayConfig f) \<noteq> '''' \<and> ss_State (ht_Xray (rs_tracker s)) = StateFailed \<and>
        ss_Error (ht_Xray (rs_tracker s)) = x)"

lemma tracker_error [simp]:
  "ss_Error (ht_Mesh (SetMesh st (Some x) t)) = x" "ss_Error (ht_Xray (SetXray st (Some x) t)) = x"
  by (simp_all add: SetMesh_def SetXray_def setService_def)

lemma resource_simps [simp]:
  "rs_tracker (acquire r s) = rs_tracker s" "rs_tracker (defer_release r s) = rs_tracker s"
  "rs_live (acquire r s) = insert r (rs_live s)" "rs_live (defer_release r s) = rs_live s"
  "rs_defers (acquire r s) = rs_defers s" "rs_defers (defer_release r s) = r # rs_defers s"
  by (simp_all add: acquire_def defer_release_def)

lemma resolveHostIPv4_error:
  "resolveHostIPv4 lookup host \<noteq> Fail (ErrTUN x)" "resolveHostIPv4 lookup host \<noteq> Fail (ErrXray x)"
  by (auto simp: resolveHostIPv4_def Let_def split: option.splits)

lemma fullTunnelOptions_error:
  "fullTunnelOptions f reg lookup u r \<noteq> Fail (ErrTUN x)" "fullTunnelOptions f reg lookup u r \<noteq> Fail (ErrXray x)"
  by (auto simp: fullTunnelOptions_def resolveProtectedPrefixes_def rbind_Fail_iff of_option_def resolveHostIPv4_error
    split: if_splits option.splits)

lemma and_then_ok:
  assumes "run_ok f res s" "\<And>s. run_ok f (Ok ()) s \<Longrightarrow> case k s of (res, s) \<Rightarrow> run_ok f res s"
    "and_then (res, s) k = (res', s')"
  shows "run_ok f res' s'"
  using assms(1,3) assms(2) [of s] by (cases res) (auto simp: and_then_def)

lemma status_stage_ok: "run_ok f (Ok ()) s \<Longrightarrow> case status_stage f e s of (res, s) \<Rightarrow> run_ok f res s"
  by (auto simp: status_stage_def startStatusServer_def run_ok_def)

lemma tunnel_stage_ok:
  assumes "run_ok f (Ok ()) s" shows "case tunnel_stage f e reg s of (res, s) \<Rightarrow> run_ok f res s"
proof (cases "fullTunnelOptions f reg (re_lookup e) (re_urlHost e) (re_relayHost e)")
  case (Ok opts)
  obtain res present where w: "WriteFullTunnelConfig (re_quote e) (re_source e) (re_temp e) opts = (res, present)" by fastforce
  from WriteFullTunnelConfig_cases [OF w] assms Ok w show ?thesis
    by (cases res) (auto simp: tunnel_stage_def run_ok_def)
next
  case (Fail x)
  then show ?thesis using assms fullTunnelOptions_error [of f reg "re_lookup e" "re_urlHost e" "re_relayHost e"]
    by (auto simp: tunnel_stage_def run_ok_def)
qed (use assms in \<open>simp_all add: tunnel_stage_def run_ok_def\<close>)

lemma xray_stage_ok: "run_ok f (Ok ()) s \<Longrightarrow> case xray_stage f e b s of (res, s) \<Rightarrow> run_ok f res s"
  by (auto simp: xray_stage_def run_ok_def Let_def split: result.splits)

text \<open>What the select can receive: a cancelled context, or a channel that was made.\<close>

definition event_possible :: "client_flags \<Rightarrow> bool \<Rightarrow> run_event \<Rightarrow> bool" where
  "event_possible f stopped ev \<longleftrightarrow>
     (case ev of EvShutdown \<Rightarrow> stopped | EvTun _ \<Rightarrow> cf_tun f | EvXray _ \<Rightarrow> TrimSpace (cf_xrayConfig f) \<noteq> '''' | _ \<Rightarrow> True)"

lemma serve_ok:
  "event_possible f stopped ev \<Longrightarrow> run_ok f (Ok ()) s \<Longrightarrow> case serve f ready stopped ev s of (res, s) \<Rightarrow> run_ok f res s"
  by (auto simp: serve_def run_select_def run_ok_def event_possible_def Let_def split: run_event.splits option.splits)

lemma run_stages_ok:
  assumes "event_possible f stopped ev"
  shows "case run_stages f e binary ready stopped ev reg of (res, s) \<Rightarrow> run_ok f res s"
proof -
  have start: "run_ok f (Ok ()) (run_start f e reg)" by (simp add: run_ok_def run_start_def NewTracker_def initialService_def)
  obtain r1 s1 where 1: "status_stage f e (run_start f e reg) = (r1, s1)" by fastforce
  obtain r2 s2 where 2: "and_then (r1, s1) (tunnel_stage f e reg) = (r2, s2)" by fastforce
  obtain r3 s3 where 3: "and_then (r2, s2) (xray_stage f e binary) = (r3, s3)" by fastforce
  obtain r4 s4 where 4: "and_then (r3, s3) (serve f ready stopped ev) = (r4, s4)" by fastforce
  have "run_ok f r1 s1" using status_stage_ok [OF start, of e] 1 by simp
  then have "run_ok f r2 s2" by (rule and_then_ok [OF _ tunnel_stage_ok 2])
  then have "run_ok f r3 s3" by (rule and_then_ok [OF _ xray_stage_ok 3])
  then have "run_ok f r4 s4" by (rule and_then_ok [OF _ serve_ok [OF assms] 4])
  then show ?thesis by (simp add: run_stages_def 1 2 3 4)
qed

lemma and_then_Ok: "and_then r k = (Ok (), s') \<longleftrightarrow> (\<exists>s. r = (Ok (), s) \<and> k s = (Ok (), s'))"
  by (auto simp: and_then_def split: prod.splits result.splits)

lemma serve_Ok:
  "event_possible f stopped ev \<Longrightarrow> serve f ready stopped ev s = (Ok (), s') \<Longrightarrow>
    stopped \<or> \<not> cf_tun f \<and> TrimSpace (cf_xrayConfig f) = ''''"
  by (auto simp: serve_def run_select_def event_possible_def Let_def split: if_splits run_event.splits option.splits)


definition sample_run_flags :: client_flags where
  "sample_run_flags = sample_tunnel_flags\<lparr>cf_fullTunnel := False, cf_statusListen := '':8670''\<rparr>"

definition sample_run_env :: run_env where
  "sample_run_env = \<lparr>re_register = HttpReply 200 (Some \<lparr>rv_NodeID = ''n1'', rv_VirtualIP = ''10.66.0.2'',
       rv_NetworkPrefix = ''10.66.0.0/24'', rv_SessionToken = ''t'', rv_HeartbeatIntervalSeconds = 10, rv_LeaseTTLSeconds = 30\<rparr>),
     re_started = 0, re_listen = True, re_serve = ServerClosed, re_quote = (\<lambda>s. s), re_lookup = (\<lambda>_. None), re_urlHost = None, re_relayHost = None,
     re_source = None, re_temp = \<lparr>tf_create = True, tf_chmod = True, tf_write = True, tf_close = True\<rparr>, re_tempPath = '''',
     re_stat = StatFile, re_test = None, re_launch = True, re_text = (\<lambda>_. '''')\<rparr>"


end
