(* ===== verification/ClientTypes.thy ===== *)
theory ClientTypes
  imports ClientPaths
begin

text \<open>
  Types of the maps of the client runtime (\<open>p2pRuntime\<close> of \<open>cmd/client/p2p_runtime.go\<close> and its selector):
  which key an entry stands under and what is known of it, kept by every operation.
\<close>

section \<open>Maps whose entries fit their keys\<close>

definition map_ok :: "('k \<Rightarrow> 'v \<Rightarrow> bool) \<Rightarrow> ('k \<rightharpoonup> 'v) \<Rightarrow> bool" where
  "map_ok P m \<longleftrightarrow> (\<forall>k v. m k = Some v \<longrightarrow> P k v)"

lemma map_ok_Empty [simp]: "map_ok P Map.empty"
  by (simp add: map_ok_def)

lemma map_okD: "map_ok P m \<Longrightarrow> m k = Some v \<Longrightarrow> P k v"
  by (simp add: map_ok_def)

lemma map_ok_upd [intro]: "map_ok P m \<Longrightarrow> P k v \<Longrightarrow> map_ok P (m(k \<mapsto> v))"
  by (simp add: map_ok_def)

lemma map_ok_delete [intro]: "map_ok P m \<Longrightarrow> map_ok P (m(k := None))"
  by (simp add: map_ok_def)

lemma map_ok_delete_where [intro]: "map_ok P m \<Longrightarrow> map_ok P (delete_where Q m)"
  by (simp add: map_ok_def)

lemma map_ok_add [intro]: "map_ok P m \<Longrightarrow> map_ok P n \<Longrightarrow> map_ok P (m ++ n)"
  by (auto simp: map_ok_def map_add_Some_iff)

lemma map_ok_collect:
  "map_ok P m \<Longrightarrow> (\<And>v. v \<in> set vs \<Longrightarrow> P (key v) v) \<Longrightarrow> map_ok P (foldl (\<lambda>m v. m(key v \<mapsto> v)) m vs)"
proof (induction vs arbitrary: m)
  case (Cons v vs)
  then have "map_ok P (m(key v \<mapsto> v))" by (intro map_ok_upd) simp_all
  with Cons.IH Cons.prems(2) show ?case by (simp del: fun_upd_apply)
qed simp

lemma map_ok_values: "map_ok P m \<Longrightarrow> v \<in> set (range_values m ord) \<Longrightarrow> \<exists>k. P k v"
  using range_values_from [of v m ord] by (auto simp: map_ok_def)

section \<open>The types\<close>

text \<open>A ticket is filed under its identifier; a candidate under its node, which is another node and has
  an endpoint; a pending probe under its nonce, and it is the probe its ticket and nonce determine, sent
  by the ticket's source to the ticket's target; a request for a ticket was for a node with a greater
  name.\<close>

definition ticket_entry :: "string \<Rightarrow> probe_ticket \<Rightarrow> bool" where
  "ticket_entry tid t \<longleftrightarrow> TicketIdentifier t = Ok tid"

definition candidate_entry :: "string \<Rightarrow> string \<Rightarrow> candidate \<Rightarrow> bool" where
  "candidate_entry own n c \<longleftrightarrow> cd_NodeID c = n \<and> n \<noteq> '''' \<and> n \<noteq> own \<and> TrimSpace (cd_Endpoint c) \<noteq> ''''"

definition pending_entry :: "string \<Rightarrow> string \<Rightarrow> pending_probe \<Rightarrow> bool" where
  "pending_entry own nonce p \<longleftrightarrow> hex_of_length 16 nonce \<and> newProbeWithNonce (pp_ticket p) nonce = Ok (pp_probe p) \<and>
     pt_SourceNode (pp_ticket p) = own \<and> pp_target p = pt_TargetNode (pp_ticket p)"

definition direct_entry :: "string \<Rightarrow> direct_state \<Rightarrow> bool" where
  "direct_entry n d \<longleftrightarrow> TrimSpace n = n \<and> n \<noteq> '''' \<and> ParseAddrPort (di_endpoint d) \<noteq> None"

definition runtime_typed :: "p2p_runtime \<Rightarrow> bool" where
  "runtime_typed r \<longleftrightarrow> map_ok ticket_entry (rt_tickets r) \<and>
     map_ok (candidate_entry (rt_nodeID r)) (rt_candidates r) \<and>
     map_ok (pending_entry (rt_nodeID r)) (rt_pending r) \<and>
     map_ok (\<lambda>n _. rt_nodeID r < n) (rt_lastIssued r) \<and>
     map_ok direct_entry (se_direct (rt_selector r))"

lemma newP2PRuntime_typed: "runtime_typed (newP2PRuntime server reg relay k)"
  by (simp add: runtime_typed_def newP2PRuntime_def NewSelector_def)

section \<open>The selector\<close>

lemma SelectPath_typed [inv_intros]:
  "map_ok direct_entry (se_direct s) \<Longrightarrow> map_ok direct_entry (se_direct (snd (SelectPath t s n)))"
  by (auto simp: SelectPath_def split: option.split)

lemma MarkDirectFailed_typed [inv_intros]:
  "map_ok direct_entry (se_direct s) \<Longrightarrow> map_ok direct_entry (se_direct (MarkDirectFailed s n))"
  by (auto simp: MarkDirectFailed_def)

lemma MarkDirectHealthy_typed [inv_intros]:
  "map_ok direct_entry (se_direct s) \<Longrightarrow>
     map_ok direct_entry (se_direct (fst (snd (MarkDirectHealthy clock s k n ep t))))"
  by (auto simp: MarkDirectHealthy_eq mark_ok_def direct_entry_def intro!: map_ok_upd)

section \<open>The runtime's operations\<close>

text \<open>An operation that changes only the paths keeps the types if it keeps those of what it changes.\<close>

lemma only_paths_typed:
  assumes "only_paths r r'" "runtime_typed r"
    and "map_ok (pending_entry (rt_nodeID r)) (rt_pending r')" "map_ok direct_entry (se_direct (rt_selector r'))"
  shows "runtime_typed r'"
  using assms by (simp add: only_paths_def runtime_typed_def)

lemma pending_typed:
  "runtime_typed r \<Longrightarrow> map_ok (pending_entry (rt_nodeID r)) P \<Longrightarrow> runtime_typed (r\<lparr>rt_pending := P\<rparr>)"
  by (simp add: runtime_typed_def)

lemma selector_typed:
  "runtime_typed r \<Longrightarrow> map_ok direct_entry (se_direct S) \<Longrightarrow> runtime_typed (r\<lparr>rt_selector := S\<rparr>)"
  by (simp add: runtime_typed_def)

lemma typed_parts:
  assumes "runtime_typed r"
  shows "map_ok (pending_entry (rt_nodeID r)) (rt_pending r)" "map_ok direct_entry (se_direct (rt_selector r))"
  using assms by (simp_all add: runtime_typed_def)

lemma mark_healthy_typed [inv_intros]: "runtime_typed r \<Longrightarrow> runtime_typed (snd (mark_healthy clock r n s t))"
  using MarkDirectHealthy_typed [of "rt_selector r" clock "rt_counters r" n "udp_String s" t]
  by (intro only_paths_typed [OF mark_healthy_frame])
     (auto simp: runtime_typed_def mark_healthy_def split: prod.split)

lemma HandleAck_typed [inv_intros]: "runtime_typed r \<Longrightarrow> runtime_typed (snd (HandleAck clock r f now s))"
  by (auto simp: HandleAck_def split: option.split result.split
      intro!: mark_healthy_typed pending_typed map_ok_delete typed_parts)

lemma HandleDatagram_typed [inv_intros]:
  "runtime_typed r \<Longrightarrow> runtime_typed (fst (snd (HandleDatagram clock r data s now wr)))"
  using HandleAck_typed [of r clock _ now s]
  by (auto simp: HandleDatagram_def split: result.split option.split prod.split) (metis snd_conv)

lemma replaceTickets_typed [inv_intros]: "runtime_typed r \<Longrightarrow> runtime_typed (replaceTickets r ts now)"
  by (auto simp: runtime_typed_def replaceTickets_def Let_def)
     (auto simp: map_ok_def map_add_Some_iff ticket_entry_def dest: next_tickets_ok)

lemma replaceCandidates_typed [inv_intros]: "runtime_typed r \<Longrightarrow> runtime_typed (replaceCandidates r cs now)"
  by (auto simp: runtime_typed_def replaceCandidates_def candidate_entry_def keep_candidate_def intro!: map_ok_collect)

lemma issue_loop_typed [inv_intros]:
  "runtime_typed r \<Longrightarrow> runtime_typed (fst (snd (issue_loop ts li now post cs r)))"
proof (induction cs arbitrary: r)
  case (Cons c cs)
  have "runtime_typed (r\<lparr>rt_tickets := (rt_tickets r)(tid \<mapsto> t), rt_lastIssued := (rt_lastIssued r)(cd_NodeID c \<mapsto> now)\<rparr>)"
    if "\<not> cd_NodeID c \<le> rt_nodeID r" "TicketIdentifier t = Ok tid" for t tid
    using Cons.prems that by (auto simp: runtime_typed_def ticket_entry_def)
  note new = Cons.IH [OF this]
  show ?case
    using new Cons.IH [OF Cons.prems] Cons.prems
    by (auto simp: Let_def split_beta split: result.split option.split)
       (auto simp: rbind_Ok_iff split: option.splits dest!: map_err_simps(1) [THEN iffD1])
qed simp

lemma sendProbe_typed [inv_intros]:
  assumes "runtime_typed r" "pt_SourceNode t = rt_nodeID r"
  shows "runtime_typed (fst (snd (sendProbe r t c rnd resolve wr now)))"
proof -
  have "pending_entry (rt_nodeID r) (pf_Nonce g) \<lparr>pp_probe = g, pp_ticket = t, pp_target = pt_TargetNode t, pp_sentAt = now\<rparr>"
    if new: "NewProbe t rnd = Ok g" for g
  proof -
    obtain bs where "newProbeWithNonce t (hex_encode bs) = Ok g"
      using new by (auto simp: NewProbe_def split: if_splits option.splits)
    moreover from this have "pf_Nonce g = hex_encode bs" "hex_of_length 16 (pf_Nonce g)"
      by (auto simp: newProbeWithNonce_Ok signed_frame_def probe_of_def validateProbeShape_def split: if_splits)
    ultimately show ?thesis using assms(2) by (simp add: pending_entry_def)
  qed
  then show ?thesis
    using assms(1)
    by (auto simp: sendProbe_def Let_def split: result.split option.split
        intro!: pending_typed map_ok_upd map_ok_delete typed_parts)
qed

lemma probe_loop_typed [inv_intros]:
  "runtime_typed r \<Longrightarrow> list_all (\<lambda>(t, c). pt_SourceNode t = rt_nodeID r) ps \<Longrightarrow>
     runtime_typed (fst (probe_loop rnd resolve wr clock n ps r))"
proof (induction ps arbitrary: n r)
  case (Cons p ps)
  obtain t c where p: "p = (t, c)" by fastforce
  have "runtime_typed (fst (snd (sendProbe r t c (rnd n) resolve (wr n) (clock n))))"
    using Cons.prems by (intro sendProbe_typed) (simp_all add: p)
  moreover have "rt_nodeID (fst (snd (sendProbe r t c (rnd n) resolve (wr n) (clock n)))) = rt_nodeID r"
    using sendProbe_frame [of r t c] by (simp add: only_paths_def)
  ultimately show ?case
    using Cons.IH Cons.prems by (simp add: p split_beta)
qed simp

lemma probe_pairs_own: "list_all (\<lambda>(t, c). pt_SourceNode t = rt_nodeID r) (probe_pairs r now ord)"
  by (auto simp: probe_pairs_def list_all_iff split: if_splits option.splits)

lemma sendProbes_typed [inv_intros]:
  "runtime_typed r \<Longrightarrow> runtime_typed (fst (sendProbes r now ord rnd resolve wr clock))"
  by (simp add: sendProbes_def probe_loop_typed probe_pairs_own)

lemma runPollCycle_typed [inv_intros]: "runtime_typed r \<Longrightarrow> runtime_typed (fst (runPollCycle e r))"
  by (cases "pe_times e")
     (auto simp: runPollCycle_def Let_def split_beta issueNeededTickets_def split: option.split intro!: inv_intros)

lemma SendDirectPayload_typed [inv_intros]:
  "runtime_typed r \<Longrightarrow> runtime_typed (fst (snd (SendDirectPayload r ordC ordT resolve rnd wr now clock dst payload)))"
  by (auto simp: SendDirectPayload_def runtime_typed_def count_fallback_def Let_def split_beta
      split: option.split selection.split result.split intro!: inv_intros)

lemma acceptDirectReplayKey_typed:
  "runtime_typed r \<Longrightarrow> acceptDirectReplayKey r key e now = (b, r1) \<Longrightarrow> runtime_typed r1"
  by (auto simp: acceptDirectReplayKey_def runtime_typed_def Let_def split: if_splits)

lemma HandleDirectPayload_typed [inv_intros]:
  assumes "runtime_typed r"
  shows "runtime_typed (snd (HandleDirectPayload clock r data src local now))"
proof -
  have counted: "runtime_typed (q\<lparr>rt_counters := k\<rparr>) = runtime_typed q" for q k
    by (simp add: runtime_typed_def)
  have "runtime_typed r2" if "acceptDirectReplayKey r key e now = (b, r1)" "mark_healthy clock r1 s src now = (res, r2)"
    for key e b r1 s res r2
    using mark_healthy_typed [OF acceptDirectReplayKey_typed [OF assms that(1)], of clock s src now] that(2) by simp
  then show ?thesis
    using assms acceptDirectReplayKey_typed [OF assms]
    by (auto simp: HandleDirectPayload_def counted split: result.split option.split prod.split bool.split)
qed

lemma runtime_step_typed: "runtime_typed r \<Longrightarrow> runtime_typed (runtime_step r ev)"
  by (cases ev) (auto intro!: inv_intros selector_typed typed_parts)

section \<open>Sequences of operations\<close>

lemma runtime_run_typed: "runtime_typed r \<Longrightarrow> runtime_typed (runtime_run r evs)"
  by (induction evs arbitrary: r) (auto intro: runtime_step_typed)

lemma runtime_step_nodeID: "rt_nodeID (runtime_step r ev) = rt_nodeID r"
proof (cases ev)
  case (EvPoll e)
  obtain t1 t2 t3 t4 where t: "pe_times e = (t1, t2, t3, t4)" by (metis prod_cases4)
  have 1: "rt_nodeID (fst (snd (issueNeededTickets q n oc ot post))) = rt_nodeID q" for q n oc ot post
    using issueNeededTickets_frame [of q n oc ot post] by (simp add: only_tickets_def)
  have 2: "rt_nodeID (fst (sendProbes q n od rnd res wr ck)) = rt_nodeID q" for q n od rnd res wr ck
    using probe_loop_frame [of q] by (simp add: sendProbes_def only_paths_def)
  have 3: "rt_nodeID (replaceTickets q ts n) = rt_nodeID q" "rt_nodeID (replaceCandidates q cs n) = rt_nodeID q" for q ts cs n
    by (simp_all add: replaceTickets_def replaceCandidates_def Let_def)
  show ?thesis
    by (simp add: EvPoll runPollCycle_def t Let_def split_beta 1 2 3 split: option.split)
next
  case (EvDatagram clock data source t wr)
  then show ?thesis using HandleDatagram_frame [of r clock data source t wr] by (simp add: only_paths_def)
next
  case (EvDirect clock data source local t)
  then show ?thesis
    by (cases "HandleDirectPayload clock r data source local t") (simp add: HandleDirectPayload_frame(3))
next
  case (EvSend ordC ordT resolve rnd wr t clock dst payload)
  then show ?thesis using SendDirectPayload_frame [of r ordC ordT resolve rnd wr t clock dst payload]
    by (simp add: only_paths_def)
qed simp

text \<open>C27: The client runtime's maps are typed by their keys, whatever the coordinator answers and whatever
  the network brings: every ticket stands under its own identifier, every candidate under its node, which
  is never the client itself and has an endpoint, every pending probe under its nonce and is exactly the
  probe that its ticket and nonce determine, issued by this client and attributed to its ticket's target,
  every request noted was for a node with a greater name, and every direct path stands under a trimmed,
  non-empty node with an endpoint that parses.\<close>

theorem client_runtime_typed:
  "runtime_typed (runtime_run (newP2PRuntime server reg relay k) evs) \<and>
   rt_nodeID (runtime_run (newP2PRuntime server reg relay k) evs) = rv_NodeID reg"
proof
  show "runtime_typed (runtime_run (newP2PRuntime server reg relay k) evs)"
    by (intro runtime_run_typed newP2PRuntime_typed)
  have "rt_nodeID (runtime_run r evs) = rt_nodeID r" for r
    by (induction evs arbitrary: r) (simp_all add: runtime_step_nodeID)
  then show "rt_nodeID (runtime_run (newP2PRuntime server reg relay k) evs) = rv_NodeID reg"
    by (simp add: newP2PRuntime_def)
qed

end
