(* ===== verification/ServerApi.thy ===== *)
theory ServerApi
  imports RelayServer P2PTickets P2PSelector
begin

text \<open>
  The coordinator process, \<open>cmd/server/main.go\<close>: checking the flags, the HTTP handlers, and the
  sweeper that expires leases. A handler takes the value of the \<open>Authorization\<close> header and the
  outcome of decoding the request body (\<open>None\<close> when the JSON decoder fails), and returns a reply
  and the new state. Map iteration orders, clock readings and random bytes are arguments.
\<close>

section \<open>State\<close>

record coordinator =
  co_registry :: registry
  co_relay :: relay
  co_tickets :: "ticket_manager option"
  co_heartbeatInterval :: duration
  co_leaseTTL :: duration

datatype api_error =
    InvalidJSON
  | InvalidSession
  | TicketsUnavailable
  | TargetNodeRequired
  | TicketSelfPair
  | TargetNotFound
  | RegistryError mesh_error
  | TicketError ticket_error

datatype reply =
    HttpError int api_error
  | NoContent
  | Registered registration_view
  | Peers "peer_view list"
  | Candidate_list "candidate list"
  | Ticket probe_ticket
  | Tickets "probe_ticket list option"
  | HandlerPanic

fun status :: "reply \<Rightarrow> int" where
  "status (HttpError c e) = c"
| "status NoContent = 204"
| "status (Registered v) = 201"
| "status (Peers v) = 200"
| "status (Candidate_list v) = 200"
| "status (Ticket v) = 201"
| "status (Tickets v) = 200"
| "status HandlerPanic = 0"

section \<open>Start-up\<close>

datatype server_fatal =
    BadPeerLease | BadHeartbeatInterval | HeartbeatNotShorter | BadTicketTTL | BadDiscoveryRate
  | BadDiscoveryBurst | BadDiscoveryDedup | BadPrefix | RegistryFatal mesh_error

record server_flags =
  sf_prefix :: string
  sf_peerLease :: duration
  sf_heartbeatInterval :: duration
  sf_p2pTicketTTL :: duration
  sf_discoveryRate :: rat
  sf_discoveryBurst :: int
  sf_discoveryDedup :: duration

definition checkFlags :: "server_flags \<Rightarrow> (server_fatal, unit) result" where
  "checkFlags f =
     (if sf_peerLease f < Second then Fail BadPeerLease
      else if sf_heartbeatInterval f < Second then Fail BadHeartbeatInterval
      else if sf_heartbeatInterval f \<ge> sf_peerLease f then Fail HeartbeatNotShorter
      else if sf_p2pTicketTTL f \<le> 0 \<or> sf_p2pTicketTTL f > 5 * Minute then Fail BadTicketTTL
      else if sf_discoveryRate f \<le> 0 then Fail BadDiscoveryRate
      else if sf_discoveryBurst f \<le> 0 then Fail BadDiscoveryBurst
      else if sf_discoveryDedup f < 0 then Fail BadDiscoveryDedup
      else Ok ())"

definition startServer :: "server_flags \<Rightarrow> (server_fatal, coordinator) result" where
  "startServer f =
     rbind (checkFlags f) (\<lambda>_.
       case ParsePrefix (sf_prefix f) of
         None \<Rightarrow> Fail BadPrefix
       | Some prefix \<Rightarrow>
         rbind (map_err RegistryFatal (NewRegistry prefix)) (\<lambda>registry.
           Ok \<lparr>co_registry = registry,
               co_relay = NewRelay \<lparr>ro_DiscoveryRate = sf_discoveryRate f,
                 ro_DiscoveryBurst = sf_discoveryBurst f, ro_DiscoveryDedupWindow = sf_discoveryDedup f\<rparr>,
               co_tickets = Some (NewTicketManager (sf_p2pTicketTTL f)),
               co_heartbeatInterval = sf_heartbeatInterval f, co_leaseTTL = sf_peerLease f\<rparr>))"

section \<open>Handlers\<close>

definition bearerToken :: "string \<Rightarrow> string" where
  "bearerToken header =
     (let prefix = ''Bearer ''
      in if \<not> HasPrefix header prefix then '''' else TrimSpace (drop (length prefix) header))"

definition authenticatedPeer :: "coordinator \<Rightarrow> string \<Rightarrow> peer option" where
  "authenticatedPeer c header =
     (let token = bearerToken header
      in if token = '''' then None else GetByToken (co_registry c) token)"

definition durationSeconds :: "duration \<Rightarrow> int" where
  "durationSeconds d = (let seconds = trunc_div d Second in if seconds < 1 then 1 else seconds)"

definition registerPeer ::
    "coordinator \<Rightarrow> string option \<Rightarrow> time \<Rightarrow> bytes option \<Rightarrow> reply \<times> coordinator" where
  "registerPeer c req now rnd =
     (case req of
        None \<Rightarrow> (HttpError 400 InvalidJSON, c)
      | Some nodeID \<Rightarrow>
        (case registerAt (co_registry c) nodeID now rnd of
           (Panic, r) \<Rightarrow> (HandlerPanic, c\<lparr>co_registry := r\<rparr>)
         | (Fail e, r) \<Rightarrow> (HttpError 400 (RegistryError e), c\<lparr>co_registry := r\<rparr>)
         | (Ok peer, r) \<Rightarrow>
           (Registered ((Registration peer (rg_prefix r))
              \<lparr>rv_HeartbeatIntervalSeconds := durationSeconds (co_heartbeatInterval c),
               rv_LeaseTTLSeconds := durationSeconds (co_leaseTTL c)\<rparr>), c\<lparr>co_registry := r\<rparr>)))"

definition heartbeat :: "coordinator \<Rightarrow> string \<Rightarrow> time \<Rightarrow> reply \<times> coordinator" where
  "heartbeat c header now =
     (case authenticatedPeer c header of
        None \<Rightarrow> (HttpError 401 InvalidSession, c)
      | Some _ \<Rightarrow>
        (case TouchByToken (co_registry c) (bearerToken header) now of
           (None, r) \<Rightarrow> (HttpError 401 InvalidSession, c\<lparr>co_registry := r\<rparr>)
         | (Some _, r) \<Rightarrow> (NoContent, c\<lparr>co_registry := r\<rparr>)))"

definition listCandidates :: "coordinator \<Rightarrow> string \<Rightarrow> string list \<Rightarrow> reply \<times> coordinator" where
  "listCandidates c header ord =
     (case authenticatedPeer c header of
        None \<Rightarrow> (HttpError 401 InvalidSession, c)
      | Some _ \<Rightarrow>
        (Candidate_list (concat (map (\<lambda>oc.
            case Get (co_registry c) (oc_NodeID oc) of
              None \<Rightarrow> []
            | Some peer \<Rightarrow>
              [\<lparr>cd_NodeID = pr_NodeID peer, cd_VirtualIP = addr_String (pr_VirtualIP peer),
                cd_Endpoint = oc_Endpoint oc, cd_Kind = CandidateRelayObserved,
                cd_ObservedAt = oc_ObservedAt oc\<rparr>])
          (Candidates (co_relay c) ord))), c))"

definition issueProbeTicket ::
    "coordinator \<Rightarrow> string \<Rightarrow> string option \<Rightarrow> bytes option \<Rightarrow> time \<Rightarrow> reply \<times> coordinator" where
  "issueProbeTicket c header req rnd now =
     (case authenticatedPeer c header of
        None \<Rightarrow> (HttpError 401 InvalidSession, c)
      | Some source \<Rightarrow>
        (case co_tickets c of
           None \<Rightarrow> (HttpError 503 TicketsUnavailable, c)
         | Some tickets \<Rightarrow>
           (case req of
              None \<Rightarrow> (HttpError 400 InvalidJSON, c)
            | Some target0 \<Rightarrow>
              let targetNode = TrimSpace target0
              in if targetNode = '''' then (HttpError 400 TargetNodeRequired, c)
              else if targetNode = pr_NodeID source then (HttpError 400 TicketSelfPair, c)
              else if Get (co_registry c) targetNode = None then (HttpError 404 TargetNotFound, c)
              else case Issue tickets (pr_NodeID source) targetNode rnd now of
                (Fail e, m) \<Rightarrow> (HttpError 400 (TicketError e), c\<lparr>co_tickets := Some m\<rparr>)
              | (Panic, m) \<Rightarrow> (HandlerPanic, c\<lparr>co_tickets := Some m\<rparr>)
              | (Ok ticket, m) \<Rightarrow> (Ticket ticket, c\<lparr>co_tickets := Some m\<rparr>))))"

definition listProbeTickets :: "coordinator \<Rightarrow> string \<Rightarrow> time \<Rightarrow> string list \<Rightarrow> reply \<times> coordinator" where
  "listProbeTickets c header now ord =
     (case authenticatedPeer c header of
        None \<Rightarrow> (HttpError 401 InvalidSession, c)
      | Some peer \<Rightarrow>
        (case co_tickets c of
           None \<Rightarrow> (HttpError 503 TicketsUnavailable, c)
         | Some tickets \<Rightarrow>
           (let (out, m) = ListForNode tickets (pr_NodeID peer) now ord
            in (Tickets out, c\<lparr>co_tickets := Some m\<rparr>))))"

definition listPeers :: "coordinator \<Rightarrow> string list \<Rightarrow> reply \<times> coordinator" where
  "listPeers c ord = (Peers (map View (ListPeers (co_registry c) ord)), c)"

section \<open>The lease sweeper\<close>

definition sweepInterval :: "duration \<Rightarrow> duration \<Rightarrow> duration" where
  "sweepInterval leaseTTL heartbeatInterval =
     (let third = trunc_div leaseTTL 3
      in if third > 0 \<and> third < heartbeatInterval then third else heartbeatInterval)"

text \<open>What a tick does after \<open>ExpireBefore\<close>, for one expired peer and for all of them.\<close>

definition forgetExpired :: "coordinator \<Rightarrow> peer \<Rightarrow> coordinator" where
  "forgetExpired c peer =
     c\<lparr>co_relay := ForgetPeer (co_relay c) (pr_NodeID peer),
       co_tickets := map_option (\<lambda>m. ForgetNode m (pr_NodeID peer)) (co_tickets c)\<rparr>"

definition sweepTick :: "coordinator \<Rightarrow> time \<Rightarrow> string list \<Rightarrow> time \<Rightarrow> coordinator" where
  "sweepTick c now ord pruneNow =
     (let (expired, r) = ExpireBefore (co_registry c) ord (time_Add now (- co_leaseTTL c));
          c = foldl forgetExpired (c\<lparr>co_registry := r\<rparr>) expired
      in c\<lparr>co_tickets := map_option (\<lambda>m. Prune m pruneNow) (co_tickets c)\<rparr>)"


text \<open>The relay's goroutine, one datagram at a time, on the shared registry.\<close>

definition relayDatagram ::
    "(bytes \<Rightarrow> bytes) \<Rightarrow> (nat \<Rightarrow> bool) \<Rightarrow> coordinator \<Rightarrow> string list \<Rightarrow> time \<Rightarrow> time \<Rightarrow> bytes \<Rightarrow> udp_addr
     \<Rightarrow> ((relay_error, unit) result \<times> datagram list) \<times> coordinator" where
  "relayDatagram sha256 wr c ord t1 t2 b src =
     (let (res, sent, rl) = handleDatagram sha256 (registry_view (co_registry c, ord)) wr t1 t2 (co_relay c) b src
      in ((res, sent), c\<lparr>co_relay := rl\<rparr>))"

section \<open>Authentication\<close>

lemma authenticatedPeer_iff:
  assumes "registry_inv (co_registry c)"
  shows "authenticatedPeer c header = Some p \<longleftrightarrow>
    Get (co_registry c) (pr_NodeID p) = Some p \<and> bearerToken header = pr_SessionToken p"
proof -
  have "pr_SessionToken p \<noteq> ''''" if "rg_peers (co_registry c) (pr_NodeID p) = Some p"
    using registry_invD(4) [OF assms that] by (auto simp: peer_ok_def)
  then show ?thesis
    using GetByToken_iff [OF assms, of "bearerToken header" p]
    by (auto simp: authenticatedPeer_def Let_def Get_def)
qed

lemma authenticatedPeer_tickets [simp]:
  "authenticatedPeer (c\<lparr>co_tickets := m\<rparr>) header = authenticatedPeer c header"
  by (simp add: authenticatedPeer_def Let_def)

section \<open>The sweeper's effect\<close>

lemma forgetExpired_simps [simp]:
  "co_registry (forgetExpired c p) = co_registry c"
  "co_leaseTTL (forgetExpired c p) = co_leaseTTL c"
  "co_heartbeatInterval (forgetExpired c p) = co_heartbeatInterval c"
  "co_relay (forgetExpired c p) = ForgetPeer (co_relay c) (pr_NodeID p)"
  "co_tickets (forgetExpired c p) = map_option (\<lambda>m. ForgetNode m (pr_NodeID p)) (co_tickets c)"
  by (simp_all add: forgetExpired_def)

lemma forget_all_simps [simp]:
  "co_registry (foldl forgetExpired c es) = co_registry c"
  "co_leaseTTL (foldl forgetExpired c es) = co_leaseTTL c"
  "co_heartbeatInterval (foldl forgetExpired c es) = co_heartbeatInterval c"
  "co_relay (foldl forgetExpired c es) = foldl ForgetPeer (co_relay c) (map pr_NodeID es)"
  "co_tickets (foldl forgetExpired c es) = map_option (\<lambda>m. foldl ForgetNode m (map pr_NodeID es)) (co_tickets c)"
  by (induction es arbitrary: c) (simp_all add: option.map_comp comp_def option.map_ident)

lemma forget_peers:
  "rl_endpoints (foldl ForgetPeer rl ns) n = (if n \<in> set ns then None else rl_endpoints rl n)"
  "rl_discovery (foldl ForgetPeer rl ns) n = (if n \<in> set ns then None else rl_discovery rl n)"
  "relay_inv rl \<Longrightarrow> relay_inv (foldl ForgetPeer rl ns)"
  by (induction ns arbitrary: rl) (auto simp: ForgetPeer_def intro: ForgetPeer_inv [unfolded ForgetPeer_def])

lemma forget_dom:
  "dom (rl_endpoints (foldl ForgetPeer rl ns)) = dom (rl_endpoints rl) - set ns"
  "dom (rl_discovery (foldl ForgetPeer rl ns)) = dom (rl_discovery rl) - set ns"
  by (auto simp: domIff forget_peers split: if_splits)

lemma forget_nodes:
  "tm_tickets (foldl ForgetNode m ns) k = Some t \<longleftrightarrow> tm_tickets m k = Some t \<and>
     (\<forall>n\<in>set ns. TrimSpace n \<noteq> '''' \<longrightarrow> TrimSpace n \<notin> {pt_SourceNode t, pt_TargetNode t})"
  by (induction ns arbitrary: m) (auto simp: ForgetNode_def Let_def split: if_splits)

lemma forget_nodes_inv: "ticket_inv m \<Longrightarrow> ticket_inv (foldl ForgetNode m ns)"
  by (induction ns arbitrary: m) (auto intro: ForgetNode_inv)

section \<open>What the components know of the peers\<close>

text \<open>
  The invariant of the whole process: the parts keep their own invariants, and the relay and the
  tickets hold state only for registered peers.
\<close>

definition known_only :: "coordinator \<Rightarrow> bool" where
  "known_only c \<longleftrightarrow>
     dom (rl_endpoints (co_relay c)) \<subseteq> dom (rg_peers (co_registry c)) \<and>
     dom (rl_discovery (co_relay c)) \<subseteq> dom (rg_peers (co_registry c)) \<and>
     (\<forall>m k t. co_tickets c = Some m \<longrightarrow> tm_tickets m k = Some t \<longrightarrow>
        {pt_SourceNode t, pt_TargetNode t} \<subseteq> dom (rg_peers (co_registry c)))"

definition coord_inv :: "coordinator \<Rightarrow> bool" where
  "coord_inv c \<longleftrightarrow> registry_inv (co_registry c) \<and> relay_inv (co_relay c) \<and>
     (\<forall>m. co_tickets c = Some m \<longrightarrow> ticket_inv m)"

lemma registerAt_dom: "dom (rg_peers r) \<subseteq> dom (rg_peers (snd (registerAt r n now rnd)))"
  by (auto simp: registerAt_def Let_def split: option.split prod.split result.split)

lemma TouchByToken_dom: "dom (rg_peers (snd (TouchByToken r t now))) = dom (rg_peers r)"
  by (auto simp: TouchByToken_def Let_def split: option.split)

lemma handleDatagram_dom:
  assumes inv: "registry_inv r"
    and h: "handleDatagram sha256 (registry_view (r, ord)) wr t1 t2 rl b src = (res, sent, rl')"
  shows "dom (rl_endpoints rl') \<subseteq> dom (rl_endpoints rl) \<union> dom (rg_peers r)"
    "dom (rl_discovery rl') \<subseteq> dom (rl_discovery rl) \<union> dom (rg_peers r)"
proof -
  have "rl' = rl \<or> (\<exists>p. rg_peers r (pr_NodeID p) = Some p \<and>
      rl_endpoints rl' = (rl_endpoints rl)(pr_NodeID p \<mapsto> \<lparr>ep_addr = src, ep_observedAt = t1\<rparr>) \<and>
      (\<forall>m. m \<noteq> pr_NodeID p \<longrightarrow> rl_discovery rl' m = rl_discovery rl m))"
    using handleDatagram_state [OF h] by (simp add: registry_view_def GetByToken_iff [OF inv]) blast
  then have "dom (rl_endpoints rl') \<subseteq> dom (rl_endpoints rl) \<union> dom (rg_peers r) \<and>
    dom (rl_discovery rl') \<subseteq> dom (rl_discovery rl) \<union> dom (rg_peers r)"
    by (elim disjE exE conjE) (auto simp: domIff, metis option.distinct(1))
  then show "dom (rl_endpoints rl') \<subseteq> dom (rl_endpoints rl) \<union> dom (rg_peers r)"
    "dom (rl_discovery rl') \<subseteq> dom (rl_discovery rl) \<union> dom (rg_peers r)" by auto
qed


section \<open>Handlers one at a time\<close>

text \<open>
  One request, one datagram or one sweep, executed without interruption. Fresh session tokens are
  32 random bytes that no peer has.
\<close>

inductive coord_step :: "(bytes \<Rightarrow> bytes) \<Rightarrow> coordinator \<Rightarrow> coordinator \<Rightarrow> bool" for sha256 where
  C_Register: "(\<And>b. rnd = Some b \<Longrightarrow> length b = 32 \<and> rg_byToken (co_registry c) (hex_encode b) = None) \<Longrightarrow>
     coord_step sha256 c (snd (registerPeer c req now rnd))"
| C_Heartbeat: "coord_step sha256 c (snd (heartbeat c header now))"
| C_Candidates: "coord_step sha256 c (snd (listCandidates c header ord))"
| C_Issue: "(\<And>b. rnd = Some b \<Longrightarrow> length b = 32) \<Longrightarrow>
     coord_step sha256 c (snd (issueProbeTicket c header req rnd now))"
| C_Tickets: "coord_step sha256 c (snd (listProbeTickets c header now ord))"
| C_Datagram: "coord_step sha256 c (snd (relayDatagram sha256 wr c ord t1 t2 b src))"
| C_Sweep: "range_of (rg_peers (co_registry c)) ord \<Longrightarrow> coord_step sha256 c (sweepTick c now ord pruneNow)"

inductive coord_reach :: "(bytes \<Rightarrow> bytes) \<Rightarrow> server_flags \<Rightarrow> coordinator \<Rightarrow> bool" for sha256 f where
  C_Start: "startServer f = Ok c \<Longrightarrow> coord_reach sha256 f c"
| C_Step: "coord_reach sha256 f c \<Longrightarrow> coord_step sha256 c c' \<Longrightarrow> coord_reach sha256 f c'"

lemma startServer_inv:
  assumes "startServer f = Ok c"
  shows "coord_inv c \<and> known_only c \<and> co_leaseTTL c = sf_peerLease f \<and> co_heartbeatInterval c = sf_heartbeatInterval f"
proof -
  obtain p r where r: "NewRegistry p = Ok r" and c: "c = \<lparr>co_registry = r,
      co_relay = NewRelay \<lparr>ro_DiscoveryRate = sf_discoveryRate f,
        ro_DiscoveryBurst = sf_discoveryBurst f, ro_DiscoveryDedupWindow = sf_discoveryDedup f\<rparr>,
      co_tickets = Some (NewTicketManager (sf_p2pTicketTTL f)),
      co_heartbeatInterval = sf_heartbeatInterval f, co_leaseTTL = sf_peerLease f\<rparr>"
    using assms by (auto simp: startServer_def rbind_Ok_iff split: option.splits)
  have "dom (rl_endpoints (NewRelay o')) = {}" "dom (rl_discovery (NewRelay o')) = {}" for o'
    by (simp_all add: NewRelay_def)
  then show ?thesis using NewRegistry_Ok [OF r]
    by (simp add: c coord_inv_def known_only_def NewRelay_inv NewTicketManager_inv) (simp add: NewTicketManager_def)
qed

lemma registerPeer_registry:
  "co_registry (snd (registerPeer c req now rnd)) = co_registry c \<or>
     (\<exists>n. co_registry (snd (registerPeer c req now rnd)) = snd (registerAt (co_registry c) n now rnd))"
  "co_relay (snd (registerPeer c req now rnd)) = co_relay c"
  "co_tickets (snd (registerPeer c req now rnd)) = co_tickets c"
proof -
  have "co_registry (snd (registerPeer c req now rnd)) =
      (case req of None \<Rightarrow> co_registry c | Some n \<Rightarrow> snd (registerAt (co_registry c) n now rnd))"
    by (simp add: registerPeer_def split: option.split prod.split result.split)
  then show "co_registry (snd (registerPeer c req now rnd)) = co_registry c \<or>
     (\<exists>n. co_registry (snd (registerPeer c req now rnd)) = snd (registerAt (co_registry c) n now rnd))"
    by (cases req) auto
  show "co_relay (snd (registerPeer c req now rnd)) = co_relay c"
    "co_tickets (snd (registerPeer c req now rnd)) = co_tickets c"
    by (simp_all add: registerPeer_def split: option.split prod.split result.split)
qed

lemma heartbeat_registry:
  "co_registry (snd (heartbeat c header now)) \<in>
     {co_registry c, snd (TouchByToken (co_registry c) (bearerToken header) now)}"
  "co_relay (snd (heartbeat c header now)) = co_relay c"
  "co_tickets (snd (heartbeat c header now)) = co_tickets c"
  by (auto simp: heartbeat_def split: option.split prod.split)

lemma listProbeTickets_state:
  "co_registry (snd (listProbeTickets c header now ord)) = co_registry c"
  "co_relay (snd (listProbeTickets c header now ord)) = co_relay c"
  "co_tickets (snd (listProbeTickets c header now ord)) = co_tickets c \<or>
     (\<exists>m n. co_tickets c = Some m \<and> co_tickets (snd (listProbeTickets c header now ord)) = Some (snd (ListForNode m n now ord)))"
  by (auto simp: listProbeTickets_def split: option.split prod.split) (metis prod.sel(2))

text \<open>The handler of ticket requests, branch by branch.\<close>

lemma issueProbeTicket_cases:
  obtains (refused) code e where "issueProbeTicket c header req rnd now = (HttpError code e, c)"
  | (issued) source m target r t where "authenticatedPeer c header = Some source" "co_tickets c = Some m" "req = Some target"
      "TrimSpace target \<noteq> ''''" "TrimSpace target \<noteq> pr_NodeID source" "Get (co_registry c) (TrimSpace target) \<noteq> None"
      "rnd = Some r" "TrimSpace (pr_NodeID source) \<noteq> ''''"
      "t = \<lparr>pt_Ticket = hex_encode r, pt_SourceNode = TrimSpace (pr_NodeID source), pt_TargetNode = TrimSpace target,
            pt_IssuedAt = now, pt_ExpiresAt = now + tm_ttl m\<rparr>"
      "issueProbeTicket c header req rnd now = (Ticket t, c\<lparr>co_tickets :=
         Some ((pruneLocked now m)\<lparr>tm_tickets := (tm_tickets (pruneLocked now m))(hex_encode r \<mapsto> t)\<rparr>)\<rparr>)"
proof (cases "authenticatedPeer c header")
  case None
  then show thesis using refused by (simp add: issueProbeTicket_def)
next
  case (Some source)
  note src = Some
  show thesis
  proof (cases "co_tickets c")
    case None
    then show thesis using refused src by (simp add: issueProbeTicket_def)
  next
    case (Some m)
    note m = Some
    show thesis
    proof (cases req)
      case None
      then show thesis using refused src m by (simp add: issueProbeTicket_def)
    next
      case (Some target)
      have eq: "c\<lparr>co_tickets := Some m\<rparr> = c" using m by simp
      show thesis
      proof (cases "TrimSpace target = '''' \<or> TrimSpace target = pr_NodeID source \<or> Get (co_registry c) (TrimSpace target) = None")
        case True
        have "issueProbeTicket c header req rnd now \<in>
            {(HttpError 400 TargetNodeRequired, c), (HttpError 400 TicketSelfPair, c), (HttpError 404 TargetNotFound, c)}"
          using True src m Some by (auto simp: issueProbeTicket_def Let_def)
        then show thesis using refused by blast
      next
        case False
        show thesis
          by (cases rule: Issue_cases [of "pr_NodeID source" "TrimSpace target" m rnd now])
             (use False src m Some eq refused issued in \<open>auto simp: issueProbeTicket_def Let_def TrimSpace_idem\<close>)
      qed
    qed
  qed
qed

lemma known_only_mono:
  assumes "known_only c" "dom (rg_peers (co_registry c)) \<subseteq> dom (rg_peers (co_registry c'))"
    "co_relay c' = co_relay c" "co_tickets c' = co_tickets c"
  shows "known_only c'"
  using assms unfolding known_only_def by (metis (no_types, lifting) subset_trans)

lemma sweepTick_eq:
  assumes "registry_inv (co_registry c)" "range_of (rg_peers (co_registry c)) ord"
    and "ExpireBefore (co_registry c) ord (now - co_leaseTTL c) = (gone, r)"
  shows "sweepTick c now ord pruneNow = c\<lparr>co_registry := r,
     co_relay := foldl ForgetPeer (co_relay c) (map pr_NodeID gone),
     co_tickets := map_option (\<lambda>m. Prune (foldl ForgetNode m (map pr_NodeID gone)) pruneNow) (co_tickets c)\<rparr>"
  by (rule coordinator.equality)
     (simp_all add: sweepTick_def assms(3) Let_def option.map_comp comp_def)


section \<open>Every step keeps the invariant\<close>

lemma registerPeer_inv:
  assumes "coord_inv c" "known_only c"
    and rnd: "\<And>b. rnd = Some b \<Longrightarrow> length b = 32 \<and> rg_byToken (co_registry c) (hex_encode b) = None"
  shows "coord_inv (snd (registerPeer c req now rnd)) \<and> known_only (snd (registerPeer c req now rnd))"
proof -
  let ?c = "snd (registerPeer c req now rnd)"
  note f = registerPeer_registry [of c req now rnd]
  have "registry_inv (co_registry ?c)"
    using f(1) assms(1) registerAt_inv [OF _ rnd] by (auto simp: coord_inv_def)
  moreover have "dom (rg_peers (co_registry c)) \<subseteq> dom (rg_peers (co_registry ?c))"
    using f(1) by (elim disjE exE) (simp_all add: registerAt_dom)
  ultimately show ?thesis
    using assms(1) known_only_mono [OF assms(2) _ f(2,3)] f(2,3) by (simp add: coord_inv_def)
qed

lemma heartbeat_inv:
  assumes "coord_inv c" "known_only c"
  shows "coord_inv (snd (heartbeat c header now)) \<and> known_only (snd (heartbeat c header now))"
proof -
  let ?c = "snd (heartbeat c header now)"
  note f = heartbeat_registry [of c header now]
  have "registry_inv (co_registry ?c)"
    using f(1) assms(1) by (auto simp: coord_inv_def TouchByToken_inv)
  moreover have "dom (rg_peers (co_registry c)) \<subseteq> dom (rg_peers (co_registry ?c))"
  proof -
    have "co_registry ?c = co_registry c \<or> co_registry ?c = snd (TouchByToken (co_registry c) (bearerToken header) now)"
      using f(1) by simp
    then show ?thesis by (elim disjE) (simp_all add: TouchByToken_dom)
  qed
  ultimately show ?thesis
    using assms(1) known_only_mono [OF assms(2) _ f(2,3)] f(2,3) by (simp add: coord_inv_def)
qed

lemma listCandidates_state [simp]: "snd (listCandidates c header ord) = c"
  by (simp add: listCandidates_def split: option.split)

lemma issueProbeTicket_inv:
  assumes inv: "coord_inv c" and known: "known_only c" and rnd: "\<And>b. rnd = Some b \<Longrightarrow> length b = 32"
  shows "coord_inv (snd (issueProbeTicket c header req rnd now)) \<and>
    known_only (snd (issueProbeTicket c header req rnd now))"
proof (cases rule: issueProbeTicket_cases [of c header req rnd now])
  case (refused code e)
  then show ?thesis using inv known by simp
next
  case (issued source m target r t)
  have reg: "registry_inv (co_registry c)" and minv: "ticket_inv m" using inv issued by (auto simp: coord_inv_def)
  let ?m = "(pruneLocked now m)\<lparr>tm_tickets := (tm_tickets (pruneLocked now m))(hex_encode r \<mapsto> t)\<rparr>"
  have "Issue m (pr_NodeID source) target (Some r) now = (Ok t, ?m)"
    using issued registry_invD(4) [OF reg, of "pr_NodeID source" source]
    by (cases rule: Issue_cases [of "pr_NodeID source" target m "Some r" now])
       (auto simp: authenticatedPeer_iff [OF reg] Get_def peer_ok_def)
  then have "ticket_inv ?m" using Issue_inv [OF minv, of "Some r" "pr_NodeID source" target now] rnd issued(7) by simp
  moreover have "pr_NodeID source \<in> dom (rg_peers (co_registry c))" "TrimSpace target \<in> dom (rg_peers (co_registry c))"
    "TrimSpace (pr_NodeID source) = pr_NodeID source"
    using issued(1,6) registry_invD(4) [OF reg, of "pr_NodeID source" source]
    by (auto simp: authenticatedPeer_iff [OF reg] Get_def peer_ok_def)
  moreover have "{pt_SourceNode u, pt_TargetNode u} \<subseteq> dom (rg_peers (co_registry c))"
    if "tm_tickets m k = Some u" for k u using known issued(2) that unfolding known_only_def by blast
  ultimately show ?thesis
    using inv known issued(9,10) by (auto simp: coord_inv_def known_only_def ticket_store.sweep_live split: if_splits)
qed

lemma listProbeTickets_inv:
  assumes "coord_inv c" "known_only c"
  shows "coord_inv (snd (listProbeTickets c header now ord)) \<and> known_only (snd (listProbeTickets c header now ord))"
proof -
  note f = listProbeTickets_state [of c header now ord]
  have old: "tm_tickets (snd (ListForNode m n now ord)) k = Some t \<Longrightarrow> tm_tickets m k = Some t" for m n k t
    by (auto simp: ListForNode_def Let_def ticket_store.sweep_live split: if_splits)
  from f(3) show ?thesis
  proof (elim disjE exE conjE)
    assume "co_tickets (snd (listProbeTickets c header now ord)) = co_tickets c"
    then show ?thesis using assms f(1,2) by (simp add: coord_inv_def known_only_def)
  next
    fix m n
    assume "co_tickets c = Some m" "co_tickets (snd (listProbeTickets c header now ord)) = Some (snd (ListForNode m n now ord))"
    then show ?thesis using assms f(1,2) by (auto simp: coord_inv_def known_only_def ListForNode_inv dest!: old)
  qed
qed

lemma relayDatagram_inv:
  assumes inv: "coord_inv c" and known: "known_only c"
  shows "coord_inv (snd (relayDatagram sha256 wr c ord t1 t2 b src)) \<and>
    known_only (snd (relayDatagram sha256 wr c ord t1 t2 b src))"
proof -
  obtain res sent rl where h: "handleDatagram sha256 (registry_view (co_registry c, ord)) wr t1 t2 (co_relay c) b src = (res, sent, rl)"
    by (metis prod.collapse)
  have reg: "registry_inv (co_registry c)" using inv by (simp add: coord_inv_def)
  have "relay_inv rl"
    using inv handleDatagram_inv [of "co_relay c" sha256 "registry_view (co_registry c, ord)" wr t1 t2 b src]
    by (simp add: coord_inv_def h)
  moreover have "dom (rl_endpoints rl) \<subseteq> dom (rg_peers (co_registry c))" "dom (rl_discovery rl) \<subseteq> dom (rg_peers (co_registry c))"
    using known handleDatagram_dom [OF reg h] unfolding known_only_def by (simp_all add: Un_absorb1)
  ultimately show ?thesis
    using inv known unfolding coord_inv_def known_only_def by (simp add: relayDatagram_def h)
qed

lemma sweepTick_inv:
  assumes inv: "coord_inv c" and known: "known_only c" and ord: "range_of (rg_peers (co_registry c)) ord"
  shows "coord_inv (sweepTick c now ord pruneNow) \<and> known_only (sweepTick c now ord pruneNow)"
proof -
  have reg: "registry_inv (co_registry c)" using inv by (simp add: coord_inv_def)
  obtain gone r where ex: "ExpireBefore (co_registry c) ord (now - co_leaseTTL c) = (gone, r)" by fastforce
  note s = ExpireBefore_spec [OF reg ord ex]
  have peers: "dom (rg_peers (co_registry c)) - set (map pr_NodeID gone) \<subseteq> dom (rg_peers r)"
  proof
    fix n assume n: "n \<in> dom (rg_peers (co_registry c)) - set (map pr_NodeID gone)"
    then obtain p where p: "rg_peers (co_registry c) n = Some p" by auto
    then have "p \<notin> set gone" using n registry_invD(4) [OF reg p] by (force simp: peer_ok_def)
    then have "\<not> pr_LastSeen p \<le> now - co_leaseTTL c" using s(3) p by (auto simp: ran_def)
    then show "n \<in> dom (rg_peers r)" using s(2) p by (auto simp: domIff delete_where_def)
  qed
  have trimmed: "TrimSpace n = n \<and> n \<noteq> ''''" if "n \<in> set (map pr_NodeID gone)" for n
    using that s(3) registry_invD(4) [OF reg] by (fastforce simp: ran_def peer_ok_def)
  have eq: "sweepTick c now ord pruneNow = c\<lparr>co_registry := r,
     co_relay := foldl ForgetPeer (co_relay c) (map pr_NodeID gone),
     co_tickets := map_option (\<lambda>m. Prune (foldl ForgetNode m (map pr_NodeID gone)) pruneNow) (co_tickets c)\<rparr>"
    by (rule sweepTick_eq [OF reg ord ex])
  have "coord_inv (sweepTick c now ord pruneNow)"
    using inv s(1) unfolding eq
    by (auto simp: coord_inv_def forget_peers(3) Prune_def intro: pruneLocked_inv forget_nodes_inv)
  moreover have "known_only (sweepTick c now ord pruneNow)"
    unfolding known_only_def eq
  proof (intro conjI allI impI; simp)
    show "dom (rl_endpoints (foldl ForgetPeer (co_relay c) (map pr_NodeID gone))) \<subseteq> dom (rg_peers r)"
      unfolding forget_dom using known peers unfolding known_only_def by (meson Diff_mono order_refl subset_trans)
    show "dom (rl_discovery (foldl ForgetPeer (co_relay c) (map pr_NodeID gone))) \<subseteq> dom (rg_peers r)"
      unfolding forget_dom using known peers unfolding known_only_def by (meson Diff_mono order_refl subset_trans)
    fix m k t
    assume "\<exists>z. co_tickets c = Some z \<and> Prune (foldl ForgetNode z (map pr_NodeID gone)) pruneNow = m"
      and t: "tm_tickets m k = Some t"
    then obtain z where z: "co_tickets c = Some z" "tm_tickets (foldl ForgetNode z (map pr_NodeID gone)) k = Some t"
      by (auto simp: Prune_def ticket_store.sweep_live)
    then have "{pt_SourceNode t, pt_TargetNode t} \<subseteq> dom (rg_peers (co_registry c))"
      using known unfolding known_only_def by (meson forget_nodes)
    moreover have "{pt_SourceNode t, pt_TargetNode t} \<inter> set (map pr_NodeID gone) = {}"
      using z(2) trimmed unfolding forget_nodes by (metis disjoint_iff)
    ultimately show "pt_SourceNode t \<in> dom (rg_peers r) \<and> pt_TargetNode t \<in> dom (rg_peers r)"
      using peers by blast
  qed
  ultimately show ?thesis ..
qed

lemma coord_step_inv:
  "coord_step sha256 c c' \<Longrightarrow> coord_inv c \<Longrightarrow> known_only c \<Longrightarrow> coord_inv c' \<and> known_only c'"
  by (induction rule: coord_step.induct)
     (simp_all add: registerPeer_inv heartbeat_inv issueProbeTicket_inv listProbeTickets_inv relayDatagram_inv sweepTick_inv)

lemma coord_reach_inv: "coord_reach sha256 f c \<Longrightarrow> coord_inv c \<and> known_only c"
  by (induction rule: coord_reach.induct) (auto simp: startServer_inv dest: coord_step_inv)


lemma coordinator_forgets_aux:
  assumes "known_only c" "Get (co_registry c) n = None"
  shows "relay_lookup (co_relay c) n = None"
proof -
  have "n \<notin> dom (rg_peers (co_registry c))" using assms(2) by (simp add: Get_def domIff)
  then have "n \<notin> dom (rl_endpoints (co_relay c))" using assms(1) unfolding known_only_def by (meson subsetD)
  then show ?thesis by (simp add: relay_lookup_def domIff)
qed

section \<open>Properties of the coordinator\<close>

text \<open>C12: As long as requests, datagrams and sweeps do not interleave, the coordinator knows nothing
  of a node that is not registered: no endpoint, no discovery state and no ticket outlives the
  lease of a peer it belongs to.\<close>

theorem coordinator_forgets_expired:
  assumes "coord_reach sha256 f c" "Get (co_registry c) n = None"
  shows "relay_lookup (co_relay c) n = None \<and> rl_discovery (co_relay c) n = None \<and>
    (\<forall>m k t. co_tickets c = Some m \<longrightarrow> tm_tickets m k = Some t \<longrightarrow> n \<notin> {pt_SourceNode t, pt_TargetNode t})"
proof -
  have known: "known_only c" using coord_reach_inv [OF assms(1)] by simp
  have n: "n \<notin> dom (rg_peers (co_registry c))" using assms(2) by (simp add: Get_def domIff)
  then have "n \<notin> dom (rl_endpoints (co_relay c))" "n \<notin> dom (rl_discovery (co_relay c))"
    using known unfolding known_only_def by (meson subsetD)+
  moreover have "\<forall>m k t. co_tickets c = Some m \<longrightarrow> tm_tickets m k = Some t \<longrightarrow> n \<notin> {pt_SourceNode t, pt_TargetNode t}"
    using known n unfolding known_only_def by blast
  ultimately show ?thesis by (simp add: relay_lookup_def domIff)
qed

definition sample_flags :: server_flags where
  "sample_flags = \<lparr>sf_prefix = ''10.66.0.0/24'', sf_peerLease = 60000000000, sf_heartbeatInterval = 15000000000,
     sf_p2pTicketTTL = 30000000000, sf_discoveryRate = 20, sf_discoveryBurst = 40, sf_discoveryDedup = 750000000\<rparr>"

lemma sample_prefix: "ParsePrefix ''10.66.0.0/24'' = Some (Prefix (Addr4 0x0A420000) 24)"
proof -
  have "string4 0x0A420000 = ''10.66.0.0''"
    by (simp add: string4_def dec_string.simps dec_digit_def) (simp add: char_of_def bit_Suc_0_iff)
  then have "ParseAddr ''10.66.0.0'' = Some (Addr4 0x0A420000)" using ParseAddr_string4 [of "0x0A420000"] by simp
  moreover have "split_last (CHR ''/'') ''10.66.0.0/24'' = Some (''10.66.0.0'', ''24'')" by (simp add: split_last_def)
  moreover have "\<not> CHR ''2'' < CHR ''1''" "\<not> CHR ''9'' < CHR ''2''" by code_simp+
  ultimately show ?thesis
    by (simp add: ParsePrefix_def dec_value_def digits_val_def PrefixFrom_def Let_def)
qed

lemma sample_start:
  obtains c where "startServer sample_flags = Ok c" "rg_peers (co_registry c) = Map.empty"
    "co_leaseTTL c = 60000000000" "co_heartbeatInterval c = 15000000000"
proof -
  obtain a where "NewAllocator (Prefix (Addr4 0x0A420000) 24) = (Ok a :: (mesh_error, allocator) result)"
    by (simp add: NewAllocator_def prefix_IsValid_def)
  then obtain r where r: "NewRegistry (Prefix (Addr4 0x0A420000) 24) = Ok r" by (simp add: NewRegistry_def)
  then obtain c where c: "startServer sample_flags = Ok c" "co_registry c = r"
    by (simp add: startServer_def checkFlags_def sample_flags_def sample_prefix Second_def Minute_def)
  show thesis
    using that [OF c(1)] NewRegistry_Ok [OF r] startServer_inv [OF c(1)] c(2) by (simp add: sample_flags_def)
qed

text \<open>Registering one more node, when an address is free and the random bytes are new.\<close>

lemma register_one:
  assumes reach: "coord_reach sha256 f c" and n: "TrimSpace n = n" "n \<noteq> ''''" "rg_peers (co_registry c) n = None"
    and free: "ip \<in> host_pool (rg_prefix (co_registry c))" "ip \<notin> pr_VirtualIP ` ran (rg_peers (co_registry c))"
    and b: "length b = 32" "\<forall>q\<in>ran (rg_peers (co_registry c)). pr_SessionToken q \<noteq> hex_encode b"
  obtains c' p where "coord_reach sha256 f c'" "rg_peers (co_registry c') = (rg_peers (co_registry c))(n \<mapsto> p)"
    "pr_NodeID p = n" "pr_SessionToken p = hex_encode b" "pr_LastSeen p = now"
    "co_relay c' = co_relay c" "co_tickets c' = co_tickets c" "co_leaseTTL c' = co_leaseTTL c"
    "co_heartbeatInterval c' = co_heartbeatInterval c" "rg_prefix (co_registry c') = rg_prefix (co_registry c)"
proof -
  have reg: "registry_inv (co_registry c)" using coord_reach_inv [OF reach] by (simp add: coord_inv_def)
  obtain res r where ra: "registerAt (co_registry c) n now (Some b) = (res, r)" by fastforce
  have n': "TrimSpace n \<noteq> ''''" "rg_peers (co_registry c) (TrimSpace n) = None" using n by simp_all
  obtain p where p: "res = Ok p" "pr_NodeID p = n" "pr_SessionToken p = hex_encode b" "pr_LastSeen p = now"
    "rg_peers r = (rg_peers (co_registry c))(n \<mapsto> p)"
    using registerAt_new [OF reg n' ra] free n(1) by auto
  let ?c = "c\<lparr>co_registry := r\<rparr>"
  have step: "snd (registerPeer c (Some n) now (Some b)) = ?c" by (simp add: registerPeer_def ra p(1))
  have "rg_byToken (co_registry c) (hex_encode b) = None"
    using registry_invD(6) [OF reg] b(2) by (metis option.exhaust ranI)
  then have "coord_step sha256 c (snd (registerPeer c (Some n) now (Some b)))"
    by (intro C_Register) (auto simp: b)
  then have "coord_reach sha256 f ?c" unfolding step by (rule C_Step [OF reach])
  moreover have "rg_prefix r = rg_prefix (co_registry c)"
    using registerAt_prefix [of "co_registry c" n now "Some b"] ra by simp
  ultimately show thesis using that p by simp
qed

text \<open>One peer, and two peers, registered with the coordinator.\<close>

lemma sample_started:
  obtains c where "coord_reach sha256 sample_flags c" "rg_peers (co_registry c) = Map.empty"
    "co_leaseTTL c = 60000000000" "co_heartbeatInterval c = 15000000000" "rl_endpoints (co_relay c) = Map.empty"
    "rg_prefix (co_registry c) = Prefix (Addr4 0x0A420000) 24" "co_tickets c = Some (NewTicketManager 30000000000)"
proof -
  obtain c0 where c0: "startServer sample_flags = Ok c0" "rg_peers (co_registry c0) = Map.empty"
    "co_leaseTTL c0 = 60000000000" "co_heartbeatInterval c0 = 15000000000" by (rule sample_start)
  have m: "prefix_Masked (Prefix (Addr4 0x0A420000) 24) = Prefix (Addr4 0x0A420000) 24" by code_simp
  have "NewRegistry (Prefix (Addr4 0x0A420000) 24) = Ok (co_registry c0)"
    using c0(1) by (auto simp: startServer_def rbind_Ok_iff sample_flags_def sample_prefix)
  then have "rg_prefix (co_registry c0) = Prefix (Addr4 0x0A420000) 24" using NewRegistry_Ok m by metis
  moreover have "rl_endpoints (co_relay c0) = Map.empty" "co_tickets c0 = Some (NewTicketManager 30000000000)"
    using c0(1) by (auto simp: startServer_def rbind_Ok_iff NewRelay_def sample_flags_def split: option.splits)
  ultimately show thesis using that [OF C_Start [OF c0(1)]] c0 by blast
qed

lemma sample_coordinator:
  obtains c p where "coord_reach sha256 sample_flags c" "Get (co_registry c) ''n1'' = Some p"
    "rg_peers (co_registry c) = [''n1'' \<mapsto> p]" "pr_NodeID p = ''n1''" "pr_LastSeen p = 5"
    "pr_SessionToken p = hex_encode (replicate 32 7)" "co_leaseTTL c = 60000000000" "co_heartbeatInterval c = 15000000000"
    "rl_endpoints (co_relay c) = Map.empty" "rg_prefix (co_registry c) = Prefix (Addr4 0x0A420000) 24"
    "co_tickets c = Some (NewTicketManager 30000000000)"
proof -
  obtain c0 where c0: "coord_reach sha256 sample_flags c0" "rg_peers (co_registry c0) = Map.empty"
    "co_leaseTTL c0 = 60000000000" "co_heartbeatInterval c0 = 15000000000" "rl_endpoints (co_relay c0) = Map.empty"
    "rg_prefix (co_registry c0) = Prefix (Addr4 0x0A420000) 24" "co_tickets c0 = Some (NewTicketManager 30000000000)" by (rule sample_started)
  have trim: "TrimSpace ''n1'' = ''n1''" by code_simp
  have ip: "Addr4 0x0A420002 \<in> host_pool (rg_prefix (co_registry c0))" by (simp add: c0(6) host_pool_def capacity_def)
  obtain c p where "coord_reach sha256 sample_flags c" "rg_peers (co_registry c) = (rg_peers (co_registry c0))(''n1'' \<mapsto> p)"
    "pr_NodeID p = ''n1''" "pr_SessionToken p = hex_encode (replicate 32 7)" "pr_LastSeen p = 5"
    "co_relay c = co_relay c0" "co_tickets c = co_tickets c0" "co_leaseTTL c = co_leaseTTL c0"
    "co_heartbeatInterval c = co_heartbeatInterval c0" "rg_prefix (co_registry c) = rg_prefix (co_registry c0)"
    by (rule register_one [OF c0(1) trim _ _ ip, of "replicate 32 7" 5]) (auto simp: c0(2))
  then show thesis using that c0 by (simp add: Get_def)
qed

lemma sample_pair:
  obtains c p q where "coord_reach sha256 sample_flags c" "Get (co_registry c) ''n1'' = Some p" "Get (co_registry c) ''n2'' = Some q"
    "pr_NodeID p = ''n1''" "pr_NodeID q = ''n2''" "pr_SessionToken p = hex_encode (replicate 32 7)"
    "pr_SessionToken q = hex_encode (replicate 32 8)" "co_tickets c = Some (NewTicketManager 30000000000)"
    "rg_peers (co_registry c) = [''n1'' \<mapsto> p, ''n2'' \<mapsto> q]" "pr_LastSeen p = 5" "pr_LastSeen q = 6"
    "co_leaseTTL c = 60000000000"
proof -
  obtain c0 p where c0: "coord_reach sha256 sample_flags c0" "Get (co_registry c0) ''n1'' = Some p"
    "rg_peers (co_registry c0) = [''n1'' \<mapsto> p]" "pr_NodeID p = ''n1''" "pr_LastSeen p = 5"
    "pr_SessionToken p = hex_encode (replicate 32 7)" "co_leaseTTL c0 = 60000000000" "co_heartbeatInterval c0 = 15000000000"
    "rl_endpoints (co_relay c0) = Map.empty" "rg_prefix (co_registry c0) = Prefix (Addr4 0x0A420000) 24"
    "co_tickets c0 = Some (NewTicketManager 30000000000)" by (rule sample_coordinator)
  have trim: "TrimSpace ''n2'' = ''n2''" by code_simp
  have pool: "Addr4 0x0A420002 \<in> host_pool (rg_prefix (co_registry c0))" "Addr4 0x0A420003 \<in> host_pool (rg_prefix (co_registry c0))"
    by (simp_all add: c0(10) host_pool_def capacity_def)
  have "\<exists>ip. ip \<in> host_pool (rg_prefix (co_registry c0)) \<and> ip \<noteq> pr_VirtualIP p"
    using pool by (cases "pr_VirtualIP p = Addr4 0x0A420002") auto
  then obtain ip where ip: "ip \<in> host_pool (rg_prefix (co_registry c0))" "ip \<noteq> pr_VirtualIP p" by blast
  have neq: "hex_encode (replicate 32 7) \<noteq> hex_encode (replicate 32 8)"
  proof
    assume "hex_encode (replicate 32 7) = hex_encode (replicate 32 8)"
    then have "replicate 32 (7 :: u8) = replicate 32 8" by (simp only: hex_encode_inj)
    then show False by simp
  qed
  have free: "ip \<notin> pr_VirtualIP ` ran (rg_peers (co_registry c0))" using ip(2) by (simp add: c0(3))
  have tok: "\<forall>q\<in>ran (rg_peers (co_registry c0)). pr_SessionToken q \<noteq> hex_encode (replicate 32 8)"
    using neq by (simp add: c0(3,6))
  have new: "rg_peers (co_registry c0) ''n2'' = None" by (simp add: c0(3))
  obtain c q where "coord_reach sha256 sample_flags c" "rg_peers (co_registry c) = (rg_peers (co_registry c0))(''n2'' \<mapsto> q)"
    "pr_NodeID q = ''n2''" "pr_SessionToken q = hex_encode (replicate 32 8)" "pr_LastSeen q = 6"
    "co_relay c = co_relay c0" "co_tickets c = co_tickets c0" "co_leaseTTL c = co_leaseTTL c0"
    "co_heartbeatInterval c = co_heartbeatInterval c0" "rg_prefix (co_registry c) = rg_prefix (co_registry c0)"
    by (rule register_one [OF c0(1) trim _ new ip(1) free _ tok, of 6]) simp_all
  then show thesis using that c0 by (simp add: Get_def)
qed

lemma sample_header:
  assumes "coord_reach sha256 f c" "Get (co_registry c) n = Some p" "pr_NodeID p = n" "pr_SessionToken p = hex_encode b"
  shows "authenticatedPeer c (''Bearer '' @ hex_encode b) = Some p"
proof -
  have reg: "registry_inv (co_registry c)" using coord_reach_inv [OF assms(1)] by (simp add: coord_inv_def)
  show ?thesis unfolding authenticatedPeer_iff [OF reg] using assms(2,3,4)
    by (simp add: bearerToken_def HasPrefix_def TrimSpace_hex_encode)
qed

theorem coordinator_forgets_expired_witness:
  "\<exists>c. coord_reach (\<lambda>x. x) sample_flags c \<and> Get (co_registry c) ''n1'' \<noteq> None \<and>
     relay_lookup (co_relay c) ''n2'' = None"
proof -
  obtain c p where c: "coord_reach (\<lambda>x. x) sample_flags c" "Get (co_registry c) ''n1'' = Some p"
    "rg_peers (co_registry c) = [''n1'' \<mapsto> p]" by (rule sample_coordinator)
  have "Get (co_registry c) ''n2'' = None" by (simp add: Get_def c(3))
  from coordinator_forgets_expired [OF c(1) this] c show ?thesis by auto
qed

text \<open>Every endpoint but registration and the public peer list demands a current session: with a
  header whose bearer token is no registered peer's, each answers 401 and changes nothing.\<close>

theorem api_requires_session:
  assumes reach: "coord_reach sha256 f c"
    and bad: "\<forall>n p. Get (co_registry c) n = Some p \<longrightarrow> pr_SessionToken p \<noteq> bearerToken header"
  shows "heartbeat c header now = (HttpError 401 InvalidSession, c) \<and>
    listCandidates c header ord = (HttpError 401 InvalidSession, c) \<and>
    issueProbeTicket c header req rnd now = (HttpError 401 InvalidSession, c) \<and>
    listProbeTickets c header now ord = (HttpError 401 InvalidSession, c)"
proof -
  have reg: "registry_inv (co_registry c)" using coord_reach_inv [OF reach] by (simp add: coord_inv_def)
  have "authenticatedPeer c header \<noteq> Some p" for p
    using bad unfolding authenticatedPeer_iff [OF reg] by metis
  then have "authenticatedPeer c header = None" by (metis option.exhaust)
  then show ?thesis by (simp add: heartbeat_def listCandidates_def issueProbeTicket_def listProbeTickets_def)
qed

theorem api_requires_session_witness:
  "\<exists>c. coord_reach (\<lambda>x. x) sample_flags c \<and>
     heartbeat c ''Bearer guess'' 9 = (HttpError 401 InvalidSession, c)"
proof -
  obtain c p where c: "coord_reach (\<lambda>x. x) sample_flags c" "Get (co_registry c) ''n1'' = Some p"
    "rg_peers (co_registry c) = [''n1'' \<mapsto> p]" "pr_SessionToken p = hex_encode (replicate 32 7)"
    by (rule sample_coordinator)
  have t: "bearerToken ''Bearer guess'' = ''guess''" by code_simp
  have "length (hex_encode (replicate 32 7)) \<noteq> length ''guess''" by (simp add: length_hex_encode)
  then have "hex_encode (replicate 32 7) \<noteq> ''guess''" by metis
  then have "\<forall>n q. Get (co_registry c) n = Some q \<longrightarrow> pr_SessionToken q \<noteq> bearerToken ''Bearer guess''"
    unfolding Get_def c(3) t using c(4) by (auto split: if_splits)
  from api_requires_session [OF c(1) this] c(1) show ?thesis by blast
qed


lemma Candidates_spec:
  assumes "range_of (rl_endpoints rl) ord"
  shows "map oc_NodeID (Candidates rl ord) = sort ord"
    "oc \<in> set (Candidates rl ord) \<longleftrightarrow> (\<exists>e. rl_endpoints rl (oc_NodeID oc) = Some e \<and>
       oc_Endpoint oc = udp_String (ep_addr e) \<and> oc_ObservedAt oc = ep_observedAt e)"
proof -
  let ?f = "\<lambda>n. case rl_endpoints rl n of None \<Rightarrow> []
      | Some e \<Rightarrow> [\<lparr>oc_NodeID = n, oc_Endpoint = udp_String (ep_addr e), oc_ObservedAt = ep_observedAt e\<rparr>]"
  have ids: "map oc_NodeID (concat (map ?f ns)) = ns" if "set ns \<subseteq> dom (rl_endpoints rl)" for ns
    using that by (induction ns) (auto split: option.split)
  have ord: "distinct ord" "set ord = dom (rl_endpoints rl)" using assms by (auto simp: range_of_def)
  have "map oc_NodeID (concat (map ?f ord)) = ord" by (rule ids) (simp add: ord)
  then show "map oc_NodeID (Candidates rl ord) = sort ord"
    unfolding Candidates_def by (simp only: map_sort_key_id)
  show "oc \<in> set (Candidates rl ord) \<longleftrightarrow> (\<exists>e. rl_endpoints rl (oc_NodeID oc) = Some e \<and>
       oc_Endpoint oc = udp_String (ep_addr e) \<and> oc_ObservedAt oc = ep_observedAt e)"
    by (cases oc) (force simp: Candidates_def ord split: option.splits)
qed

text \<open>A peer that asks for candidates gets, in the order of node IDs, exactly the registered
  peers the relay has an endpoint for, each with its address and the endpoint last seen.\<close>

theorem api_candidates:
  assumes reach: "coord_reach sha256 f c" and auth: "authenticatedPeer c header = Some me"
    and ord: "range_of (rl_endpoints (co_relay c)) ord"
  shows "\<exists>out. listCandidates c header ord = (Candidate_list out, c) \<and> map cd_NodeID out = sort ord \<and>
    (\<forall>cd. cd \<in> set out \<longleftrightarrow> (\<exists>p e. Get (co_registry c) (cd_NodeID cd) = Some p \<and>
       rl_endpoints (co_relay c) (cd_NodeID cd) = Some e \<and> cd = \<lparr>cd_NodeID = pr_NodeID p,
         cd_VirtualIP = addr_String (pr_VirtualIP p), cd_Endpoint = udp_String (ep_addr e),
         cd_Kind = CandidateRelayObserved, cd_ObservedAt = ep_observedAt e\<rparr>))"
proof -
  let ?g = "\<lambda>oc. case Get (co_registry c) (oc_NodeID oc) of None \<Rightarrow> [] | Some peer \<Rightarrow>
      [\<lparr>cd_NodeID = pr_NodeID peer, cd_VirtualIP = addr_String (pr_VirtualIP peer),
        cd_Endpoint = oc_Endpoint oc, cd_Kind = CandidateRelayObserved, cd_ObservedAt = oc_ObservedAt oc\<rparr>]"
  let ?ocs = "Candidates (co_relay c) ord"
  have inv: "registry_inv (co_registry c)" "known_only c" using coord_reach_inv [OF reach] by (auto simp: coord_inv_def)
  have peer: "Get (co_registry c) n = Some p \<Longrightarrow> pr_NodeID p = n" for n p
    using registry_invD(4) [OF inv(1)] by (simp add: Get_def peer_ok_def)
  have known: "\<exists>p. Get (co_registry c) (oc_NodeID oc) = Some p" if "oc \<in> set ?ocs" for oc
  proof -
    have "oc_NodeID oc \<in> dom (rl_endpoints (co_relay c))"
      using that unfolding Candidates_spec(2) [OF ord] by auto
    then have "oc_NodeID oc \<in> dom (rg_peers (co_registry c))" using inv(2) unfolding known_only_def by (meson subsetD)
    then show ?thesis by (auto simp: Get_def)
  qed
  have ids: "map cd_NodeID (concat (map ?g xs)) = map oc_NodeID xs" if "set xs \<subseteq> set ?ocs" for xs
    using that by (induction xs) (auto dest: known peer split: option.split)
  have list: "listCandidates c header ord = (Candidate_list (concat (map ?g ?ocs)), c)"
    by (simp add: listCandidates_def auth)
  moreover have "map cd_NodeID (concat (map ?g ?ocs)) = sort ord"
    using ids [of ?ocs] Candidates_spec(1) [OF ord] by simp
  moreover have "cd \<in> set (concat (map ?g ?ocs)) \<longleftrightarrow> (\<exists>p e. Get (co_registry c) (cd_NodeID cd) = Some p \<and>
       rl_endpoints (co_relay c) (cd_NodeID cd) = Some e \<and> cd = \<lparr>cd_NodeID = pr_NodeID p,
         cd_VirtualIP = addr_String (pr_VirtualIP p), cd_Endpoint = udp_String (ep_addr e),
         cd_Kind = CandidateRelayObserved, cd_ObservedAt = ep_observedAt e\<rparr>)" (is "?l \<longleftrightarrow> ?r") for cd
  proof
    assume ?l
    then obtain oc where oc: "oc \<in> set ?ocs" "cd \<in> set (?g oc)" unfolding set_concat set_map by blast
    then obtain p where "Get (co_registry c) (oc_NodeID oc) = Some p" using known by blast
    then show ?r using peer oc by (auto simp: Candidates_spec(2) [OF ord])
  next
    assume ?r
    then obtain p e where r: "Get (co_registry c) (cd_NodeID cd) = Some p"
       "rl_endpoints (co_relay c) (cd_NodeID cd) = Some e" "cd = \<lparr>cd_NodeID = pr_NodeID p,
         cd_VirtualIP = addr_String (pr_VirtualIP p), cd_Endpoint = udp_String (ep_addr e),
         cd_Kind = CandidateRelayObserved, cd_ObservedAt = ep_observedAt e\<rparr>" by blast
    let ?oc = "\<lparr>oc_NodeID = cd_NodeID cd, oc_Endpoint = udp_String (ep_addr e), oc_ObservedAt = ep_observedAt e\<rparr>"
    have "?oc \<in> set ?ocs" using r(2) by (simp add: Candidates_spec(2) [OF ord])
    moreover have "cd \<in> set (?g ?oc)" using r(1,3) by simp
    ultimately show ?l unfolding set_concat set_map by blast
  qed
  ultimately show ?thesis by blast
qed

theorem api_candidates_witness:
  "\<exists>c out. coord_reach (\<lambda>x. x) sample_flags c \<and>
     listCandidates c (''Bearer '' @ hex_encode (replicate 32 7)) [] = (Candidate_list out, c) \<and> out = []"
proof -
  obtain c p where c: "coord_reach (\<lambda>x. x) sample_flags c" "Get (co_registry c) ''n1'' = Some p"
    "pr_NodeID p = ''n1''" "pr_SessionToken p = hex_encode (replicate 32 7)"
    "rl_endpoints (co_relay c) = Map.empty" by (rule sample_coordinator)
  have "authenticatedPeer c (''Bearer '' @ hex_encode (replicate 32 7)) = Some p"
    by (rule sample_header [OF c(1-4)])
  moreover have "range_of (rl_endpoints (co_relay c)) []" by (simp add: range_of_def c(5))
  ultimately show ?thesis using api_candidates [OF c(1)] c(1) by fastforce
qed


text \<open>C14: A ticket a peer requests for another registered peer names exactly the two of them, and a
  current peer that lists its tickets before the expiry finds it exactly if it is one of the two; it
  never sees a ticket of another pair.\<close>

theorem api_ticket_exchange:
  assumes reach: "coord_reach sha256 f c"
    and issue: "issueProbeTicket c header (Some target) (Some r) t0 = (Ticket t, c1)" "length r = 32"
    and peer: "authenticatedPeer c header' = Some q" and now: "now < pt_ExpiresAt t"
    and ord: "co_tickets c1 = Some m1" "range_of (tm_tickets (pruneLocked now m1)) ord"
  shows "\<exists>source out c2. authenticatedPeer c header = Some source \<and> pt_SourceNode t = pr_NodeID source \<and>
    pt_TargetNode t = TrimSpace target \<and> Get (co_registry c) (TrimSpace target) \<noteq> None \<and>
    listProbeTickets c1 header' now ord = (Tickets (Some out), c2) \<and>
    (t \<in> set out \<longleftrightarrow> pr_NodeID q \<in> {pr_NodeID source, TrimSpace target}) \<and>
    (\<forall>u\<in>set out. now < pt_ExpiresAt u \<and> pr_NodeID q \<in> {pt_SourceNode u, pt_TargetNode u})"
proof -
  have inv: "coord_inv c" "known_only c" and reg: "registry_inv (co_registry c)"
    using coord_reach_inv [OF reach] by (auto simp: coord_inv_def)
  have trim: "TrimSpace (pr_NodeID p) = pr_NodeID p \<and> pr_NodeID p \<noteq> ''''" if "authenticatedPeer c h = Some p" for h p
    using that registry_invD(4) [OF reg] by (auto simp: authenticatedPeer_iff [OF reg] Get_def peer_ok_def)
  show ?thesis
  proof (cases rule: issueProbeTicket_cases [of c header "Some target" "Some r" t0])
    case (refused code e)
    then show ?thesis using issue by simp
  next
    case (issued source m target' r' t')
    then have t: "t = \<lparr>pt_Ticket = hex_encode r, pt_SourceNode = TrimSpace (pr_NodeID source), pt_TargetNode = TrimSpace target,
            pt_IssuedAt = t0, pt_ExpiresAt = t0 + tm_ttl m\<rparr>"
      and c1: "c1 = c\<lparr>co_tickets := Some ((pruneLocked t0 m)\<lparr>tm_tickets := (tm_tickets (pruneLocked t0 m))(hex_encode r \<mapsto> t)\<rparr>)\<rparr>"
      using issue(1) by auto
    have m1: "tm_tickets m1 (hex_encode r) = Some t" using ord(1) c1 by auto
    have "coord_inv c1" using issueProbeTicket_inv [OF inv, of "Some r" header "Some target" t0] issue by simp
    then have m1inv: "ticket_inv m1" using ord(1) by (simp add: coord_inv_def)
    have auth1: "authenticatedPeer c1 header' = Some q" using peer by (simp add: c1)
    have q: "TrimSpace (pr_NodeID q) \<noteq> ''''" using trim [OF peer] by simp
    obtain out where out: "fst (ListForNode m1 (pr_NodeID q) now ord) = Some out"
      "set out = {u \<in> ran (tm_tickets m1). now < pt_ExpiresAt u \<and> TrimSpace (pr_NodeID q) \<in> {pt_SourceNode u, pt_TargetNode u}}"
      by (rule ListForNode_eq [OF m1inv q ord(2)])
    have "\<exists>c2. listProbeTickets c1 header' now ord = (Tickets (Some out), c2)"
      using out(1) by (auto simp: listProbeTickets_def auth1 ord(1) split: prod.split)
    moreover have "t \<in> ran (tm_tickets m1)" using m1 by (auto simp: ran_def)
    then have "t \<in> set out \<longleftrightarrow> pr_NodeID q \<in> {pr_NodeID source, TrimSpace target}"
      using now t trim [OF peer] trim [OF issued(1)] unfolding out(2) by auto
    moreover have "\<forall>u\<in>set out. now < pt_ExpiresAt u \<and> pr_NodeID q \<in> {pt_SourceNode u, pt_TargetNode u}"
      unfolding out(2) using trim [OF peer] by auto
    ultimately show ?thesis using issued(1,3,6) t trim [OF issued(1)] by auto
  qed
qed


theorem api_ticket_exchange_witness:
  "\<exists>c c1 t out c2. coord_reach (\<lambda>x. x) sample_flags c \<and>
     issueProbeTicket c (''Bearer '' @ hex_encode (replicate 32 7)) (Some ''n2'') (Some (replicate 32 9)) 10 = (Ticket t, c1) \<and>
     listProbeTickets c1 (''Bearer '' @ hex_encode (replicate 32 8)) 11 [hex_encode (replicate 32 9)] = (Tickets (Some out), c2) \<and>
     t \<in> set out"
proof -
  let ?h1 = "''Bearer '' @ hex_encode (replicate 32 7)" and ?h2 = "''Bearer '' @ hex_encode (replicate 32 8)"
  let ?k = "hex_encode (replicate 32 9)"
  obtain c p q where c: "coord_reach (\<lambda>x. x) sample_flags c" "Get (co_registry c) ''n1'' = Some p" "Get (co_registry c) ''n2'' = Some q"
    "pr_NodeID p = ''n1''" "pr_NodeID q = ''n2''" "pr_SessionToken p = hex_encode (replicate 32 7)"
    "pr_SessionToken q = hex_encode (replicate 32 8)" "co_tickets c = Some (NewTicketManager 30000000000)" by (rule sample_pair)
  have trim: "TrimSpace ''n1'' = ''n1''" "TrimSpace ''n2'' = ''n2''" by code_simp+
  have a1: "authenticatedPeer c ?h1 = Some p" by (rule sample_header [OF c(1,2,4,6)])
  have a2: "authenticatedPeer c ?h2 = Some q" by (rule sample_header [OF c(1,3,5,7)])
  obtain t c1 where i: "issueProbeTicket c ?h1 (Some ''n2'') (Some (replicate 32 9)) 10 = (Ticket t, c1)"
    and e: "pt_ExpiresAt t = 30000000010" and k: "pt_Ticket t = ?k"
    and t1: "co_tickets c1 = Some \<lparr>tm_ttl = 30000000000, tm_tickets = [?k \<mapsto> t]\<rparr>"
    using a1 c(3,4,8)
    by (simp add: issueProbeTicket_def trim Issue_def newProbeTicketToken_def NewTicketManager_def pruneLocked_def
        delete_where_def Let_def)
  have "range_of (tm_tickets (pruneLocked 11 \<lparr>tm_ttl = 30000000000, tm_tickets = [?k \<mapsto> t]\<rparr>)) [?k]"
    unfolding range_of_def ticket_store.sweep_entries
    by (auto simp: dom_def delete_where_def e split: if_splits)
  from api_ticket_exchange [OF c(1) i _ a2 _ t1 this] e obtain source out c2
    where "authenticatedPeer c ?h1 = Some source" "listProbeTickets c1 ?h2 11 [?k] = (Tickets (Some out), c2)"
      "t \<in> set out \<longleftrightarrow> pr_NodeID q \<in> {pr_NodeID source, TrimSpace ''n2''}" by auto
  moreover from this(3) have "t \<in> set out" by (simp add: c(5) trim)
  ultimately show ?thesis using c(1) i by blast
qed


end
