(* ===== verification/DirectPath.thy ===== *)
theory DirectPath
  imports ServerApi ClientPaths
begin

text \<open>
  How two clients come to a direct path: the ticket the coordinator issues to one of them
  (\<open>cmd/server/main.go\<close>, \<open>internal/p2p/tickets.go\<close>), the polls that bring it to both, and the exchange of
  probes (\<open>cmd/client/p2p_runtime.go\<close>).
\<close>

lemma next_tickets_other:
  "\<forall>u\<in>set ts. TicketIdentifier u \<noteq> Ok tid \<Longrightarrow> next_tickets r now ts m tid = m tid"
  by (induction ts arbitrary: m) (auto split: result.split)

lemma next_tickets_holds:
  assumes "t \<in> set ts" "keep_ticket r now t" "TicketIdentifier t = Ok tid"
    and "\<forall>u\<in>set ts. TicketIdentifier u = Ok tid \<longrightarrow> u = t"
  shows "next_tickets r now ts m tid = Some t"
  using assms
proof (induction ts arbitrary: m)
  case Nil
  from Nil.prems(1) show ?case by simp
next
  case (Cons u ts)
  show ?case
  proof (cases "t \<in> set ts")
    case True
    have "next_tickets r now ts m' tid = Some t" for m'
      by (rule Cons.IH [OF True Cons.prems(2,3)]) (simp add: Cons.prems(4))
    then show ?thesis by (simp split: result.split)
  next
    case False
    then have "\<forall>u\<in>set ts. TicketIdentifier u \<noteq> Ok tid" "u = t" using Cons.prems by auto
    then show ?thesis using Cons.prems(2,3) next_tickets_other [of ts tid] by simp
  qed
qed

lemma replaceTickets_holds:
  assumes "t \<in> set ts" "keep_ticket r now t" "TicketIdentifier t = Ok tid"
    and "\<forall>u\<in>set ts. TicketIdentifier u = Ok tid \<longrightarrow> u = t"
  shows "rt_tickets (replaceTickets r ts now) tid = Some t"
  using next_tickets_holds [OF assms] by (simp add: replaceTickets_def Let_def map_add_Some_iff)

lemma replaceTickets_frame:
  "rt_nodeID (replaceTickets r ts now) = rt_nodeID r" "rt_selector (replaceTickets r ts now) = rt_selector r"
  by (simp_all add: replaceTickets_def Let_def)

text \<open>A ticket the manager holds is listed for its nodes, and is still held after the listing.\<close>

lemma listed_ticket:
  assumes inv: "registry_inv (co_registry c)" "ticket_inv m" and held: "co_tickets c = Some m" "tm_tickets m k = Some t" "now < pt_ExpiresAt t"
    and peer: "authenticatedPeer c h = Some q" "pr_NodeID q \<in> {pt_SourceNode t, pt_TargetNode t}"
    and ord: "range_of (tm_tickets (pruneLocked now m)) ord"
    and listed: "listProbeTickets c h now ord = (Tickets (Some l), c')"
  shows "t \<in> set l" "co_tickets c' = Some (pruneLocked now m)" "co_registry c' = co_registry c"
    "tm_tickets (pruneLocked now m) k = Some t"
proof -
  note reg = inv(1) and m = inv(2)
  have trim: "TrimSpace (pr_NodeID q) = pr_NodeID q" "pr_NodeID q \<noteq> ''''"
    using peer registry_invD(4) [OF reg] by (auto simp: authenticatedPeer_iff [OF reg] Get_def peer_ok_def)
  obtain out where out: "fst (ListForNode m (pr_NodeID q) now ord) = Some out"
    "set out = {u \<in> ran (tm_tickets m). now < pt_ExpiresAt u \<and> TrimSpace (pr_NodeID q) \<in> {pt_SourceNode u, pt_TargetNode u}}"
    by (rule ListForNode_eq [OF m _ ord, of "pr_NodeID q"]) (use trim in simp_all)
  have l: "l = out" and c': "c' = c\<lparr>co_tickets := Some (snd (ListForNode m (pr_NodeID q) now ord))\<rparr>"
    using listed out(1) by (auto simp: listProbeTickets_def peer(1) held(1) split: prod.splits)
  show "t \<in> set l" using held peer(2) trim by (auto simp: l out(2) ran_def)
  show "co_tickets c' = Some (pruneLocked now m)" "co_registry c' = co_registry c"
    using trim by (simp_all add: c' ListForNode_def Let_def)
  show "tm_tickets (pruneLocked now m) k = Some t"
    using held(2,3) by (simp add: ticket_store.sweep_live)
qed

text \<open>What the coordinator holds after it issued a ticket.\<close>

lemma issued_ticket:
  assumes inv: "coord_inv c" "known_only c"
    and issue: "issueProbeTicket c h (Some target) (Some tok) t0 = (Ticket t, c1)" "length tok = 32"
  obtains source m where "authenticatedPeer c h = Some source" "pt_SourceNode t = pr_NodeID source"
    "pt_TargetNode t = TrimSpace target" "TicketIdentifier t = Ok (hex_encode (Sum256 tok))"
    "co_tickets c1 = Some m" "tm_tickets m (hex_encode tok) = Some t" "co_registry c1 = co_registry c" "registry_inv (co_registry c)" "ticket_inv m"
proof (cases rule: issueProbeTicket_cases [of c h "Some target" "Some tok" t0])
  case (refused code e)
  then show thesis using issue by simp
next
  case (issued source m target' r' t')
  have reg: "registry_inv (co_registry c)" using inv(1) by (simp add: coord_inv_def)
  have "TrimSpace (pr_NodeID source) = pr_NodeID source"
    using issued(1) registry_invD(4) [OF reg] by (auto simp: authenticatedPeer_iff [OF reg] Get_def peer_ok_def)
  moreover have "coord_inv c1" using issueProbeTicket_inv [OF inv, of "Some tok" h "Some target" t0] issue by simp
  moreover have "ticket_inv m1" if "co_tickets c1 = Some m1" for m1
    using \<open>coord_inv c1\<close> that by (simp add: coord_inv_def)
  moreover have "TicketIdentifier t = Ok (hex_encode (Sum256 tok))" if "pt_Ticket t = hex_encode tok"
    using issue(2) by (simp add: that TicketIdentifier_def probeTicketSecret_def)
  ultimately show thesis using issued issue reg that by auto
qed

text \<open>C26: A ticket issued to one client about another opens a direct path between them: once both have
  polled their tickets, a probe of the first, answered by the second, makes the first select the direct
  path at the endpoint the answer came from, for a path's time to live. Both listings follow the issue
  and everything happens before the ticket expires; no other ticket listed has the same identifier, as
  it would need a collision of SHA-256.\<close>

theorem ticket_opens_path:
  assumes reach: "coord_reach sha256 f c"
    and issue: "issueProbeTicket c hA (Some target) (Some tok) t0 = (Ticket t, c1)" "length tok = 32"
    and nodes: "authenticatedPeer c hA = Some pa" "rt_nodeID a = pr_NodeID pa"
      "authenticatedPeer c hB = Some pb" "rt_nodeID b = pr_NodeID pb" "pr_NodeID pb = TrimSpace target"
    and lists: "listProbeTickets c1 hA t1 ordA = (Tickets (Some la), c2)"
      "listProbeTickets c2 hB t2 ordB = (Tickets (Some lb), c3)"
    and orders: "co_tickets c1 = Some m1" "range_of (tm_tickets (pruneLocked t1 m1)) ordA"
      "range_of (tm_tickets (pruneLocked t2 (pruneLocked t1 m1))) ordB"
    and live: "\<forall>x\<in>{t1, t2, u1, u2, t4, t5}. x < pt_ExpiresAt t"
    and unique: "\<forall>u\<in>set la \<union> set lb. TicketIdentifier u = TicketIdentifier t \<longrightarrow> u = t"
    and probe: "sendProbe (replaceTickets a la u1) t cand (Some r) resolve True t3 = (Ok (), a1, out)"
    and utf8: "valid_utf8 (bytes_of (rt_nodeID a))" "valid_utf8 (bytes_of (rt_nodeID b))"
    and epB: "epB = \<lparr>ua_IP = Addr4 v, ua_Port = port, ua_Zone = ''''\<rparr>" "0 \<le> port" "port < 65536"
    and later: "t5 \<noteq> 0" "t6 < t5 + se_directTTL (rt_selector a)"
  shows "\<exists>w w' endpoint a2. resolve (cd_Endpoint cand) = Some endpoint \<and> out = [(w, endpoint)] \<and>
    HandleDatagram clock (replaceTickets b lb u2) w epA t4 True = (Ok (), replaceTickets b lb u2, [(w', epA)]) \<and>
    HandleDatagram clock' a1 w' epB t5 wr = (Ok (), a2, []) \<and>
    fst (SelectPath t6 (rt_selector a2) (rt_nodeID b)) = PathDirect (udp_String epB)"
proof -
  have inv: "coord_inv c" "known_only c" using coord_reach_inv [OF reach] by simp_all
  obtain source m where i: "authenticatedPeer c hA = Some source" "pt_SourceNode t = pr_NodeID source"
    "pt_TargetNode t = TrimSpace target" "TicketIdentifier t = Ok (hex_encode (Sum256 tok))"
    "co_tickets c1 = Some m" "tm_tickets m (hex_encode tok) = Some t" "co_registry c1 = co_registry c"
    "registry_inv (co_registry c)" "ticket_inv m"
    by (rule issued_ticket [OF inv issue])
  let ?id = "hex_encode (Sum256 tok)"
  have ends: "pt_SourceNode t = rt_nodeID a" "pt_TargetNode t = rt_nodeID b" using i nodes by simp_all
  have auth: "authenticatedPeer d h = authenticatedPeer c h" if "co_registry d = co_registry c" for d h
    using that by (simp add: authenticatedPeer_def Let_def)
  have m: "m1 = m" using orders(1) i(5) by simp
  have a: "registry_inv (co_registry c1)" "t1 < pt_ExpiresAt t" "authenticatedPeer c1 hA = Some pa"
    "pr_NodeID pa \<in> {pt_SourceNode t, pt_TargetNode t}" "range_of (tm_tickets (pruneLocked t1 m)) ordA"
    using live nodes ends orders(2) auth [OF i(7)] i(7,8) m by simp_all
  note A = listed_ticket [OF a(1) i(9,5,6) a(2-5) lists(1)]
  have b: "registry_inv (co_registry c2)" "t2 < pt_ExpiresAt t" "authenticatedPeer c2 hB = Some pb"
    "pr_NodeID pb \<in> {pt_SourceNode t, pt_TargetNode t}" "range_of (tm_tickets (pruneLocked t2 (pruneLocked t1 m))) ordB"
    using live nodes ends orders(3) auth [of c2 hB] A(3) i(7,8) m by simp_all
  note B = listed_ticket(1) [OF b(1) pruneLocked_inv [OF i(9)] A(2,4) b(2-5) lists(2)]
  have expired: "\<not> ticket_expired t x" if "x \<in> {t1, t2, u1, u2, t4, t5}" for x
    using live that by (auto simp: ticket_expired_def)
  have held: "rt_tickets (replaceTickets a la u1) ?id = Some t" "rt_tickets (replaceTickets b lb u2) ?id = Some t"
    by (rule replaceTickets_holds [OF A(1) _ i(4)], use expired ends unique i(4) in \<open>simp_all add: keep_ticket_def\<close>)
       (rule replaceTickets_holds [OF B _ i(4)], use expired ends unique i(4) in \<open>simp_all add: keep_ticket_def\<close>)
  show ?thesis
    using probe_answered [OF probe i(4) held, of t4 t5 epB v port t6 clock epA clock' wr] ends utf8 epB later expired
    by (auto simp: replaceTickets_frame)
qed

section \<open>A coordinator and two clients\<close>

lemma sample_polled:
  "replaceTickets (sample_client n c) [sample_ticket] 11 = sample_client n c" if "n = ''n1'' \<or> n = ''n2''"
proof -
  let ?r = "sample_client n c"
  have keep: "keep_ticket ?r 11 sample_ticket" "\<not> ticket_expired sample_ticket 11"
    using that by (auto simp: keep_ticket_def sample_ticket_def ticket_expired_def)
  have "replaceTickets ?r [sample_ticket] 11 = ?r\<lparr>rt_tickets := rt_tickets ?r, rt_pending := rt_pending ?r\<rparr>"
    unfolding replaceTickets_def Let_def
    by (rule arg_cong2 [where f = "\<lambda>T P. ?r\<lparr>rt_tickets := T, rt_pending := P\<rparr>"])
       (use keep in \<open>auto simp: fun_eq_iff delete_where_def map_add_def sample_identifier split: option.split\<close>)
  then show ?thesis by simp
qed

theorem ticket_opens_path_witness:
  "\<exists>c c1 c2 c3 a1 w w' a2. coord_reach (\<lambda>x. x) sample_flags c \<and>
     issueProbeTicket c (''Bearer '' @ hex_encode (replicate 32 7)) (Some ''n2'') (Some (replicate 32 9)) 10 = (Ticket sample_ticket, c1) \<and>
     listProbeTickets c1 (''Bearer '' @ hex_encode (replicate 32 7)) 11 [hex_encode (replicate 32 9)] = (Tickets (Some [sample_ticket]), c2) \<and>
     listProbeTickets c2 (''Bearer '' @ hex_encode (replicate 32 8)) 11 [hex_encode (replicate 32 9)] = (Tickets (Some [sample_ticket]), c3) \<and>
     HandleDatagram 12 client2 w sample_udp 12 True = (Ok (), client2, [(w', sample_udp)]) \<and>
     HandleDatagram 13 a1 w' sample_udp 13 True = (Ok (), a2, []) \<and>
     fst (SelectPath 14 (rt_selector a2) ''n2'') = PathDirect (udp_String sample_udp)"
proof -
  let ?h1 = "''Bearer '' @ hex_encode (replicate 32 7)" and ?h2 = "''Bearer '' @ hex_encode (replicate 32 8)"
  let ?k = "hex_encode (replicate 32 9)" and ?m = "\<lparr>tm_ttl = 30000000000, tm_tickets = [hex_encode (replicate 32 9) \<mapsto> sample_ticket]\<rparr>"
  obtain c p q where c: "coord_reach (\<lambda>x. x) sample_flags c" "Get (co_registry c) ''n1'' = Some p" "Get (co_registry c) ''n2'' = Some q"
    "pr_NodeID p = ''n1''" "pr_NodeID q = ''n2''" "pr_SessionToken p = hex_encode (replicate 32 7)"
    "pr_SessionToken q = hex_encode (replicate 32 8)" "co_tickets c = Some (NewTicketManager 30000000000)" by (rule sample_pair)
  note trim = sample_names
  have a1: "authenticatedPeer c ?h1 = Some p" by (rule sample_header [OF c(1,2,4,6)])
  have a2: "authenticatedPeer c ?h2 = Some q" by (rule sample_header [OF c(1,3,5,7)])
  let ?c1 = "c\<lparr>co_tickets := Some ?m\<rparr>"
  have i: "issueProbeTicket c ?h1 (Some ''n2'') (Some (replicate 32 9)) 10 = (Ticket sample_ticket, ?c1)"
    using a1 c(3,4,8)
    by (simp add: issueProbeTicket_def trim Issue_def newProbeTicketToken_def NewTicketManager_def pruneLocked_def
        delete_where_def Let_def sample_ticket_def)
  have auth: "authenticatedPeer ?c1 h = authenticatedPeer c h" for h by (simp add: authenticatedPeer_def Let_def)
  have prune: "pruneLocked 11 ?m = ?m" by (auto simp: pruneLocked_def delete_where_def sample_ticket_def fun_eq_iff)
  have "ListForNode ?m n 11 [?k] = (Some [sample_ticket], ?m)" if "n = ''n1'' \<or> n = ''n2''" for n
    using that trim by (auto simp: ListForNode_def prune Let_def range_values_def) (auto simp: sample_ticket_def)
  then have lists: "listProbeTickets ?c1 ?h1 11 [?k] = (Tickets (Some [sample_ticket]), ?c1)"
    "listProbeTickets ?c1 ?h2 11 [?k] = (Tickets (Some [sample_ticket]), ?c1)"
    unfolding listProbeTickets_def auth a1 a2 by (simp_all add: c(4,5))
  have ords: "range_of (tm_tickets (pruneLocked 11 ?m)) [?k]" "range_of (tm_tickets (pruneLocked 11 (pruneLocked 11 ?m))) [?k]"
    unfolding prune by (simp_all add: range_of_def dom_def)
  obtain s w where send: "sendProbe client1 sample_ticket (sample_candidate ''n2'' 0x0A420003) (Some (replicate 16 5))
      (\<lambda>_. Some sample_udp) True 11 = (Ok (), s, [(w, sample_udp)])" by (rule sample_exchange)
  have polled: "replaceTickets client1 [sample_ticket] 11 = client1" "replaceTickets client2 [sample_ticket] 11 = client2"
    by (simp_all add: sample_polled)
  have send': "sendProbe (replaceTickets client1 [sample_ticket] 11) sample_ticket (sample_candidate ''n2'' 0x0A420003)
      (Some (replicate 16 5)) (\<lambda>_. Some sample_udp) True 11 = (Ok (), s, [(w, sample_udp)])"
    unfolding polled by (rule send)
  have e: "pt_ExpiresAt sample_ticket = 30000000010" by (simp add: sample_ticket_def)
  have "\<exists>w1 w' endpoint a2. Some sample_udp = Some endpoint \<and> [(w, sample_udp)] = [(w1, endpoint)] \<and>
    HandleDatagram 12 (replaceTickets client2 [sample_ticket] 11) w1 sample_udp 12 True =
      (Ok (), replaceTickets client2 [sample_ticket] 11, [(w', sample_udp)]) \<and>
    HandleDatagram 13 s w' sample_udp 13 True = (Ok (), a2, []) \<and>
    fst (SelectPath 14 (rt_selector a2) (rt_nodeID client2)) = PathDirect (udp_String sample_udp)"
    by (rule ticket_opens_path [OF c(1) i _ a1 _ a2 _ _ lists _ ords _ _ send', where v = "0x01020304" and port = 5])
       (use sample_facts trim c e in \<open>simp_all add: sample_udp_def\<close>)
  then obtain w' a2 where "HandleDatagram 12 client2 w sample_udp 12 True = (Ok (), client2, [(w', sample_udp)])"
    "HandleDatagram 13 s w' sample_udp 13 True = (Ok (), a2, [])"
    "fst (SelectPath 14 (rt_selector a2) ''n2'') = PathDirect (udp_String sample_udp)"
    unfolding polled sample_client_simps by blast
  with c(1) i lists show ?thesis by blast
qed

end
