(* ===== verification/TicketRace.thy ===== *)
theory TicketRace
  imports ServerApi
begin

text \<open>
  The handler \<open>issueProbeTicket\<close> of \<open>cmd/server/main.go\<close> against the sweeper: the registry and the tickets
  have locks of their own, so a sweep can run between the handler's look at the registry and its
  \<open>Issue\<close>. The handler is split there; run without interruption the two halves are the handler.
\<close>

definition issueProbeTicket_check :: "coordinator \<Rightarrow> string \<Rightarrow> string option \<Rightarrow> reply + string \<times> string" where
  "issueProbeTicket_check c header req =
     (case authenticatedPeer c header of
        None \<Rightarrow> Inl (HttpError 401 InvalidSession)
      | Some source \<Rightarrow>
        if co_tickets c = None then Inl (HttpError 503 TicketsUnavailable)
        else case req of
          None \<Rightarrow> Inl (HttpError 400 InvalidJSON)
        | Some target0 \<Rightarrow>
          let targetNode = TrimSpace target0
          in if targetNode = '''' then Inl (HttpError 400 TargetNodeRequired)
          else if targetNode = pr_NodeID source then Inl (HttpError 400 TicketSelfPair)
          else if Get (co_registry c) targetNode = None then Inl (HttpError 404 TargetNotFound)
          else Inr (pr_NodeID source, targetNode))"

definition issueProbeTicket_finish ::
    "coordinator \<Rightarrow> string \<times> string \<Rightarrow> bytes option \<Rightarrow> time \<Rightarrow> reply \<times> coordinator" where
  "issueProbeTicket_finish c pair rnd now =
     (case co_tickets c of
        None \<Rightarrow> (HandlerPanic, c)
      | Some tickets \<Rightarrow>
        (case Issue tickets (fst pair) (snd pair) rnd now of
           (Fail e, m) \<Rightarrow> (HttpError 400 (TicketError e), c\<lparr>co_tickets := Some m\<rparr>)
         | (Panic, m) \<Rightarrow> (HandlerPanic, c\<lparr>co_tickets := Some m\<rparr>)
         | (Ok ticket, m) \<Rightarrow> (Ticket ticket, c\<lparr>co_tickets := Some m\<rparr>)))"

lemma issueProbeTicket_split:
  "issueProbeTicket c header req rnd now =
     (case issueProbeTicket_check c header req of
        Inl r \<Rightarrow> (r, c)
      | Inr pair \<Rightarrow> issueProbeTicket_finish c pair rnd now)"
  by (cases "authenticatedPeer c header"; cases "co_tickets c"; cases req)
     (simp_all add: issueProbeTicket_def issueProbeTicket_check_def issueProbeTicket_finish_def Let_def)

text \<open>A reachable coordinator, a request for a ticket about a peer, and a sweep between the two halves
  of the handler: the sweep removes the peer with its tickets, and then the ticket is issued, so that
  the coordinator holds a live ticket of a peer it has forgotten.\<close>

theorem ticket_outlives_peer:
  "\<exists>c pair t. coord_reach sha256 sample_flags c \<and>
     issueProbeTicket_check c (''Bearer '' @ hex_encode (replicate 32 8)) (Some ''n1'') = Inr pair \<and>
     (let s = sweepTick c 60000000005 [''n1'', ''n2''] 60000000005;
          (r, c') = issueProbeTicket_finish s pair (Some (replicate 32 9)) 60000000006
      in r = Ticket t \<and> pt_TargetNode t = ''n1'' \<and> 60000000006 < pt_ExpiresAt t \<and>
         Get (co_registry c') ''n1'' = None \<and>
         (case co_tickets c' of None \<Rightarrow> False | Some m \<Rightarrow> tm_tickets m (pt_Ticket t) = Some t))"
proof -
  obtain c p q where c: "coord_reach sha256 sample_flags c" "Get (co_registry c) ''n1'' = Some p" "Get (co_registry c) ''n2'' = Some q"
    "pr_NodeID p = ''n1''" "pr_NodeID q = ''n2''" "pr_SessionToken p = hex_encode (replicate 32 7)"
    "pr_SessionToken q = hex_encode (replicate 32 8)" "co_tickets c = Some (NewTicketManager 30000000000)"
    "rg_peers (co_registry c) = [''n1'' \<mapsto> p, ''n2'' \<mapsto> q]" "pr_LastSeen p = 5" "pr_LastSeen q = 6"
    "co_leaseTTL c = 60000000000" by (rule sample_pair)
  have trim: "TrimSpace ''n1'' = ''n1''" "TrimSpace ''n2'' = ''n2''" by code_simp+
  let ?h = "''Bearer '' @ hex_encode (replicate 32 8)"
  have auth: "authenticatedPeer c ?h = Some q" by (rule sample_header [OF c(1,3,5,7)])
  have check: "issueProbeTicket_check c ?h (Some ''n1'') = Inr (''n2'', ''n1'')"
    unfolding issueProbeTicket_check_def auth by (simp add: c trim)
  have reg: "registry_inv (co_registry c)" using coord_reach_inv [OF c(1)] by (simp add: coord_inv_def)
  have ord: "range_of (rg_peers (co_registry c)) [''n1'', ''n2'']" by (auto simp: range_of_def c(9) dom_def)
  obtain gone r where e: "ExpireBefore (co_registry c) [''n1'', ''n2''] (60000000005 - co_leaseTTL c) = (gone, r)"
    by fastforce
  let ?s = "sweepTick c 60000000005 [''n1'', ''n2''] 60000000005"
  note s = sweepTick_eq [OF reg ord e, of 60000000005]
  have "rg_peers r ''n1'' = None" using ExpireBefore_spec(2) [OF reg ord e] c by (simp add: delete_where_None)
  then have gone: "Get (co_registry ?s) ''n1'' = None" by (simp add: s Get_def)
  obtain m where m: "co_tickets ?s = Some m" "ticket_inv m"
    by (simp add: s c(8) Prune_def pruneLocked_inv forget_nodes_inv NewTicketManager_inv)
  let ?t = "\<lparr>pt_Ticket = hex_encode (replicate 32 9), pt_SourceNode = ''n2'', pt_TargetNode = ''n1'',
      pt_IssuedAt = 60000000006, pt_ExpiresAt = 60000000006 + tm_ttl m\<rparr>"
  let ?m = "(pruneLocked 60000000006 m)\<lparr>tm_tickets :=
      (tm_tickets (pruneLocked 60000000006 m))(hex_encode (replicate 32 9) \<mapsto> ?t)\<rparr>"
  have fin: "issueProbeTicket_finish ?s (''n2'', ''n1'') (Some (replicate 32 9)) 60000000006 =
      (Ticket ?t, ?s\<lparr>co_tickets := Some ?m\<rparr>)"
    by (simp add: issueProbeTicket_finish_def m(1) Issue_def trim newProbeTicketToken_def Let_def)
  have "0 < tm_ttl m" using m(2) by (simp add: ticket_inv_def)
  then have issued: "case (Ticket ?t, ?s\<lparr>co_tickets := Some ?m\<rparr>) of (r, c') \<Rightarrow>
      r = Ticket ?t \<and> pt_TargetNode ?t = ''n1'' \<and> 60000000006 < pt_ExpiresAt ?t \<and> Get (co_registry c') ''n1'' = None \<and>
      (case co_tickets c' of None \<Rightarrow> False | Some m \<Rightarrow> tm_tickets m (pt_Ticket ?t) = Some ?t)"
    using gone by simp
  show ?thesis unfolding Let_def
    by (rule exI [of _ c], rule exI [of _ "(''n2'', ''n1'')"], rule exI [of _ ?t])
       (intro conjI c(1) check issued [folded fin])
qed

end
