(* ===== verification/ServerRun.thy ===== *)
theory ServerRun
  imports ServerApi
begin

text \<open>
  The coordinator as a program, \<open>main\<close> and \<open>runLeaseSweeper\<close> of \<open>cmd/server/main.go\<close>: the routes of its
  API, what a request does, the sweeper's loop and runs of all of it, and how the program ends.
\<close>

section \<open>Routes\<close>

datatype endpoint =
    HealthzPage
  | RegisterPeer
  | ListPeersOf
  | Heartbeat
  | ListCandidates
  | IssueProbeTicket
  | ListProbeTickets

definition routes :: "((string \<times> string) \<times> endpoint) list" where
  "routes =
     [((''GET'', ''/healthz''), HealthzPage),
      ((''POST'', ''/v1/peers''), RegisterPeer),
      ((''GET'', ''/v1/peers''), ListPeersOf),
      ((''POST'', ''/v1/heartbeat''), Heartbeat),
      ((''GET'', ''/v1/candidates''), ListCandidates),
      ((''POST'', ''/v1/p2p/tickets''), IssueProbeTicket),
      ((''GET'', ''/v1/p2p/tickets''), ListProbeTickets)]"

text \<open>\<open>http.ServeMux\<close> with patterns of a method and a path without wildcards: a \<open>GET\<close> pattern takes \<open>HEAD\<close>
  as well. No handler runs when no pattern fits.\<close>

definition route :: "string \<Rightarrow> string \<Rightarrow> endpoint option" where
  "route httpMethod path = map_of routes ((if httpMethod = ''HEAD'' then ''GET'' else httpMethod), path)"

section \<open>Requests\<close>

text \<open>
  A request, with what its body decodes to as a registration and as a request for a ticket, and what its
  handler reads from outside.
\<close>

record http_request =
  hq_Method :: string
  hq_Path :: string
  hq_Authorization :: string
  hq_register :: "string option"
  hq_target :: "string option"

record request_env =
  qe_now :: time
  qe_rnd :: "bytes option"
  qe_ord :: "string list"

datatype served = NoHandler | OkText | Served reply

definition run_endpoint :: "coordinator \<Rightarrow> endpoint \<Rightarrow> http_request \<Rightarrow> request_env \<Rightarrow> served \<times> coordinator" where
  "run_endpoint c e q env =
     (case e of
        HealthzPage \<Rightarrow> (OkText, c)
      | RegisterPeer \<Rightarrow> map_prod Served id (registerPeer c (hq_register q) (qe_now env) (qe_rnd env))
      | ListPeersOf \<Rightarrow> map_prod Served id (listPeers c (qe_ord env))
      | Heartbeat \<Rightarrow> map_prod Served id (heartbeat c (hq_Authorization q) (qe_now env))
      | ListCandidates \<Rightarrow> map_prod Served id (listCandidates c (hq_Authorization q) (qe_ord env))
      | IssueProbeTicket \<Rightarrow> map_prod Served id (issueProbeTicket c (hq_Authorization q) (hq_target q) (qe_rnd env) (qe_now env))
      | ListProbeTickets \<Rightarrow> map_prod Served id (listProbeTickets c (hq_Authorization q) (qe_now env) (qe_ord env)))"

definition serve_request :: "coordinator \<Rightarrow> http_request \<Rightarrow> request_env \<Rightarrow> served \<times> coordinator" where
  "serve_request c q env =
     (case route (hq_Method q) (hq_Path q) of
        None \<Rightarrow> (NoHandler, c)
      | Some e \<Rightarrow> run_endpoint c e q env)"

section \<open>The sweeper and whole runs\<close>

text \<open>A tick: its time, the order the peers are visited in, and the clock \<open>Prune\<close> reads.\<close>

definition runLeaseSweeper :: "coordinator \<Rightarrow> (time \<times> string list \<times> time) list \<Rightarrow> coordinator" where
  "runLeaseSweeper c ticks = foldl (\<lambda>c (now, ord, pruneNow). sweepTick c now ord pruneNow) c ticks"

datatype server_event =
    EvRequest http_request request_env
  | EvRelay "nat \<Rightarrow> bool" "string list" time time bytes udp_addr
  | EvTick time "string list" time

fun server_step :: "(bytes \<Rightarrow> bytes) \<Rightarrow> coordinator \<Rightarrow> server_event \<Rightarrow> coordinator" where
  "server_step sha256 c (EvRequest q env) = snd (serve_request c q env)"
| "server_step sha256 c (EvRelay wr ord t1 t2 b src) = snd (relayDatagram sha256 wr c ord t1 t2 b src)"
| "server_step sha256 c (EvTick now ord pruneNow) = runLeaseSweeper c [(now, ord, pruneNow)]"

definition serverRun :: "(bytes \<Rightarrow> bytes) \<Rightarrow> server_flags \<Rightarrow> server_event list \<Rightarrow> (server_fatal, coordinator) result" where
  "serverRun sha256 f evs = rbind (startServer f) (\<lambda>c. Ok (foldl (server_step sha256) c evs))"

text \<open>How \<open>main\<close> ends: \<open>udp\<close> tells whether the relay's socket opens, and \<open>ended\<close> whether \<open>ListenAndServe\<close>
  came back because of the shutdown, which follows a signal or the end of the relay.\<close>

definition serverExit :: "server_flags \<Rightarrow> bool \<Rightarrow> bool \<Rightarrow> nat" where
  "serverExit f udp ended =
     (case startServer f of
        Ok c \<Rightarrow> if \<not> udp then 1 else if ended then 0 else 1
      | _ \<Rightarrow> 1)"

section \<open>Runs are reachable\<close>

text \<open>Random bytes come in 32s and no token repeats; a sweep visits every peer once.\<close>

fun event_fits :: "coordinator \<Rightarrow> server_event \<Rightarrow> bool" where
  "event_fits c (EvRequest q env) \<longleftrightarrow>
     (case qe_rnd env of None \<Rightarrow> True | Some b \<Rightarrow> length b = 32 \<and> rg_byToken (co_registry c) (hex_encode b) = None)"
| "event_fits c (EvRelay wr ord t1 t2 b src) = True"
| "event_fits c (EvTick now ord pruneNow) = range_of (rg_peers (co_registry c)) ord"

fun events_fit :: "(bytes \<Rightarrow> bytes) \<Rightarrow> coordinator \<Rightarrow> server_event list \<Rightarrow> bool" where
  "events_fit sha256 c [] = True"
| "events_fit sha256 c (e # es) \<longleftrightarrow> event_fits c e \<and> events_fit sha256 (server_step sha256 c e) es"

lemma run_endpoint_reach:
  assumes c: "coord_reach sha256 f c" and rnd: "event_fits c (EvRequest q env)"
  shows "coord_reach sha256 f (snd (run_endpoint c e q env))"
proof (cases e)
  case RegisterPeer
  show ?thesis unfolding run_endpoint_def RegisterPeer
    by (simp, rule C_Step [OF c], rule C_Register) (use rnd in simp)
next
  case IssueProbeTicket
  show ?thesis unfolding run_endpoint_def IssueProbeTicket
    by (simp, rule C_Step [OF c], rule C_Issue) (use rnd in simp)
qed (use c in \<open>auto simp: run_endpoint_def listPeers_def intro: C_Step [OF c] coord_step.intros\<close>)

lemma server_step_reach: "coord_reach sha256 f c \<Longrightarrow> event_fits c e \<Longrightarrow> coord_reach sha256 f (server_step sha256 c e)"
proof (induction e)
  case (EvRequest q env)
  then show ?case using run_endpoint_reach by (simp add: serve_request_def split: option.split)
next
  case (EvRelay wr ord t1 t2 b src)
  then show ?case using C_Step C_Datagram by simp
next
  case (EvTick now ord pruneNow)
  then show ?case using C_Step C_Sweep by (simp add: runLeaseSweeper_def)
qed

lemma server_steps_reach:
  "coord_reach sha256 f c \<Longrightarrow> events_fit sha256 c es \<Longrightarrow> coord_reach sha256 f (foldl (server_step sha256) c es)"
  by (induction es arbitrary: c) (auto intro: server_step_reach)

section \<open>What a request without a session can do\<close>

lemma no_session:
  assumes "registry_inv (co_registry c)"
    and "\<forall>n p. Get (co_registry c) n = Some p \<longrightarrow> pr_SessionToken p \<noteq> bearerToken header"
  shows "authenticatedPeer c header = None"
proof -
  have "authenticatedPeer c header \<noteq> Some p" for p
    using assms(2) unfolding authenticatedPeer_iff [OF assms(1)] by metis
  then show ?thesis by (metis option.exhaust)
qed

lemma serverRun_reach:
  "startServer f = Ok c0 \<Longrightarrow> events_fit sha256 c0 evs \<Longrightarrow> serverRun sha256 f evs = Ok c \<Longrightarrow> coord_reach sha256 f c"
  using server_steps_reach [of sha256 f c0 evs] by (auto simp: serverRun_def intro: C_Start)

text \<open>C13: After any run of the coordinator - requests, datagrams of the relay and sweeps in any order - a
  request whose bearer token is no registered peer's session can do no more than register a node or read
  the public list of peers: on every other route of the API it gets 401, a path without a route gets no
  handler, and the state stays as it is but for the registry when the request registers.\<close>

theorem server_requires_session:
  assumes start: "startServer f = Ok c0" "events_fit sha256 c0 evs" and run: "serverRun sha256 f evs = Ok c"
    and bad: "\<forall>n p. Get (co_registry c) n = Some p \<longrightarrow> pr_SessionToken p \<noteq> bearerToken (hq_Authorization q)"
  shows "case serve_request c q env of (out, c') \<Rightarrow>
    (case route (hq_Method q) (hq_Path q) of
       None \<Rightarrow> out = NoHandler \<and> c' = c
     | Some HealthzPage \<Rightarrow> out = OkText \<and> c' = c
     | Some ListPeersOf \<Rightarrow> out = Served (Peers (map View (ListPeers (co_registry c) (qe_ord env)))) \<and> c' = c
     | Some RegisterPeer \<Rightarrow> co_relay c' = co_relay c \<and> co_tickets c' = co_tickets c
     | Some _ \<Rightarrow> out = Served (HttpError 401 InvalidSession) \<and> c' = c)"
proof -
  have "registry_inv (co_registry c)"
    using coord_reach_inv [OF serverRun_reach [OF start run]] by (simp add: coord_inv_def)
  from no_session [OF this bad] have none: "authenticatedPeer c (hq_Authorization q) = None" .
  show ?thesis
  proof (cases "route (hq_Method q) (hq_Path q)")
    case (Some e)
    then show ?thesis
      by (cases e)
         (auto simp: serve_request_def run_endpoint_def none heartbeat_def listCandidates_def issueProbeTicket_def
           listProbeTickets_def listPeers_def registerPeer_def split: option.split prod.split result.split)
  qed (simp add: serve_request_def)
qed

section \<open>A run\<close>

definition sample_registers :: server_event where
  "sample_registers = EvRequest
     \<lparr>hq_Method = ''POST'', hq_Path = ''/v1/peers'', hq_Authorization = '''', hq_register = Some ''n1'', hq_target = None\<rparr>
     \<lparr>qe_now = 5, qe_rnd = Some (replicate 32 7), qe_ord = []\<rparr>"

definition sample_beat :: http_request where
  "sample_beat =
     \<lparr>hq_Method = ''POST'', hq_Path = ''/v1/heartbeat'', hq_Authorization = ''Bearer guess'', hq_register = None, hq_target = None\<rparr>"

theorem server_requires_session_witness:
  "\<exists>c env. serverRun (\<lambda>x. x) sample_flags [sample_registers] = Ok c \<and>
     serve_request c sample_beat env = (Served (HttpError 401 InvalidSession), c)"
proof -
  obtain c0 where c0: "startServer sample_flags = Ok c0" "rg_peers (co_registry c0) = Map.empty" by (rule sample_start)
  let ?c = "server_step (\<lambda>x. x) c0 sample_registers" and ?env = "\<lparr>qe_now = 6, qe_rnd = None, qe_ord = []\<rparr>"
  have run: "serverRun (\<lambda>x. x) sample_flags [sample_registers] = Ok ?c" by (simp add: serverRun_def c0(1))
  have inv0: "registry_inv (co_registry c0)"
    using coord_reach_inv [OF C_Start [OF c0(1)]] by (simp add: coord_inv_def)
  have "rg_byToken (co_registry c0) t = None" for t
    using registry_invD(6) [OF inv0, of t] c0(2) by (metis not_None_eq option.distinct(1))
  then have fit: "events_fit (\<lambda>x. x) c0 [sample_registers]" by (simp add: sample_registers_def)
  have inv: "registry_inv (co_registry ?c)"
    using coord_reach_inv [OF serverRun_reach [OF c0(1) fit run]] by (simp add: coord_inv_def)
  have t: "bearerToken (hq_Authorization sample_beat) = ''guess''" unfolding sample_beat_def by code_simp
  have "pr_SessionToken p \<noteq> ''guess''" if held: "Get (co_registry ?c) n = Some p" for n p
  proof -
    obtain b where "length b = 32" "pr_SessionToken p = hex_encode b"
      using held registry_invD(4) [OF inv] by (auto simp: Get_def peer_ok_def)
    then have "length (pr_SessionToken p) \<noteq> length ''guess''" by (simp add: length_hex_encode)
    then show ?thesis by metis
  qed
  then have bad: "\<forall>n p. Get (co_registry ?c) n = Some p \<longrightarrow> pr_SessionToken p \<noteq> bearerToken (hq_Authorization sample_beat)"
    unfolding t by blast
  have "route (hq_Method sample_beat) (hq_Path sample_beat) = Some Heartbeat"
    by (simp add: sample_beat_def route_def routes_def)
  with server_requires_session [OF c0(1) fit run bad, of ?env] run show ?thesis
    by (cases "serve_request ?c sample_beat ?env") auto
qed

end
