(* ===== verification/MeshFirewall.thy ===== *)
theory MeshFirewall
  imports GoAddrParse "HOL-Library.Sublist"
begin

text \<open>
  The temporary firewall of the connectivity checker, \<open>cmd/meshcheck/firewall_linux.go\<close>. The commands run
  are recorded in a log with their outcome, which is the environment's: \<open>exec n args\<close> says whether the
  \<open>n\<close>-th command, with these arguments, succeeds.
\<close>

type_synonym fw_log = "(string list \<times> bool) list"
type_synonym fw_exec = "nat \<Rightarrow> string list \<Rightarrow> bool"

datatype firewall_error =
    ErrNotRoot
  | ErrNoIptables
  | ErrRelayText
  | ErrRelayPort
  | ErrRelayHostEmpty
  | ErrRelayHostIPv6
  | ErrRelayResolve
  | ErrRelayNoIPv4
  | ErrFirewallCommand "string list"

record firewall =
  fw_chain :: string
  fw_once :: bool \<comment> \<open>whether the cleanup has run\<close>
  fw_err :: bool

section \<open>Commands\<close>

definition fw_run :: "fw_exec \<Rightarrow> string list \<Rightarrow> fw_log \<Rightarrow> bool \<times> fw_log" where
  "fw_run exec args log =
     (let fullArgs = [''-w'', ''3''] @ args; ok = exec (length log) fullArgs in (ok, log @ [(fullArgs, ok)]))"

text \<open>All three commands run, whatever the others gave; the result is whether all succeeded.\<close>

definition fw_cleanup :: "fw_exec \<Rightarrow> string \<Rightarrow> fw_log \<Rightarrow> bool \<times> fw_log" where
  "fw_cleanup exec chain log =
     (let (ok1, log) = fw_run exec [''-D'', ''OUTPUT'', ''-p'', ''udp'', ''-j'', chain] log;
          (ok2, log) = fw_run exec [''-F'', chain] log;
          (ok3, log) = fw_run exec [''-X'', chain] log
      in (ok1 \<and> ok2 \<and> ok3, log))"

text \<open>\<open>Close\<close> runs the cleanup once and remembers whether it failed.\<close>

definition fw_Close :: "fw_exec \<Rightarrow> firewall \<Rightarrow> fw_log \<Rightarrow> bool \<times> firewall \<times> fw_log" where
  "fw_Close exec fw log =
     (let (fw, log) = (if fw_once fw then (fw, log)
        else let (ok, log) = fw_cleanup exec (fw_chain fw) log in (fw\<lparr>fw_once := True, fw_err := \<not> ok\<rparr>, log))
      in (\<not> fw_err fw, fw, log))"

section \<open>Installation\<close>

text \<open>The loop that drops addresses already seen.\<close>

fun unique_ipv4 :: "addr set \<Rightarrow> addr list \<Rightarrow> addr list" where
  "unique_ipv4 seen [] = []"
| "unique_ipv4 seen (a # as) =
     (if \<not> addr_Is4 a then unique_ipv4 seen as
      else if a \<in> seen then unique_ipv4 seen as
      else a # unique_ipv4 (insert a seen) as)"

definition resolveRelayIPv4 :: "(string \<Rightarrow> addr list option) \<Rightarrow> string \<Rightarrow> (firewall_error, addr list) result" where
  "resolveRelayIPv4 lookup host0 =
     (let host = TrimCut (TrimSpace host0) ''[]''
      in if host = '''' then Fail ErrRelayHostEmpty
      else case ParseAddr host of
        Some a \<Rightarrow> if \<not> addr_Is4 a then Fail ErrRelayHostIPv6 else Ok [a]
      | None \<Rightarrow>
        (case lookup host of
           None \<Rightarrow> Fail ErrRelayResolve
         | Some addrs \<Rightarrow> Ok (unique_ipv4 {} addrs)))"

text \<open>\<open>strconv.Atoi\<close>: an optional sign and decimal digits, within 64 bits.\<close>

definition Atoi :: "string \<Rightarrow> int option" where
  "Atoi s =
     (let (neg, ds) = (case s of c # r \<Rightarrow> if c = CHR ''-'' then (True, r) else if c = CHR ''+'' then (False, r) else (False, s)
          | [] \<Rightarrow> (False, []))
      in if ds = [] \<or> (\<exists>c \<in> set ds. dec_value c = None) then None
      else let n = int (digits_val 10 (map (the \<circ> dec_value) ds)); v = (if neg then - n else n)
      in if - (2 ^ 63) \<le> v \<and> v < 2 ^ 63 then Some v else None)"

definition return_rule :: "string \<Rightarrow> int \<Rightarrow> addr \<Rightarrow> string list" where
  "return_rule chain port ip =
     [''-A'', chain, ''-p'', ''udp'', ''-d'', addr_String ip, ''--dport'', int_string port, ''-j'', ''RETURN'']"

text \<open>Commands up to the first that fails, which is the error.\<close>

fun fw_run_all :: "fw_exec \<Rightarrow> string list list \<Rightarrow> fw_log \<Rightarrow> (firewall_error, unit) result \<times> fw_log" where
  "fw_run_all exec [] log = (Ok (), log)"
| "fw_run_all exec (args # rest) log =
     (let (ok, log) = fw_run exec args log
      in if ok then fw_run_all exec rest log else (Fail (ErrFirewallCommand args), log))"

text \<open>The rules up to the drop rule go into the new chain; the last command makes it effective.\<close>

definition fw_install ::
    "fw_exec \<Rightarrow> string \<Rightarrow> int \<Rightarrow> addr list \<Rightarrow> fw_log \<Rightarrow> (firewall_error, firewall) result \<times> fw_log" where
  "fw_install exec chain port ips log =
     (let (ok, log) = fw_run exec [''-N'', chain] log
      in if \<not> ok then (Fail (ErrFirewallCommand [''-N'', chain]), log)
      else case fw_run_all exec (map (return_rule chain port) ips @ [[''-A'', chain, ''-p'', ''udp'', ''-j'', ''DROP''],
             [''-I'', ''OUTPUT'', ''1'', ''-p'', ''udp'', ''-j'', chain]]) log of
        (Ok _, log) \<Rightarrow> (Ok \<lparr>fw_chain = chain, fw_once = False, fw_err = False\<rparr>, log)
      | (Fail e, log) \<Rightarrow> (Fail e, snd (fw_cleanup exec chain log))
      | (Panic, log) \<Rightarrow> (Panic, snd (fw_cleanup exec chain log)))"

text \<open>\<open>splitHostPort\<close> is \<open>net.SplitHostPort\<close>, \<open>pid\<close> the process id.\<close>

definition installRelayOnlyFirewall ::
    "fw_exec \<Rightarrow> bool \<Rightarrow> bool \<Rightarrow> (string \<Rightarrow> (string \<times> string) option) \<Rightarrow> (string \<Rightarrow> addr list option) \<Rightarrow> nat \<Rightarrow> string
     \<Rightarrow> fw_log \<Rightarrow> (firewall_error, firewall) result \<times> fw_log" where
  "installRelayOnlyFirewall exec root iptables splitHostPort lookup pid relayAddr log =
     (if \<not> root then (Fail ErrNotRoot, log)
      else if \<not> iptables then (Fail ErrNoIptables, log)
      else case splitHostPort relayAddr of
        None \<Rightarrow> (Fail ErrRelayText, log)
      | Some (host, portText) \<Rightarrow>
      (case Atoi portText of
        None \<Rightarrow> (Fail ErrRelayPort, log)
      | Some port \<Rightarrow>
        if port < 1 \<or> port > 65535 then (Fail ErrRelayPort, log)
        else case resolveRelayIPv4 lookup host of
          Fail e \<Rightarrow> (Fail e, log)
        | Panic \<Rightarrow> (Panic, log)
        | Ok ips \<Rightarrow>
          if ips = [] then (Fail ErrRelayNoIPv4, log)
          else fw_install exec (''XRMCHK'' @ hex_string pid) port ips log))"

section \<open>What is left of it\<close>

definition cleanup_commands :: "string \<Rightarrow> string list list" where
  "cleanup_commands chain = map (append [''-w'', ''3'']) [[''-D'', ''OUTPUT'', ''-p'', ''udp'', ''-j'', chain], [''-F'', chain], [''-X'', chain]]"

lemma fw_cleanup_log:
  "fw_cleanup exec chain log = (ok, log') \<Longrightarrow>
    \<exists>new. log' = log @ new \<and> map fst new = cleanup_commands chain \<and> (ok \<longleftrightarrow> (\<forall>x\<in>set new. snd x))"
  by (auto simp: fw_cleanup_def fw_run_def Let_def cleanup_commands_def)

text \<open>The commands run in order up to the first that fails.\<close>

definition fw_logged :: "string list list \<Rightarrow> fw_log" where
  "fw_logged cmds = map (\<lambda>c. ([''-w'', ''3''] @ c, True)) cmds"

lemma fw_run_all_log:
  "fw_run_all exec cmds log = (res, log') \<Longrightarrow>
    (res = Ok () \<and> log' = log @ fw_logged cmds) \<or>
    (\<exists>pre c. res = Fail (ErrFirewallCommand c) \<and> prefix (pre @ [c]) cmds \<and>
      log' = log @ fw_logged pre @ [([''-w'', ''3''] @ c, False)])"
proof (induction cmds arbitrary: log)
  case (Cons c cmds)
  show ?case
  proof (cases "exec (length log) ([''-w'', ''3''] @ c)")
    case True
    then have "fw_run_all exec cmds (log @ [([''-w'', ''3''] @ c, True)]) = (res, log')"
      using Cons.prems by (simp add: fw_run_def)
    from Cons.IH [OF this] show ?thesis
    proof (elim disjE exE)
      fix pre c'
      assume "res = Fail (ErrFirewallCommand c') \<and> prefix (pre @ [c']) cmds \<and>
        log' = (log @ [([''-w'', ''3''] @ c, True)]) @ fw_logged pre @ [([''-w'', ''3''] @ c', False)]"
      then show ?thesis by (intro disjI2 exI [of _ "c # pre"] exI [of _ c']) (simp add: fw_logged_def)
    qed (simp add: fw_logged_def)
  next
    case False
    then show ?thesis using Cons.prems
      by (intro disjI2 exI [of _ "[]"] exI [of _ c]) (auto simp: fw_run_def fw_logged_def)
  qed
qed (simp add: fw_logged_def)

text \<open>All that an installation runs after the chain is made.\<close>

definition install_commands :: "string \<Rightarrow> int \<Rightarrow> addr list \<Rightarrow> string list list" where
  "install_commands chain port ips = map (return_rule chain port) ips @
     [[''-A'', chain, ''-p'', ''udp'', ''-j'', ''DROP''], [''-I'', ''OUTPUT'', ''1'', ''-p'', ''udp'', ''-j'', chain]]"

lemma fw_install_log:
  assumes "fw_install exec chain port ips [] = (res, log)"
  shows "case res of
      Ok fw \<Rightarrow> fw = \<lparr>fw_chain = chain, fw_once = False, fw_err = False\<rparr> \<and> log = fw_logged ([''-N'', chain] # install_commands chain port ips)
    | _ \<Rightarrow> log = [([''-w'', ''3'', ''-N'', chain], False)] \<or>
        (\<exists>made new. log = fw_logged [[''-N'', chain]] @ made @ new \<and> map fst new = cleanup_commands chain)"
proof (cases "exec 0 [''-w'', ''3'', ''-N'', chain]")
  case True
  obtain out log2 where run: "fw_run_all exec (install_commands chain port ips) (fw_logged [[''-N'', chain]]) = (out, log2)" by fastforce
  obtain ok clean where c: "fw_cleanup exec chain log2 = (ok, clean)" by fastforce
  from fw_cleanup_log [OF c] obtain new where new: "clean = log2 @ new" "map fst new = cleanup_commands chain" by blast
  have res: "(res, log) = (case out of Ok _ \<Rightarrow> (Ok \<lparr>fw_chain = chain, fw_once = False, fw_err = False\<rparr>, log2)
      | Fail e \<Rightarrow> (Fail e, clean) | Panic \<Rightarrow> (Panic, clean))"
    using assms True run c by (auto simp: fw_install_def fw_run_def fw_logged_def install_commands_def split: result.splits)
  from fw_run_all_log [OF run] show ?thesis
  proof (elim disjE exE)
    fix pre c
    assume "out = Fail (ErrFirewallCommand c) \<and> prefix (pre @ [c]) (install_commands chain port ips) \<and>
      log2 = fw_logged [[''-N'', chain]] @ fw_logged pre @ [([''-w'', ''3''] @ c, False)]"
    then have "res = Fail (ErrFirewallCommand c)"
      "log = fw_logged [[''-N'', chain]] @ (fw_logged pre @ [([''-w'', ''3''] @ c, False)]) @ new" using res new by auto
    then show ?thesis using new(2) by (simp only: result.case) blast
  qed (use res in \<open>auto simp: fw_logged_def\<close>)
qed (use assms in \<open>auto simp: fw_install_def fw_run_def\<close>)

lemma fw_Close_twice:
  assumes "fw_once fw = False" "fw_Close exec fw log = (ok, fw', log')"
  shows "\<exists>new. log' = log @ new \<and> map fst new = cleanup_commands (fw_chain fw) \<and> (ok \<longleftrightarrow> list_all snd new)"
    "fw_Close exec fw' log' = (ok, fw', log')"
proof -
  obtain b l where c: "fw_cleanup exec (fw_chain fw) log = (b, l)" by fastforce
  then have "ok = b" "log' = l" "fw' = fw\<lparr>fw_once := True, fw_err := \<not> b\<rparr>" using assms by (auto simp: fw_Close_def)
  then show "\<exists>new. log' = log @ new \<and> map fst new = cleanup_commands (fw_chain fw) \<and> (ok \<longleftrightarrow> list_all snd new)"
    "fw_Close exec fw' log' = (ok, fw', log')" using fw_cleanup_log [OF c] by (auto simp: list_all_iff fw_Close_def)
qed

text \<open>A log that leaves nothing behind.\<close>

definition log_clean :: "fw_log \<Rightarrow> bool" where
  "log_clean log \<longleftrightarrow> log = [] \<or> (\<exists>chain. log = [([''-w'', ''3'', ''-N'', chain], False)]) \<or>
     (\<exists>chain made new. log = fw_logged [[''-N'', chain]] @ made @ new \<and> map fst new = cleanup_commands chain)"

lemma install_log:
  assumes "installRelayOnlyFirewall exec root iptables splitHostPort lookup pid relayAddr [] = (res, log)"
  shows "case res of
      Ok fw \<Rightarrow> fw_once fw = False \<and> (\<exists>port ips. ips \<noteq> [] \<and> 1 \<le> port \<and> port \<le> 65535 \<and>
        log = fw_logged ([''-N'', fw_chain fw] # install_commands (fw_chain fw) port ips))
    | _ \<Rightarrow> log_clean log"
proof -
  consider (none) "log = []" "\<forall>fw. res \<noteq> Ok fw"
    | (run) port ips where "1 \<le> port" "port \<le> 65535" "ips \<noteq> []" "fw_install exec (''XRMCHK'' @ hex_string pid) port ips [] = (res, log)"
    using assms unfolding installRelayOnlyFirewall_def
    by (auto simp: not_less split: if_splits option.splits result.splits prod.splits)
  then show ?thesis
  proof cases
    case run
    then show ?thesis using fw_install_log [OF run(4)] by (cases res) (auto simp: log_clean_def)
  qed (auto simp: log_clean_def split: result.splits)
qed

lemma Close_clean:
  assumes "fw_once fw = False" "log = fw_logged ([''-N'', fw_chain fw] # rules)" "fw_Close exec fw log = (ok, fw', log')"
  shows "log_clean log'"
  using fw_Close_twice(1) [OF assms(1,3)] assms(2) by (auto simp: log_clean_def fw_logged_def)


end
