(* ===== verification/MeshCheck.thy ===== *)
theory MeshCheck
  imports GoFloat HealthStatus MeshFirewall
begin

text \<open>
  The connectivity checker, \<open>cmd/meshcheck/main.go\<close>: its flags, the summary of its pings and the phases it
  runs. What a phase meets is a list of rounds, one per iteration of its loop, with the outcomes of the
  pings and of the status requests in them; the list ends where the phase's deadline passes.
\<close>

section \<open>Flags\<close>

datatype check_error =
    ErrPeerAddress
  | ErrStatusURL
  | ErrSamples
  | ErrDuration string
  | ErrRelayRequired
  | ErrNoPing
  | ErrReadStatus
  | ErrMeshNotRunning
  | ErrPingSamples string
  | ErrDirectNotObserved string
  | ErrFallback
  | ErrFirewall firewall_error
  | ErrFirewallCleanup

record check_flags =
  ck_status :: string
  ck_peer :: string
  ck_samples :: int
  ck_pingTimeout :: time
  ck_pollInterval :: time
  ck_directTimeout :: time
  ck_forceFallback :: bool
  ck_relay :: string
  ck_fallbackTimeout :: time
  ck_fallbackQuiet :: time
  ck_recoveryTimeout :: time

record check_config =
  cc_statusURL :: string
  cc_peerIP :: addr
  cc_samples :: int
  cc_forceFallback :: bool
  cc_relayAddr :: string
  cc_fallbackQuiet :: time

definition duration_flags :: "check_flags \<Rightarrow> (string \<times> time) list" where
  "duration_flags f =
     [(''-ping-timeout'', ck_pingTimeout f), (''-poll-interval'', ck_pollInterval f), (''-direct-timeout'', ck_directTimeout f),
      (''-fallback-timeout'', ck_fallbackTimeout f), (''-fallback-quiet'', ck_fallbackQuiet f),
      (''-recovery-timeout'', ck_recoveryTimeout f)]"

text \<open>\<open>ord\<close> is the order the map of the durations is walked in.\<close>

definition parseFlags :: "((string \<times> time) list \<Rightarrow> (string \<times> time) list) \<Rightarrow> check_flags \<Rightarrow> (check_error, check_config) result" where
  "parseFlags ord f =
     (case ParseAddr (TrimSpace (ck_peer f)) of
        None \<Rightarrow> Fail ErrPeerAddress
      | Some peerIP \<Rightarrow>
        if \<not> addr_Is4 peerIP then Fail ErrPeerAddress
        else if TrimSpace (ck_status f) = '''' then Fail ErrStatusURL
        else if ck_samples f \<le> 0 then Fail ErrSamples
        else case find (\<lambda>(name, d). d \<le> 0) (ord (duration_flags f)) of
          Some (name, d) \<Rightarrow> Fail (ErrDuration name)
        | None \<Rightarrow>
          if ck_forceFallback f \<and> TrimSpace (ck_relay f) = '''' then Fail ErrRelayRequired
          else Ok \<lparr>cc_statusURL = TrimSpace (ck_status f), cc_peerIP = peerIP, cc_samples = ck_samples f,
                 cc_forceFallback = ck_forceFallback f, cc_relayAddr = TrimSpace (ck_relay f),
                 cc_fallbackQuiet = ck_fallbackQuiet f\<rparr>)"

section \<open>Pings\<close>

text \<open>The text matched by the group of \<open>time[=<]([0-9]+(?:\.[0-9]+)?)\s*ms\<close> at the start of a text.\<close>

definition is_digit :: "char \<Rightarrow> bool" where
  "is_digit c \<longleftrightarrow> dec_value c \<noteq> None"

definition match_rtt :: "string \<Rightarrow> string option" where
  "match_rtt s =
     (if \<not> HasPrefix s ''time'' then None
      else case drop 4 s of
        [] \<Rightarrow> None
      | c # t \<Rightarrow>
        if c \<noteq> CHR ''='' \<and> c \<noteq> CHR ''<'' then None
        else let whole = takeWhile is_digit t; rest = dropWhile is_digit t
        in if whole = '''' then None
        else let (number, rest) =
               (case rest of
                  d # r \<Rightarrow>
                    if d = CHR ''.'' \<and> takeWhile is_digit r \<noteq> ''''
                    then (whole @ ''.'' @ takeWhile is_digit r, dropWhile is_digit r) else (whole, rest)
                | [] \<Rightarrow> (whole, rest))
        in if HasPrefix (dropWhile (\<lambda>c. of_char c \<in> {9 :: nat, 10, 12, 13, 32}) rest) ''ms'' then Some number else None)"

text \<open>The leftmost match.\<close>

fun find_rtt :: "string \<Rightarrow> string option" where
  "find_rtt [] = None"
| "find_rtt (c # s) = (case match_rtt (c # s) of Some n \<Rightarrow> Some n | None \<Rightarrow> find_rtt s)"

text \<open>\<open>strconv.ParseFloat\<close> of digits with at most one point: the nearest float, an error if it is infinite.\<close>

definition decimal_value :: "string \<Rightarrow> rat" where
  "decimal_value s =
     (let whole = takeWhile is_digit s; frac = drop (length whole + 1) s
      in of_nat (digits_val 10 (map (the \<circ> dec_value) (whole @ frac))) / 10 ^ length frac)"

definition parse_decimal :: "string \<Rightarrow> rat option" where
  "parse_decimal s = (let v = fl64 (decimal_value s) in if 2 ^ 1024 \<le> v then None else Some v)"

text \<open>
  Converting a float outside the range of 64 bits is up to the implementation: \<open>oob\<close>.
\<close>

definition parsePingRTT :: "(rat \<Rightarrow> time) \<Rightarrow> string \<Rightarrow> time option" where
  "parsePingRTT oob output =
     (case find_rtt output of
        None \<Rightarrow> None
      | Some text \<Rightarrow>
        (case parse_decimal text of
           None \<Rightarrow> None
         | Some ms \<Rightarrow> let x = fl64 (ms * 1000000) in Some (if x < 2 ^ 63 then \<lfloor>x\<rfloor> else oob x)))"

text \<open>One ping: the command's output, or \<open>None\<close> when it fails, and the time it took.\<close>

definition pingOnce :: "(rat \<Rightarrow> time) \<Rightarrow> string option \<Rightarrow> time \<Rightarrow> time option" where
  "pingOnce oob out elapsed =
     (case out of
        None \<Rightarrow> None
      | Some text \<Rightarrow> (case parsePingRTT oob text of Some rtt \<Rightarrow> Some rtt | None \<Rightarrow> Some elapsed))"

record ping_summary =
  ps_Attempts :: nat
  ps_Success :: nat
  ps_MinMS :: rat
  ps_AvgMS :: rat
  ps_MaxMS :: rat

text \<open>The sum of the durations is one of 64 bits.\<close>

definition summarizePings :: "nat \<Rightarrow> time list \<Rightarrow> ping_summary" where
  "summarizePings attempts rtts =
     (let summary = \<lparr>ps_Attempts = attempts, ps_Success = length rtts, ps_MinMS = 0, ps_AvgMS = 0, ps_MaxMS = 0\<rparr>
      in if rtts = [] then summary
      else let values = sort rtts;
               total = sint (word_of_int (sum_list values) :: 64 word);
               ms = (\<lambda>x. fl64 (x / 1000000))
      in summary\<lparr>ps_MinMS := ms (fl64 (of_int (values ! 0))),
           ps_AvgMS := ms (fl64 (fl64 (of_int total) / fl64 (of_nat (length values)))),
           ps_MaxMS := ms (fl64 (of_int (values ! (length values - 1))))\<rparr>)"

text \<open>The loop of \<open>collectPings\<close>; the list of the pings ends where the context is done.\<close>

fun collect_loop :: "int \<Rightarrow> int \<Rightarrow> time option list \<Rightarrow> time list \<Rightarrow> nat \<Rightarrow> time list \<times> nat" where
  "collect_loop successes maxAttempts [] rtts attempts = (rtts, attempts)"
| "collect_loop successes maxAttempts (p # ps) rtts attempts =
     (if int attempts < maxAttempts \<and> int (length rtts) < successes
      then collect_loop successes maxAttempts ps (case p of None \<Rightarrow> rtts | Some rtt \<Rightarrow> rtts @ [rtt]) (attempts + 1)
      else (rtts, attempts))"

definition collectPings :: "int \<Rightarrow> int \<Rightarrow> time option list \<Rightarrow> time list \<times> nat" where
  "collectPings successes maxAttempts pings =
     (if successes \<le> 0 \<or> maxAttempts \<le> 0 then ([], 0) else collect_loop successes maxAttempts pings [] 0)"

section \<open>Phases\<close>

record phase_result =
  ph_Name :: string
  ph_Passed :: bool
  ph_DurationMS :: int
  ph_Ping :: ping_summary
  ph_CountersBefore :: p2p_snapshot
  ph_CountersAfter :: p2p_snapshot
  ph_Note :: string

text \<open>What one iteration of a phase's loop meets; the pings in \<open>cr_more\<close> are those \<open>collectPings\<close> can make.\<close>

record check_round =
  cr_ping :: "time option"
  cr_status :: "health_snapshot option"
  cr_expired :: bool \<comment> \<open>whether the deadline has passed when the status is not read\<close>
  cr_changed :: time
  cr_now :: time
  cr_more :: "time option list"
  cr_confirm :: "health_snapshot option"

type_synonym phase_outcome = "phase_result \<times> (check_error, unit) result"

definition no_counters :: p2p_snapshot where
  "no_counters = \<lparr>ps_DirectHealthyMarks = 0, ps_DirectTX = 0, ps_DirectRX = 0, ps_DirectFallbacks = 0, ps_ReplayDrops = 0\<rparr>"

definition zero_phase :: "string \<Rightarrow> phase_result" where
  "zero_phase name = \<lparr>ph_Name = name, ph_Passed = False, ph_DurationMS = 0,
     ph_Ping = \<lparr>ps_Attempts = 0, ps_Success = 0, ps_MinMS = 0, ps_AvgMS = 0, ps_MaxMS = 0\<rparr>,
     ph_CountersBefore = no_counters, ph_CountersAfter = no_counters, ph_Note = ''''\<rparr>"

text \<open>A status that cannot be read is the zero value.\<close>

definition counters_of :: "health_snapshot option \<Rightarrow> p2p_snapshot" where
  "counters_of s = (case s of None \<Rightarrow> no_counters | Some snap \<Rightarrow> hs_P2P snap)"

definition add_rtt :: "time option \<Rightarrow> time list \<Rightarrow> time list" where
  "add_rtt p rtts = (case p of None \<Rightarrow> rtts | Some rtt \<Rightarrow> rtts @ [rtt])"

definition measurePhase ::
    "string \<Rightarrow> int \<Rightarrow> string \<Rightarrow> health_snapshot option \<Rightarrow> time option list \<Rightarrow> health_snapshot option \<Rightarrow> int \<Rightarrow> phase_outcome" where
  "measurePhase name count note initial pings after dur =
     (case initial of
        None \<Rightarrow> ((zero_phase name)\<lparr>ph_Note := note\<rparr>, Fail ErrReadStatus)
      | Some b \<Rightarrow>
        (let (rtts, attempts) = collectPings count count pings;
             phase = \<lparr>ph_Name = name, ph_Passed = (after \<noteq> None \<and> int (length rtts) = count), ph_DurationMS = dur,
               ph_Ping = summarizePings attempts rtts, ph_CountersBefore = hs_P2P b, ph_CountersAfter = counters_of after,
               ph_Note = note\<rparr>
         in if after = None then (phase, Fail ErrReadStatus)
            else if int (length rtts) \<noteq> count then (phase, Fail (ErrPingSamples name))
            else (phase, Ok ())))"

text \<open>\<open>final\<close> is the status read without a deadline, \<open>dur\<close> the time the phase took.\<close>

fun direct_loop ::
    "int \<Rightarrow> string \<Rightarrow> p2p_snapshot \<Rightarrow> health_snapshot option \<Rightarrow> int \<Rightarrow> check_round list \<Rightarrow> time list \<Rightarrow> nat \<Rightarrow> phase_outcome" where
  "direct_loop samples name initial final dur [] rtts attempts =
     (\<lparr>ph_Name = name, ph_Passed = False, ph_DurationMS = dur, ph_Ping = summarizePings attempts rtts,
        ph_CountersBefore = initial, ph_CountersAfter = counters_of final,
        ph_Note = ''timed out waiting for direct_tx to increase''\<rparr>, Fail (ErrDirectNotObserved name))"
| "direct_loop samples name initial final dur (r # rounds) rtts attempts =
     (let attempts = attempts + 1; rtts = add_rtt (cr_ping r) rtts
      in case cr_status r of
           None \<Rightarrow>
             if cr_expired r then direct_loop samples name initial final dur [] rtts attempts
             else (zero_phase name, Fail ErrReadStatus)
         | Some status \<Rightarrow>
             if ps_DirectTX (hs_P2P status) > ps_DirectTX initial \<and> length rtts > 0
             then let need = samples - int (length rtts);
                      (more, moreAttempts) = (if need > 0 then collectPings need (need * 2) (cr_more r) else ([], 0));
                      attempts = attempts + moreAttempts; rtts = rtts @ more;
                      passed = (int (length rtts) \<ge> samples);
                      phase = \<lparr>ph_Name = name, ph_Passed = passed, ph_DurationMS = dur, ph_Ping = summarizePings attempts rtts,
                        ph_CountersBefore = initial, ph_CountersAfter = counters_of final,
                        ph_Note = ''direct_tx increased while peer traffic remained reachable''\<rparr>
               in (phase, if passed then Ok () else Fail (ErrPingSamples name))
             else direct_loop samples name initial final dur rounds rtts attempts)"

record direct_env =
  de_before :: "health_snapshot option"
  de_rounds :: "check_round list"
  de_final :: "health_snapshot option"
  de_dur :: int

definition waitForDirect :: "int \<Rightarrow> string \<Rightarrow> direct_env \<Rightarrow> phase_outcome" where
  "waitForDirect samples name env =
     (case de_before env of
        None \<Rightarrow> (zero_phase name, Fail ErrReadStatus)
      | Some b \<Rightarrow> direct_loop samples name (hs_P2P b) (de_final env) (de_dur env) (de_rounds env) [] 0)"

section \<open>The relay fallback\<close>

text \<open>
  The loop of \<open>verifyFallback\<close>; the state is the last direct counter seen, when it changed, and the
  firewall with its log. The flag in the result is \<open>closed\<close>.
\<close>

definition fallback_name :: string where "fallback_name = ''relay-fallback''"

fun fallback_loop ::
    "fw_exec \<Rightarrow> int \<Rightarrow> time \<Rightarrow> p2p_snapshot \<Rightarrow> health_snapshot option \<Rightarrow> int \<Rightarrow> check_round list \<Rightarrow> u64 \<Rightarrow> time
     \<Rightarrow> time list \<Rightarrow> nat \<Rightarrow> firewall \<Rightarrow> fw_log \<Rightarrow> phase_outcome \<times> bool \<times> firewall \<times> fw_log" where
  "fallback_loop exec samples quiet initial final dur [] lastTX lastChange rtts attempts fw lg =
     ((\<lparr>ph_Name = fallback_name, ph_Passed = False, ph_DurationMS = dur, ph_Ping = summarizePings attempts rtts,
         ph_CountersBefore = initial, ph_CountersAfter = counters_of final,
         ph_Note = ''timed out before relay-only reachability was confirmed''\<rparr>, Fail ErrFallback), False, fw, lg)"
| "fallback_loop exec samples quiet initial final dur (r # rounds) lastTX lastChange rtts attempts fw lg =
     (let attempts = attempts + 1
      in case cr_status r of
           None \<Rightarrow>
             if cr_expired r then fallback_loop exec samples quiet initial final dur [] lastTX lastChange rtts attempts fw lg
             else ((zero_phase fallback_name, Fail ErrReadStatus), False, fw, lg)
         | Some status \<Rightarrow>
             (let tx = ps_DirectTX (hs_P2P status);
                  (lastTX, lastChange) = (if tx \<noteq> lastTX then (tx, cr_changed r) else (lastTX, lastChange))
              in case cr_ping r of
                Some rtt \<Rightarrow>
                  if time_Sub (cr_now r) lastChange \<ge> quiet
                  then let (confirmRTTs, confirmAttempts) = collectPings samples samples (cr_more r);
                           attempts = attempts + confirmAttempts; rtts = (rtts @ [rtt]) @ confirmRTTs
                    in (case cr_confirm r of
                          None \<Rightarrow> ((zero_phase fallback_name, Fail ErrReadStatus), False, fw, lg)
                        | Some confirm \<Rightarrow>
                            if int (length confirmRTTs) = samples \<and> ps_DirectTX (hs_P2P confirm) = tx
                            then let phase = \<lparr>ph_Name = fallback_name, ph_Passed = True, ph_DurationMS = dur,
                                       ph_Ping = summarizePings attempts rtts, ph_CountersBefore = initial,
                                       ph_CountersAfter = hs_P2P confirm,
                                       ph_Note = ''peer stayed reachable while direct_tx remained unchanged with non-relay UDP blocked''\<rparr>;
                                     (ok, fw, lg) = fw_Close exec fw lg
                              in if ok then ((phase, Ok ()), True, fw, lg)
                                 else ((phase\<lparr>ph_Passed := False\<rparr>, Fail ErrFirewallCleanup), True, fw, lg)
                            else fallback_loop exec samples quiet initial final dur rounds lastTX lastChange rtts attempts fw lg)
                  else fallback_loop exec samples quiet initial final dur rounds lastTX lastChange rtts attempts fw lg
              | None \<Rightarrow> fallback_loop exec samples quiet initial final dur rounds lastTX lastChange rtts attempts fw lg))"

record fallback_env =
  fe_before :: "health_snapshot option"
  fe_root :: bool
  fe_iptables :: bool
  fe_split :: "string \<Rightarrow> (string \<times> string) option"
  fe_lookup :: "string \<Rightarrow> addr list option"
  fe_pid :: nat
  fe_started :: time
  fe_rounds :: "check_round list"
  fe_final :: "health_snapshot option"
  fe_dur :: int

definition verifyFallback :: "fw_exec \<Rightarrow> check_config \<Rightarrow> fallback_env \<Rightarrow> phase_outcome \<times> fw_log" where
  "verifyFallback exec cfg env =
     (case fe_before env of
        None \<Rightarrow> ((zero_phase fallback_name, Fail ErrReadStatus), [])
      | Some b \<Rightarrow>
        (case installRelayOnlyFirewall exec (fe_root env) (fe_iptables env) (fe_split env) (fe_lookup env) (fe_pid env)
             (cc_relayAddr cfg) [] of
           (Fail e, lg) \<Rightarrow> (((zero_phase fallback_name)\<lparr>ph_CountersBefore := hs_P2P b\<rparr>, Fail (ErrFirewall e)), lg)
         | (Panic, lg) \<Rightarrow> ((zero_phase fallback_name, Panic), lg)
         | (Ok fw, lg) \<Rightarrow>
           (let (outcome, shut, fw, lg) = fallback_loop exec (cc_samples cfg) (cc_fallbackQuiet cfg) (hs_P2P b) (fe_final env)
                  (fe_dur env) (fe_rounds env) (ps_DirectTX (hs_P2P b)) (fe_started env) [] 0 fw lg
            in (outcome, if shut then lg else snd (snd (fw_Close exec fw lg))))))"

section \<open>The run\<close>

record check_report =
  rp_NodeID :: string
  rp_VirtualIP :: string
  rp_PeerIP :: string
  rp_StatusURL :: string
  rp_Relay :: string
  rp_StartedAt :: time
  rp_FinishedAt :: time
  rp_Passed :: bool
  rp_Phases :: "phase_result list"
  rp_FinalP2P :: p2p_snapshot

record check_env =
  ce_ping :: bool
  ce_started :: time
  ce_finished :: time
  ce_status :: "health_snapshot option"
  ce_baseBefore :: "health_snapshot option"
  ce_basePings :: "time option list"
  ce_baseAfter :: "health_snapshot option"
  ce_baseDur :: int
  ce_direct :: direct_env
  ce_fallback :: fallback_env
  ce_recovery :: direct_env
  ce_final :: "health_snapshot option"

definition check_finish ::
    "check_env \<Rightarrow> check_report \<Rightarrow> (check_error, unit) result \<Rightarrow> check_report \<times> (check_error, unit) result" where
  "check_finish env rep err =
     (rep\<lparr>rp_FinalP2P := (case ce_final env of None \<Rightarrow> rp_FinalP2P rep | Some status \<Rightarrow> hs_P2P status),
          rp_FinishedAt := ce_finished env, rp_Passed := (err = Ok ())\<rparr>, err)"

definition add_phase :: "phase_result \<Rightarrow> check_report \<Rightarrow> check_report" where
  "add_phase phase rep = rep\<lparr>rp_Phases := rp_Phases rep @ [phase]\<rparr>"

definition check_phases ::
    "fw_exec \<Rightarrow> check_config \<Rightarrow> check_env \<Rightarrow> check_report \<Rightarrow> (check_report \<times> (check_error, unit) result) \<times> fw_log" where
  "check_phases exec cfg env rep =
     (let (baseline, err) = measurePhase ''baseline-connectivity'' (cc_samples cfg)
            ''mesh peer must be reachable before path validation'' (ce_baseBefore env) (ce_basePings env) (ce_baseAfter env)
            (ce_baseDur env);
          rep = add_phase baseline rep
      in if err \<noteq> Ok () then (check_finish env rep err, [])
      else let (direct, err) = waitForDirect (cc_samples cfg) ''direct-path'' (ce_direct env);
               rep = add_phase direct rep
      in if err \<noteq> Ok () then (check_finish env rep err, [])
      else if \<not> cc_forceFallback cfg then (check_finish env rep (Ok ()), [])
      else let ((fallback, err), lg) = verifyFallback exec cfg (ce_fallback env);
               rep = add_phase fallback rep
      in if err \<noteq> Ok () then (check_finish env rep err, lg)
      else let (recovery, err) = waitForDirect (cc_samples cfg) ''direct-recovery'' (ce_recovery env);
               rep = add_phase recovery rep
      in (check_finish env rep err, lg))"

definition check_run ::
    "fw_exec \<Rightarrow> check_config \<Rightarrow> check_env \<Rightarrow> (check_report \<times> (check_error, unit) result) \<times> fw_log" where
  "check_run exec cfg env =
     (let rep = \<lparr>rp_NodeID = '''', rp_VirtualIP = '''', rp_PeerIP = addr_String (cc_peerIP cfg), rp_StatusURL = cc_statusURL cfg,
            rp_Relay = cc_relayAddr cfg, rp_StartedAt = ce_started env, rp_FinishedAt = 0, rp_Passed = False, rp_Phases = [],
            rp_FinalP2P = no_counters\<rparr>
      in if \<not> ce_ping env then (check_finish env rep (Fail ErrNoPing), [])
      else case ce_status env of
        None \<Rightarrow> (check_finish env rep (Fail ErrReadStatus), [])
      | Some status \<Rightarrow>
        (let rep = rep\<lparr>rp_NodeID := hs_NodeID status, rp_VirtualIP := hs_VirtualIP status\<rparr>
         in if \<not> ss_Enabled (hs_Mesh status) \<or> ss_State (hs_Mesh status) \<noteq> StateRunning
            then (check_finish env rep (Fail ErrMeshNotRunning), [])
            else check_phases exec cfg env rep))"

section \<open>What a report says\<close>

lemma summarizePings_Success [simp]: "ps_Success (summarizePings attempts rtts) = length rtts"
  by (simp add: summarizePings_def Let_def)

text \<open>What holds of a phase's result: passing is succeeding, and a phase that passed has enough samples.\<close>

definition phase_ok :: "int \<Rightarrow> string \<Rightarrow> phase_outcome \<Rightarrow> bool" where
  "phase_ok samples name p \<longleftrightarrow> ph_Name (fst p) = name \<and> ph_Passed (fst p) = (snd p = Ok ()) \<and>
     (snd p = Ok () \<longrightarrow> samples \<le> int (ps_Success (ph_Ping (fst p))))"

lemma measurePhase_ok: "phase_ok count name (measurePhase name count note initial pings after dur)"
  by (auto simp: measurePhase_def phase_ok_def zero_phase_def Let_def split: option.splits prod.splits)

lemma direct_loop_ok: "phase_ok samples name (direct_loop samples name initial final dur rounds rtts attempts)"
  by (induction rounds arbitrary: rtts attempts)
    (auto simp: phase_ok_def zero_phase_def Let_def split: option.splits prod.splits)

lemma direct_loop_evidence:
  "snd (direct_loop samples name initial final dur rounds rtts attempts) = Ok () \<Longrightarrow>
    \<exists>r \<in> set rounds. \<exists>status. cr_status r = Some status \<and> ps_DirectTX initial < ps_DirectTX (hs_P2P status)"
  by (induction rounds arbitrary: rtts attempts) (auto simp: Let_def split: option.splits if_splits prod.splits)

lemma waitForDirect_ok: "phase_ok samples name (waitForDirect samples name env)"
  by (auto simp: waitForDirect_def direct_loop_ok split: option.splits) (simp add: phase_ok_def zero_phase_def)

lemma waitForDirect_evidence:
  "snd (waitForDirect samples name env) = Ok () \<Longrightarrow>
    \<exists>b. de_before env = Some b \<and> (\<exists>r \<in> set (de_rounds env). \<exists>status. cr_status r = Some status \<and>
      ps_DirectTX (hs_P2P b) < ps_DirectTX (hs_P2P status))"
  by (auto simp: waitForDirect_def direct_loop_evidence split: option.splits)

text \<open>A round in which all confirming pings came back while the direct counter stood still.\<close>

definition relayed_round :: "int \<Rightarrow> check_round \<Rightarrow> bool" where
  "relayed_round samples r \<longleftrightarrow> (\<exists>rtt status confirm. cr_ping r = Some rtt \<and> cr_status r = Some status \<and>
     cr_confirm r = Some confirm \<and> ps_DirectTX (hs_P2P confirm) = ps_DirectTX (hs_P2P status) \<and>
     int (length (fst (collectPings samples samples (cr_more r)))) = samples)"

definition fallback_spec ::
    "fw_exec \<Rightarrow> int \<Rightarrow> check_round list \<Rightarrow> firewall \<Rightarrow> fw_log \<Rightarrow> phase_outcome \<times> bool \<times> firewall \<times> fw_log \<Rightarrow> bool" where
  "fallback_spec exec samples rounds fw lg x = (case x of (p, shut, fw', lg') \<Rightarrow>
     phase_ok samples fallback_name p \<and>
     (if shut then \<exists>ok. fw_Close exec fw lg = (ok, fw', lg') \<and> (snd p = Ok () \<longrightarrow> ok) else fw' = fw \<and> lg' = lg) \<and>
     (snd p = Ok () \<longrightarrow> shut \<and> (\<exists>r \<in> set rounds. relayed_round samples r)))"

lemma fallback_spec_more: "fallback_spec exec samples rounds fw lg x \<Longrightarrow> fallback_spec exec samples (r # rounds) fw lg x"
  by (auto simp: fallback_spec_def)

lemma fallback_spec_stop:
  "phase_ok samples fallback_name (p, Fail e) \<Longrightarrow> fallback_spec exec samples rounds fw lg ((p, Fail e), False, fw, lg)"
  by (simp add: fallback_spec_def)

lemma fallback_zero: "phase_ok samples fallback_name (zero_phase fallback_name, Fail e)"
  by (simp add: phase_ok_def zero_phase_def)

lemma fallback_loop_spec:
  "fallback_spec exec samples rounds fw lg
    (fallback_loop exec samples quiet initial final dur rounds lastTX lastChange rtts attempts fw lg)"
proof (induction rounds arbitrary: lastTX lastChange rtts attempts)
  case (Cons r rounds)
  note IH = fallback_spec_more [OF Cons.IH]
  have timeout: "fallback_spec exec samples (r # rounds) fw lg
      (fallback_loop exec samples quiet initial final dur [] t c rtts a fw lg)" for t c rtts a
    by (simp add: fallback_spec_def phase_ok_def)
  show ?case
  proof (cases "cr_status r")
    case None
    then show ?thesis using timeout fallback_spec_stop [OF fallback_zero] by (simp add: Let_def)
  next
    case (Some status)
    let ?tx = "ps_DirectTX (hs_P2P status)"
    show ?thesis
    proof (cases "cr_ping r")
      case None
      then show ?thesis using IH Some by (simp add: Let_def split: prod.split)
    next
      case rtt: (Some rtt)
      obtain more n where more: "collectPings samples samples (cr_more r) = (more, n)" by fastforce
      show ?thesis
      proof (cases "\<exists>confirm. cr_confirm r = Some confirm \<and> int (length more) = samples \<and> ps_DirectTX (hs_P2P confirm) = ?tx")
        case True
        then obtain confirm where confirm: "cr_confirm r = Some confirm" "int (length more) = samples"
          "ps_DirectTX (hs_P2P confirm) = ?tx" by blast
        then have good: "relayed_round samples r" using Some rtt more by (auto simp: relayed_round_def)
        obtain ok fw' lg' where close: "fw_Close exec fw lg = (ok, fw', lg')" by (cases "fw_Close exec fw lg")
        obtain t c where tc: "(if ?tx \<noteq> lastTX then (?tx, cr_changed r) else (lastTX, lastChange)) = (t, c)" by fastforce
        show ?thesis
        proof (cases "quiet \<le> time_Sub (cr_now r) c")
          case True
          then show ?thesis using good
            by (cases ok) (simp_all add: Some rtt more confirm tc close Let_def fallback_spec_def phase_ok_def, blast+)
        next
          case False
          then show ?thesis using IH by (simp add: Some rtt more confirm tc Let_def)
        qed
      next
        case False
        then show ?thesis using IH Some rtt more fallback_spec_stop [OF fallback_zero]
          by (auto simp: Let_def split: prod.split option.split)
      qed
    qed
  qed
qed (simp add: fallback_spec_def phase_ok_def)

lemma verifyFallback_spec:
  assumes "verifyFallback exec cfg env = (p, lg)"
  shows "phase_ok (cc_samples cfg) fallback_name p \<and> log_clean lg \<and>
    (snd p = Ok () \<longrightarrow> (\<exists>r \<in> set (fe_rounds env). relayed_round (cc_samples cfg) r) \<and> list_all snd lg)"
proof (cases "fe_before env")
  case None
  then show ?thesis using assms by (auto simp: verifyFallback_def fallback_zero log_clean_def)
next
  case (Some b)
  obtain res l where i: "installRelayOnlyFirewall exec (fe_root env) (fe_iptables env) (fe_split env) (fe_lookup env) (fe_pid env)
      (cc_relayAddr cfg) [] = (res, l)" by fastforce
  note log = install_log [OF i]
  show ?thesis
  proof (cases res)
    case (Ok fw)
    obtain q shut fw' l' where f: "fallback_loop exec (cc_samples cfg) (cc_fallbackQuiet cfg) (hs_P2P b) (fe_final env)
        (fe_dur env) (fe_rounds env) (ps_DirectTX (hs_P2P b)) (fe_started env) [] 0 fw l = (q, shut, fw', l')"
      by (cases "fallback_loop exec (cc_samples cfg) (cc_fallbackQuiet cfg) (hs_P2P b) (fe_final env)
        (fe_dur env) (fe_rounds env) (ps_DirectTX (hs_P2P b)) (fe_started env) [] 0 fw l")
    have spec: "fallback_spec exec (cc_samples cfg) (fe_rounds env) fw l (q, shut, fw', l')"
      using fallback_loop_spec [of exec "cc_samples cfg" "fe_rounds env" fw l] f by metis
    obtain ok fw2 l2 where c: "fw_Close exec fw l = (ok, fw2, l2)" by (cases "fw_Close exec fw l")
    have pl: "p = q" "lg = l2" using assms Some i Ok f spec c by (auto simp: verifyFallback_def fallback_spec_def split: if_splits)
    obtain port ips where rules: "fw_once fw = False" "l = fw_logged ([''-N'', fw_chain fw] # install_commands (fw_chain fw) port ips)"
      using log Ok by auto
    have "log_clean l2" by (rule Close_clean [OF rules c])
    moreover have "list_all snd l2" if "snd q = Ok ()"
    proof -
      have "ok" using spec that c by (auto simp: fallback_spec_def)
      moreover have "list_all snd l" by (simp add: rules(2) fw_logged_def list_all_iff)
      ultimately show ?thesis using fw_Close_twice(1) [OF rules(1) c] by auto
    qed
    ultimately show ?thesis using spec pl by (auto simp: fallback_spec_def)
  qed (use assms Some i log in \<open>auto simp: verifyFallback_def phase_ok_def zero_phase_def\<close>)
qed

definition phase_names :: "check_config \<Rightarrow> string list" where
  "phase_names cfg = [''baseline-connectivity'', ''direct-path''] @
     (if cc_forceFallback cfg then [fallback_name, ''direct-recovery''] else [])"

text \<open>The phases that follow a report's: their names in order, all passed but perhaps the last.\<close>

definition report_ok :: "check_config \<Rightarrow> check_report \<times> (check_error, unit) result \<Rightarrow> bool" where
  "report_ok cfg x \<longleftrightarrow> (case x of (rep, err) \<Rightarrow> rp_Passed rep = (err = Ok ()) \<and>
     prefix (map ph_Name (rp_Phases rep)) (phase_names cfg) \<and> list_all ph_Passed (butlast (rp_Phases rep)) \<and>
     (err = Ok () \<longrightarrow> map ph_Name (rp_Phases rep) = phase_names cfg \<and>
        list_all (\<lambda>ph. ph_Passed ph \<and> cc_samples cfg \<le> int (ps_Success (ph_Ping ph))) (rp_Phases rep)))"

lemma check_finish_simps [simp]:
  "rp_Phases (fst (check_finish env rep err)) = rp_Phases rep" "rp_Passed (fst (check_finish env rep err)) = (err = Ok ())"
  "snd (check_finish env rep err) = err" "rp_Phases (add_phase ph rep) = rp_Phases rep @ [ph]"
  by (simp_all add: check_finish_def add_phase_def)

lemma check_phases_spec:
  assumes "rp_Phases rep0 = []" "check_phases exec cfg env rep0 = (x, lg)"
  shows "report_ok cfg x \<and> log_clean lg \<and> (snd x = Ok () \<longrightarrow>
    snd (waitForDirect (cc_samples cfg) ''direct-path'' (ce_direct env)) = Ok () \<and>
    (cc_forceFallback cfg \<longrightarrow> snd (fst (verifyFallback exec cfg (ce_fallback env))) = Ok () \<and>
       lg = snd (verifyFallback exec cfg (ce_fallback env)) \<and>
       snd (waitForDirect (cc_samples cfg) ''direct-recovery'' (ce_recovery env)) = Ok ()))"
proof -
  let ?base = "measurePhase ''baseline-connectivity'' (cc_samples cfg) ''mesh peer must be reachable before path validation''
    (ce_baseBefore env) (ce_basePings env) (ce_baseAfter env) (ce_baseDur env)"
  obtain b e1 where eb: "?base = (b, e1)" by fastforce
  obtain d e2 where ed: "waitForDirect (cc_samples cfg) ''direct-path'' (ce_direct env) = (d, e2)" by fastforce
  obtain f e3 l where ef: "verifyFallback exec cfg (ce_fallback env) = ((f, e3), l)" by (metis prod.collapse)
  obtain r e4 where er: "waitForDirect (cc_samples cfg) ''direct-recovery'' (ce_recovery env) = (r, e4)" by fastforce
  note ok = measurePhase_ok [of "cc_samples cfg" "''baseline-connectivity''" "''mesh peer must be reachable before path validation''"
      "ce_baseBefore env" "ce_basePings env" "ce_baseAfter env" "ce_baseDur env", unfolded eb phase_ok_def fst_conv snd_conv]
    waitForDirect_ok [of "cc_samples cfg" "''direct-path''" "ce_direct env", unfolded ed phase_ok_def fst_conv snd_conv]
    verifyFallback_spec [OF ef, unfolded phase_ok_def fst_conv snd_conv]
    waitForDirect_ok [of "cc_samples cfg" "''direct-recovery''" "ce_recovery env", unfolded er phase_ok_def fst_conv snd_conv]
  obtain rep err where x: "x = (rep, err)" by fastforce
  have fin: "x = check_finish env rep' e \<Longrightarrow> rp_Phases rep = rp_Phases rep' \<and> rp_Passed rep = (e = Ok ()) \<and> err = e" for rep' e
    using x by (metis check_finish_simps(1-3) fst_conv snd_conv)
  consider (b) "e1 \<noteq> Ok ()" "x = check_finish env (add_phase b rep0) e1" "lg = []"
    | (d) "e1 = Ok ()" "e2 \<noteq> Ok () \<or> \<not> cc_forceFallback cfg" "x = check_finish env (add_phase d (add_phase b rep0)) e2" "lg = []"
    | (f) "e1 = Ok ()" "e2 = Ok ()" "cc_forceFallback cfg" "e3 \<noteq> Ok ()"
        "x = check_finish env (add_phase f (add_phase d (add_phase b rep0))) e3" "lg = l"
    | (r) "e1 = Ok ()" "e2 = Ok ()" "cc_forceFallback cfg" "e3 = Ok ()"
        "x = check_finish env (add_phase r (add_phase f (add_phase d (add_phase b rep0)))) e4" "lg = l"
    using assms(2) by (auto simp: check_phases_def eb ed ef er Let_def split: if_splits)
  then show ?thesis
  proof cases
    case b
    show ?thesis unfolding x using ok(1) fin [OF b(2)] b(1,3) assms(1) by (simp add: report_ok_def phase_names_def log_clean_def)
  next
    case d
    show ?thesis unfolding x using ok(1,2) fin [OF d(3)] d(1,2,4) assms(1)
      by (auto simp: report_ok_def phase_names_def log_clean_def ed)
  next
    case f
    show ?thesis unfolding x using ok(1-3) fin [OF f(5)] f(1-4,6) assms(1) by (simp add: report_ok_def phase_names_def)
  next
    case r
    show ?thesis unfolding x using ok fin [OF r(5)] r(1-4,6) assms(1)
      by (simp add: report_ok_def phase_names_def ed ef er)
  qed
qed


section \<open>A concrete check\<close>

definition sample_snapshot :: "u64 \<Rightarrow> health_snapshot" where
  "sample_snapshot tx = \<lparr>hs_NodeID = ''n1'', hs_VirtualIP = ''10.66.0.2'', hs_NetworkPrefix = ''10.66.0.0/24'', hs_StartedAt = 0,
     hs_Mesh = \<lparr>ss_Enabled = True, ss_State = StateRunning, ss_Error = ''''\<rparr>,
     hs_Xray = \<lparr>ss_Enabled = False, ss_State = StateDisabled, ss_Error = ''''\<rparr>,
     hs_P2P = no_counters\<lparr>ps_DirectTX := tx\<rparr>\<rparr>"

definition sample_round :: "u64 \<Rightarrow> check_round" where
  "sample_round tx = \<lparr>cr_ping = Some 1000000, cr_status = Some (sample_snapshot tx), cr_expired = False, cr_changed = 0,
     cr_now = 10 * Second, cr_more = [Some 2000000, Some 3000000], cr_confirm = Some (sample_snapshot tx)\<rparr>"

definition sample_direct :: "u64 \<Rightarrow> u64 \<Rightarrow> direct_env" where
  "sample_direct a b = \<lparr>de_before = Some (sample_snapshot a), de_rounds = [sample_round a, sample_round b],
     de_final = Some (sample_snapshot b), de_dur = 0\<rparr>"

definition sample_check_env :: check_env where
  "sample_check_env = \<lparr>ce_ping = True, ce_started = 0, ce_finished = 1, ce_status = Some (sample_snapshot 0),
     ce_baseBefore = Some (sample_snapshot 0), ce_basePings = [Some 1000000, Some 1000000], ce_baseAfter = Some (sample_snapshot 0),
     ce_baseDur = 0, ce_direct = sample_direct 0 4,
     ce_fallback = \<lparr>fe_before = Some (sample_snapshot 4), fe_root = True, fe_iptables = True,
       fe_split = (\<lambda>_. Some (''relay'', ''8667'')), fe_lookup = (\<lambda>_. Some [Addr4 0x01020304]), fe_pid = 77, fe_started = 0,
       fe_rounds = [sample_round 4], fe_final = Some (sample_snapshot 4), fe_dur = 0\<rparr>,
     ce_recovery = sample_direct 4 9, ce_final = Some (sample_snapshot 9)\<rparr>"

definition sample_check_config :: check_config where
  "sample_check_config = \<lparr>cc_statusURL = ''u'', cc_peerIP = Addr4 0x0A420003, cc_samples = 2, cc_forceFallback = True,
     cc_relayAddr = ''relay:8667'', cc_fallbackQuiet = 3 * Second\<rparr>"

lemma sample_install:
  "installRelayOnlyFirewall (\<lambda>_ _. True) True True (\<lambda>_. Some (''relay'', ''8667'')) (\<lambda>_. Some [Addr4 0x01020304]) 77 ''relay:8667'' [] =
    (Ok \<lparr>fw_chain = ''XRMCHK'' @ hex_string 77, fw_once = False, fw_err = False\<rparr>,
     fw_logged ([''-N'', ''XRMCHK'' @ hex_string 77] # install_commands (''XRMCHK'' @ hex_string 77) 8667 [Addr4 0x01020304]))"
proof -
  have "Atoi ''8667'' = Some 8667" "TrimCut (TrimSpace ''relay'') ''[]'' = ''relay''" "ParseAddr ''relay'' = None" by code_simp+
  then show ?thesis
    by (simp add: installRelayOnlyFirewall_def resolveRelayIPv4_def fw_install_def fw_run_def fw_logged_def install_commands_def)
qed

lemma sample_passes: "snd (fst (check_run (\<lambda>_ _. True) sample_check_config sample_check_env)) = Ok ()"
  by (simp add: check_run_def check_phases_def sample_check_config_def sample_check_env_def measurePhase_def collectPings_def
    waitForDirect_def sample_direct_def sample_round_def sample_snapshot_def no_counters_def add_rtt_def verifyFallback_def
    sample_install fw_Close_def fw_cleanup_def fw_run_def Second_def time_Sub_def int64_min_def int64_max_def)


end
