(* ===== verification/MeshCheckMain.thy ===== *)
theory MeshCheckMain
  imports MeshCheck
begin

text \<open>
  The checker's program around the check, \<open>cmd/meshcheck/main.go\<close>: the ping command, the reading of the
  status page, and the code the program exits with.
\<close>

section \<open>The ping command\<close>

definition pingArgs :: "time \<Rightarrow> string \<Rightarrow> string list" where
  "pingArgs timeout peer =
     (let seconds = \<lceil>duration_Seconds timeout\<rceil>; seconds = (if seconds < 1 then 1 else seconds)
      in [''-n'', ''-c'', ''1'', ''-W'', dec_string (nat seconds), peer])"

lemma duration_Seconds_whole: "n \<le> 2 ^ 53 \<Longrightarrow> duration_Seconds (int n * Second) = of_nat n"
  by (cases "n = 0") (simp_all add: duration_Seconds_def trunc_div_def Second_def fl64_of_nat sgn_mult)

text \<open>A timeout of whole seconds is passed on as it is.\<close>

lemma pingArgs_whole:
  "1 \<le> n \<Longrightarrow> n \<le> 2 ^ 53 \<Longrightarrow> pingArgs (int n * Second) peer = [''-n'', ''-c'', ''1'', ''-W'', dec_string n, peer]"
  by (simp add: pingArgs_def duration_Seconds_whole)

section \<open>The status request\<close>

text \<open>No answer, or a code and the outcome of decoding the body.\<close>

definition readStatus :: "(int \<times> health_snapshot option) option \<Rightarrow> health_snapshot option" where
  "readStatus reply =
     (case reply of
        None \<Rightarrow> None
      | Some (code, body) \<Rightarrow> if code \<noteq> 200 then None else body)"

text \<open>What the client's status page shows is what the checker reads; its health page only while the client
  is healthy.\<close>

lemma readStatus_pages:
  "readStatus (Some (map_prod id Some (status_page counters t))) = Some (tracker_Snapshot counters t)"
  "readStatus (Some (map_prod id Some (healthz_page counters t))) =
     (if Healthy counters t then Some (tracker_Snapshot counters t) else None)"
  by (simp_all add: readStatus_def status_page_def healthz_page_def)

section \<open>The program\<close>

definition check_main ::
    "((string \<times> time) list \<Rightarrow> (string \<times> time) list) \<Rightarrow> fw_exec \<Rightarrow> check_flags \<Rightarrow> check_env
     \<Rightarrow> nat \<times> check_report option \<times> fw_log" where
  "check_main ord exec flags env =
     (case parseFlags ord flags of
        Ok cfg \<Rightarrow>
          (let ((rep, err), lg) = check_run exec cfg env in ((if err \<noteq> Ok () then 1 else 0), Some rep, lg))
      | _ \<Rightarrow> (2, None, []))"

text \<open>The program exits with 0 exactly if it prints a report that passed, with 2 exactly if it prints none.\<close>

lemma check_finish_passed: "check_finish env rep0 e = (rep, err) \<Longrightarrow> rp_Passed rep \<longleftrightarrow> err = Ok ()"
  by (auto simp: check_finish_def)

lemma check_phases_passed: "check_phases exec cfg env rep0 = ((rep, err), lg) \<Longrightarrow> rp_Passed rep \<longleftrightarrow> err = Ok ()"
  unfolding check_phases_def Let_def by (auto dest: check_finish_passed split: prod.splits if_splits)

lemma check_run_passed: "check_run exec cfg env = ((rep, err), lg) \<Longrightarrow> rp_Passed rep \<longleftrightarrow> err = Ok ()"
  unfolding check_run_def Let_def
  by (auto dest: check_finish_passed check_phases_passed split: option.splits if_splits)

lemma check_main_exit:
  assumes "check_main ord exec flags env = (code, out, lg)"
  shows "code = 0 \<longleftrightarrow> (\<exists>rep. out = Some rep \<and> rp_Passed rep)" "code = 2 \<longleftrightarrow> out = None" "code \<le> 2"
  using assms by (auto simp: check_main_def check_run_passed split: result.splits prod.splits if_splits)

end
