(* ===== verification/TunLinux.thy ===== *)
theory TunLinux
  imports RouterClass GoAddrText
begin

text \<open>
  The Linux TUN device, \<open>internal/tun/linux.go\<close>: the request that opens it and the \<open>ip\<close> commands that
  configure it. Which commands succeed is the environment's: \<open>exec n args\<close> for the \<open>n\<close>-th one.
\<close>

datatype tun_error = ErrTunName | ErrTunOpen | ErrTunIoctl | ErrTunAddress | ErrNoDevice | ErrIPCommand "string list"

section \<open>Opening\<close>

text \<open>The 40 bytes of the request: the name in 16, then the flags, little endian.\<close>

definition tun_flags :: u16 where
  "tun_flags = 0x0001 OR 0x1000"

definition tun_request :: "string \<Rightarrow> bytes" where
  "tun_request name =
     take 16 (bytes_of name @ replicate 16 0) @ [ucast tun_flags, ucast (drop_bit 8 tun_flags)] @ replicate 22 0"

text \<open>\<open>ioctl\<close> is what the kernel makes of the request, \<open>None\<close> for an error; the name it wrote back counts.\<close>

definition tun_Open :: "bool \<Rightarrow> (bytes \<Rightarrow> bytes option) \<Rightarrow> string \<Rightarrow> (tun_error, string) result" where
  "tun_Open openable ioctl name0 =
     (let name = (if TrimSpace name0 = '''' then ''xrmesh0'' else name0)
      in if length name \<ge> 16 then Fail ErrTunName
      else if \<not> openable then Fail ErrTunOpen
      else case ioctl (tun_request name) of
        None \<Rightarrow> Fail ErrTunIoctl
      | Some req \<Rightarrow> Ok (TrimRight (string_of (take 16 req)) [CHR 0x00]))"

section \<open>Commands\<close>

fun runIPCommands :: "(nat \<Rightarrow> string list \<Rightarrow> bool) \<Rightarrow> nat \<Rightarrow> string list list \<Rightarrow> (tun_error, unit) result \<times> string list list" where
  "runIPCommands exec n [] = (Ok (), [])"
| "runIPCommands exec n (args # rest) =
     (if \<not> exec n args then (Fail (ErrIPCommand args), [args])
      else let (res, made) = runIPCommands exec (n + 1) rest in (res, args # made))"

definition tun_Configure ::
    "(nat \<Rightarrow> string list \<Rightarrow> bool) \<Rightarrow> string \<Rightarrow> ip_prefix \<Rightarrow> (tun_error, unit) result \<times> string list list" where
  "tun_Configure exec name addr =
     (if \<not> prefix_IsValid addr \<or> \<not> addr_Is4 (prefix_Addr addr) then (Fail ErrTunAddress, [])
      else runIPCommands exec 0
        [[''link'', ''set'', ''dev'', name, ''mtu'', ''1280'', ''up''], [''addr'', ''replace'', prefix_String addr, ''dev'', name]])"

definition ConfigureDiscovery ::
    "(nat \<Rightarrow> string list \<Rightarrow> bool) \<Rightarrow> string option \<Rightarrow> (tun_error, unit) result \<times> string list list" where
  "ConfigureDiscovery exec device =
     (case device of
        None \<Rightarrow> (Fail ErrNoDevice, [])
      | Some name \<Rightarrow> runIPCommands exec 0 (discoveryCommands name))"

text \<open>The commands run are the first ones in order, all of them exactly when none fails.\<close>

lemma runIPCommands_spec:
  "runIPCommands exec n cmds = (res, made) \<Longrightarrow>
    (\<exists>k. made = take k cmds) \<and> (res = Ok () \<longrightarrow> made = cmds) \<and> (res \<noteq> Ok () \<longrightarrow> res = Fail (ErrIPCommand (last made)) \<and> made \<noteq> [])"
proof (induction cmds arbitrary: n res made)
  case (Cons c cmds)
  show ?case
  proof (cases "exec n c")
    case True
    then obtain more where r: "runIPCommands exec (n + 1) cmds = (res, more)" "made = c # more"
      using Cons.prems by (auto split: prod.splits)
    from Cons.IH [OF r(1)] obtain k where "more = take k cmds" by blast
    then have "made = take (Suc k) (c # cmds)" by (simp add: r(2))
    then show ?thesis using Cons.IH [OF r(1)] r(2) by (metis last_ConsR list.discI)
  next
    case False
    then show ?thesis using Cons.prems by (auto intro: exI [of _ 1])
  qed
qed simp

text \<open>A name that is short enough reaches the kernel whole, ended by a zero byte.\<close>

lemma tun_request_name:
  assumes "length name < 16"
  shows "length (tun_request name) = 40" "take (length name) (tun_request name) = bytes_of name"
    "tun_request name ! length name = 0"
  using assms by (simp_all add: tun_request_def bytes_of_def nth_append)

end
