(* ===== verification/Spec2Isabelle.thy ===== *)
theory Spec2Isabelle
  imports MeshDelivery ClientRun ClientTypes DirectPath TicketRace ServerRun MeshCheckMain TunLinux
begin

text \<open>
  Verification development of xray-mesh, a mesh VPN in Go: a coordinator (\<open>cmd/server\<close>) registers nodes,
  leases each a virtual IPv4 address and relays their packets over UDP; a client (\<open>cmd/client\<close>) carries the
  packets of a TUN interface to the relay or, once a probe has opened one, over a direct path to the peer,
  and can supervise an Xray child that takes the rest of the traffic; \<open>cmd/meshcheck\<close> checks a connection.

  \<^bold>\<open>How the parts interact.\<close> The coordinator's HTTP handlers, its relay and its sweeper share the registry
  (nodes, addresses, session tokens); handlers and sweeper also share the tickets, sweeper and relay the
  endpoints. A client registers, then runs a heartbeat, a poll of the coordinator (tickets, candidates,
  probes), and the pump between the TUN interface and one UDP socket, over the state \<open>p2p_runtime\<close>. What
  the two sides exchange is relay frames, probe frames and direct payloads; a probe ticket is the secret
  two clients share.

  \<^bold>\<open>Conventions.\<close> A Go struct is a record with the prefixed names of its fields, a method a function from
  the old state to its result and the new state. \<open>('e, 'a) result\<close> is \<open>Ok\<close>, \<open>Fail\<close> (a returned error) or
  \<open>Panic\<close>; slices are read through checked accesses that give \<open>Panic\<close> out of range. Words have the width of
  the source's integers; times and durations are nanoseconds (\<open>int\<close>, the zero time is 0); strings are lists
  of bytes. What a function reads from outside is an argument: the clock, random bytes (\<open>None\<close> for a failed
  read), the order of a \<open>range\<close> over a map, what a socket, a resolver, a command or a peer answers. A mutex
  held for a whole method makes it one step.

  \<^bold>\<open>Library.\<close>
  \<^item> \<open>Prelude\<close>: results, maps, time, sorting. \<open>Interfaces\<close>: the locales \<open>address_pool\<close> (interpreted on the
    allocator), \<open>expiring_store\<close> (on the tickets and the client's replay cache) and \<open>aead\<close> (on AES-GCM);
    \<open>MeshPeer\<close> has \<open>peer_directory\<close> (on the registry), the interface the relay is verified against.
  \<^item> \<open>GoStrings\<close>, \<open>GoNetip\<close>, \<open>GoAddrText\<close>, \<open>GoAddrParse\<close>, \<open>GoFloat\<close>, \<open>GoJson\<close>, \<open>GoCrypto\<close>: what the source uses
    of Go's \<open>strings\<close>, \<open>encoding/hex\<close>, \<open>net/netip\<close>, \<open>float64\<close>, \<open>encoding/json\<close>, \<open>crypto/sha256\<close>,
    \<open>crypto/hmac\<close> and AES-256-GCM. All of it computes; no property rests on an assumption about it.

  \<^bold>\<open>Coordinator.\<close>
  \<^item> \<open>MeshAllocator\<close> (\<open>internal/mesh/allocator.go\<close>): the two scans and the release; leases are an injection
    into the pool, and an address is refused only when all are leased.
  \<^item> \<open>MeshRegistry\<close> (\<open>registry.go\<close>, \<open>peer.go\<close>): the three indices always describe one set of peers;
    registration branch by branch; expiry removes exactly the peers whose lease ran out.
  \<^item> \<open>RelayFrame\<close> (\<open>internal/transport/frame.go\<close>), \<open>PacketIPv4\<close> (\<open>internal/packet/ipv4.go\<close>): the codecs.
  \<^item> \<open>RelayServer\<close> (\<open>internal/transport/relay.go\<close>): what is sent, to whom and when; the token bucket in
    binary64, and the bound it gives on the discovery packets of a node; duplicate suppression; the loop
    \<open>Serve\<close> survives every datagram.
  \<^item> \<open>P2PTickets\<close> (\<open>internal/p2p/tickets.go\<close>): which tickets verify, for whom and until when.
  \<^item> \<open>ServerApi\<close> (\<open>cmd/server/main.go\<close>): every handler, the flags and the sweeper; the runs of the coordinator
    (\<open>coord_step\<close>, \<open>coord_reach\<close>) and their invariants: an expired node leaves no address, endpoint or ticket.
    There a handler is one step; \<open>TicketRace\<close> splits the handler that issues tickets at the point where a
    sweep can come in between, and shows what then happens. \<open>ServerRun\<close> puts the routes in front of the
    handlers and runs requests, datagrams and ticks of the sweeper in any order.

  \<^bold>\<open>Client.\<close>
  \<^item> \<open>P2PProbe\<close> and \<open>P2PData\<close> (\<open>internal/p2p/probe.go\<close>, \<open>data.go\<close>, \<open>data_meta.go\<close>): what is accepted is what a
    holder of the ticket made; both formats read back what was written. \<open>P2PSelector\<close> (\<open>selector.go\<close>,
    \<open>internal/telemetry/p2p.go\<close>): the selector refines its history of marks.
  \<^item> \<open>ClientRuntime\<close> (\<open>cmd/client/p2p_runtime.go\<close>, \<open>direct_runtime.go\<close>, \<open>direct_replay.go\<close>) has the operations,
    \<open>ClientTypes\<close> the types of the state's maps, \<open>ClientPaths\<close> what is taken from the network and that
    nothing is taken twice in any sequence of operations, \<open>DirectPath\<close> the whole way from a ticket asked of
    the coordinator to an open path.
  \<^item> \<open>RouterClass\<close> (\<open>internal/router\<close>, \<open>internal/tun/tun.go\<close>), \<open>TunLinux\<close> (\<open>internal/tun/linux.go\<close>),
    \<open>XrayTunnel\<close> (\<open>internal/xray/tun_profile.go\<close>): classification, device commands, and the routes of the full
    tunnel, which cover exactly the addresses outside the protected prefixes.
  \<^item> \<open>ClientMain\<close>, \<open>ClientPump\<close>, \<open>ClientRun\<close> (\<open>cmd/client/main.go\<close>, \<open>heartbeat.go\<close>, \<open>udp_socket.go\<close>): flags and
    profile, the pump one packet at a time, and the program from start to end with its deferred calls.
    \<open>XrayProcess\<close> (\<open>internal/xray/process.go\<close>): the supervisor as interleaved calls of several
    goroutines; \<open>HealthStatus\<close> (\<open>internal/health/status.go\<close>): the status page.
  \<^item> \<open>MeshDelivery\<close>: a packet from one interface over the relay to another.

  \<^bold>\<open>Checker.\<close> \<open>MeshCheck\<close>, \<open>MeshCheckMain\<close> and \<open>MeshFirewall\<close> (\<open>cmd/meshcheck\<close>): the phases of a check, what its
  report and its exit code say of them, and that the commands which remove the firewall's rules are run
  on every way out.

  \<^bold>\<open>Bounds, loops and termination.\<close> There is no fuel. The allocator's scans, the splitting of prefixes and
  the readers of text are \<open>function\<close>s with measures (addresses left, prefix bits left, bytes left). A loop
  that waits for events (the relay's \<open>Serve\<close>, polls, heartbeats, the checker's phases) is a recursion over
  the list of what it meets, so that a statement for all lists covers every run up to any point; that the
  supervisor's calls return is a property of its own. Widths that overflow are words (addresses, lengths in
  frames, counters); the token bucket is rounded after each operation, and its capacity is a burst.

  \<^bold>\<open>Not modelled.\<close> Opening and closing of sockets and listeners, write deadlines, the HTTP server and its
  shutdown, signals, and logging: they only move bytes or stop the program. The JSON text of HTTP bodies,
  of configurations and of reports is Go's; a body is the value it decodes to or the failure to decode. What
  the checker's HTTP client and \<open>ping\<close> command answer are arguments, and its report is not printed.
  \<open>internal/tun/unsupported.go\<close> and \<open>cmd/meshcheck/firewall_unsupported.go\<close> return one error each on other
  platforms; \<open>internal/discovery/discovery.go\<close> and \<open>internal/xray/outbound.go\<close> declare types only. That no
  two random tokens or identifiers of tickets collide is a hypothesis where it is used, never of secrecy:
  the properties say which bytes are accepted, not how hard they are to find.
\<close>

section \<open>Properties across components\<close>

lemma mdns_ssdp_string:
  "addr_String (Addr4 v) @ ''/32'' \<in> set discoveryDestinations \<longleftrightarrow> v \<in> {0xE00000FB, 0xEFFFFFFA}"
proof -
  have s: "string4 0xE00000FB = ''224.0.0.251''" "string4 0xEFFFFFFA = ''239.255.255.250''"
    by (simp_all add: string4_def dec_string.simps dec_digit_def) (simp_all add: char_of_def bit_Suc_0_iff)
  have "string4 v = ''224.0.0.251'' \<longleftrightarrow> v = 0xE00000FB" "string4 v = ''239.255.255.250'' \<longleftrightarrow> v = 0xEFFFFFFA"
    using string4_inj [of v "0xE00000FB"] string4_inj [of v "0xEFFFFFFA"] by (auto simp: s)
  then show ?thesis by (simp add: discoveryDestinations_def)
qed

definition sample_ssdp :: bytes where
  "sample_ssdp = [0x45, 0, 0, 28, 0, 0, 0, 0, 1, 17, 0, 0, 10, 88, 0, 2, 239, 255, 255, 250,
     0x07, 0x6C, 0x07, 0x6C, 0, 8, 0, 0]"

lemma sample_ssdp_discovery: "isDiscoveryPacket sample_ssdp (Addr4 0xEFFFFFFA)"
proof -
  have h: "ipv4HeaderLength sample_ssdp = Ok 20"
    by (simp add: sample_ssdp_def ipv4HeaderLength_def idx_def)
  show ?thesis
    by (simp add: isDiscoveryPacket_def IPv4UDPPorts_eq [OF h])
       (simp add: sample_ssdp_def mdnsMulticast_def ssdpMulticast_def AddrFrom4_def be32_def be16_def)
qed

text \<open>The client's classifier, its interface routes and the coordinator's relay agree on what is
  discovery traffic: the routes brought into the mesh interface are those of exactly the destinations
  the classifier calls discovery, and whatever the relay treats as discovery is classified so.\<close>

theorem discovery_routes_agree:
  "{d. \<exists>s payload. Classify m \<lparr>pk_Source = s, pk_Destination = d, pk_Payload = payload\<rparr> = ClassDiscovery} =
     {Addr4 v | v. addr_String (Addr4 v) @ ''/32'' \<in> set discoveryDestinations} \<and>
   {d. \<exists>payload. isDiscoveryPacket payload d} =
     {Addr4 v | v. addr_String (Addr4 v) @ ''/32'' \<in> set discoveryDestinations}"
proof -
  have a: "mdnsIPv4 = Addr4 0xE00000FB" "ssdpIPv4 = Addr4 0xEFFFFFFA"
    "mdnsMulticast = Addr4 0xE00000FB" "ssdpMulticast = Addr4 0xEFFFFFFA"
    by (simp_all add: mdnsIPv4_def ssdpIPv4_def mdnsMulticast_def ssdpMulticast_def AddrFrom4_def be32_def)
  have routes: "{Addr4 v | v. addr_String (Addr4 v) @ ''/32'' \<in> set discoveryDestinations} =
      {Addr4 0xE00000FB, Addr4 0xEFFFFFFA}"
    by (auto simp only: mdns_ssdp_string insert_iff empty_iff)
  have "{d. \<exists>payload. isDiscoveryPacket payload d} \<subseteq> {Addr4 0xE00000FB, Addr4 0xEFFFFFFA}"
    by (auto simp: isDiscoveryPacket_def a split: result.split_asm if_split_asm)
  moreover have "isDiscoveryPacket sample_ssdp (Addr4 0xEFFFFFFA)" by (rule sample_ssdp_discovery)
  ultimately have "{d. \<exists>payload. isDiscoveryPacket payload d} = {Addr4 0xE00000FB, Addr4 0xEFFFFFFA}"
    using sample_mdns_facts(2) by blast
  then show ?thesis unfolding routes Classify_cases by (auto simp: a)
qed

end
